(* ===== verification/QT_Prelude.thy ===== *)
theory QT_Prelude
  imports Complex_Main "HOL-Library.Word" "HOL-Library.Multiset" "HOL-Library.Log_Nat"
begin

text \<open>
  Shared vocabulary of the quadtree development.

  \<^item> The machine types of the C++ source on an LP64 platform: \<open>int\<close> is a 32-bit word,
    \<open>size_t\<close> a 64-bit word, and \<open>size_t_of_int\<close> is the integral conversion that the
    comparison \<open>points.size() < capacity\<close> (\<open>src/Code.cpp\<close>, line 47) applies to its
    \<open>int\<close> operand: sign extension to 64 bits, read as unsigned. \<open>clong\<close> is the
    64-bit count of a \<open>chrono\<close> duration (line 123).
  \<^item> The outcome of a call that can go wrong: a \<open>fault\<close> (dereferencing a null child
    pointer) or a value; a call that does not return at all is \<open>None\<close> around it.
  \<^item> Collections of facts (\<open>named_theorems\<close>) that the component theories fill and
    that their proofs unfold or simplify with.
  \<^item> Generic lemmas on lists, multisets, \<open>Option.bind\<close> and sums, and on the loops
    over the indices of a vector (folds over \<open>[0..<n]\<close>).
\<close>

section \<open>Machine integers\<close>

type_synonym cint = "32 word"
type_synonym size_t = "64 word"
type_synonym clong = "64 word"

definition size_t_of_int :: "cint \<Rightarrow> nat" where
  "size_t_of_int c = unat (scast c :: size_t)"

section \<open>Outcomes of calls\<close>

datatype fault = NullDeref

type_synonym 'a result = "fault + 'a"

text \<open>\<open>'a outcome\<close>: \<open>None\<close> is a call that never returns, \<open>Some (Inl f)\<close> one that
  runs into undefined behaviour, \<open>Some (Inr v)\<close> one that returns \<open>v\<close>.\<close>

type_synonym 'a outcome = "'a result option"

definition returns :: "'a outcome \<Rightarrow> 'a \<Rightarrow> bool" where
  "returns oc v = (oc = Some (Inr v))"

section \<open>Fact collections\<close>

named_theorems dbl_eval \<open>equations that evaluate machine arithmetic on literals\<close>
named_theorems qt_eval \<open>equations that evaluate the quadtree operations on literals\<close>
named_theorems qt_sel \<open>selectors of updated nodes\<close>
named_theorems qt_inv \<open>invariant preservation facts\<close>

section \<open>Machine integer lemmas\<close>

lemma size_t_of_int_bound: "size_t_of_int c < 2 ^ 64"
  unfolding size_t_of_int_def using unsigned_less [of "scast c :: size_t", where 'a = nat] by simp

lemma size_t_of_int_mod: "size_t_of_int c = nat (sint c mod 2 ^ 64)"
proof -
  have "uint (scast c :: size_t) = sint c mod 2 ^ 64"
    unfolding scast_eq uint_word_of_int by simp
  then show ?thesis
    unfolding size_t_of_int_def unat_eq_nat_uint by (rule arg_cong)
qed

lemma sint_cint_bounds: "- 2147483648 \<le> sint (c :: cint)" "sint (c :: cint) < 2147483648"
  using sint_ge [of c] sint_lt [of c] by simp_all

lemma size_t_of_int_nonneg: "0 \<le> sint c \<Longrightarrow> size_t_of_int c = nat (sint c)"
proof -
  assume "0 \<le> sint c"
  moreover have "sint c < 18446744073709551616"
    using sint_cint_bounds(2) [of c] by linarith
  ultimately have "sint c mod 18446744073709551616 = sint c"
    by (rule mod_pos_pos_trivial)
  then show ?thesis
    by (simp add: size_t_of_int_mod)
qed

lemma size_t_of_int_neg: "sint c < 0 \<Longrightarrow> size_t_of_int c = nat (18446744073709551616 + sint c)"
proof -
  assume neg: "sint c < 0"
  have "0 \<le> 18446744073709551616 + sint c"
    using sint_cint_bounds(1) [of c] by linarith
  moreover have "18446744073709551616 + sint c < 18446744073709551616"
    using neg by linarith
  ultimately have "(18446744073709551616 + sint c) mod 18446744073709551616 = 18446744073709551616 + sint c"
    by (rule mod_pos_pos_trivial)
  then have "sint c mod 18446744073709551616 = 18446744073709551616 + sint c"
    by simp
  then show ?thesis
    by (simp add: size_t_of_int_mod)
qed

lemma size_t_of_int_neg_ge: "sint c < 0 \<Longrightarrow> 2 ^ 63 \<le> size_t_of_int c"
proof -
  assume neg: "sint c < 0"
  have "9223372036854775808 \<le> 18446744073709551616 + sint c"
    using sint_cint_bounds(1) [of c] by linarith
  then have "(9223372036854775808 :: nat) \<le> nat (18446744073709551616 + sint c)"
    by linarith
  then show ?thesis
    by (simp add: size_t_of_int_neg [OF neg])
qed

lemma size_t_of_int_eq_0_iff [simp]: "size_t_of_int c = 0 \<longleftrightarrow> c = 0"
proof (cases "0 \<le> sint c")
  case True
  then show ?thesis
    by (auto simp: size_t_of_int_nonneg signed_eq_0_iff)
next
  case False
  then have "size_t_of_int c = nat (18446744073709551616 + sint c)"
    by (simp add: size_t_of_int_neg)
  moreover have "0 < 18446744073709551616 + sint c"
    using sint_cint_bounds(1) [of c] by linarith
  moreover have "c \<noteq> 0"
    using False by auto
  ultimately show ?thesis
    by simp
qed

lemma size_t_of_int_0 [simp]: "size_t_of_int 0 = 0"
  by (simp add: size_t_of_int_def)

lemma size_t_of_int_pos_iff [simp]: "0 < size_t_of_int c \<longleftrightarrow> c \<noteq> 0"
  by (simp add: neq0_conv [symmetric])

lemma size_t_of_int_literals [dbl_eval]: "size_t_of_int 4 = 4" "size_t_of_int (-1) = 18446744073709551615" "size_t_of_int 1 = 1"
  by (simp_all add: size_t_of_int_def unsigned_minus_1_eq_mask mask_eq_exp_minus_1)

section \<open>Evaluating floors of rational literals\<close>

lemma floor_rat_numeral_div [simp]:
  "\<lfloor>(numeral a :: rat) / numeral b\<rfloor> = numeral a div numeral b"
  using floor_divide_of_int_eq [of "numeral a" "numeral b", where ?'a = rat] by simp

lemma floor_rat_neg_numeral_div [simp]:
  "\<lfloor>- (numeral a :: rat) / numeral b\<rfloor> = - numeral a div numeral b"
  using floor_divide_of_int_eq [of "- numeral a" "numeral b", where ?'a = rat] by simp

lemma floor_rat_neg_numeral_div' [simp]:
  "\<lfloor>- ((numeral a :: rat) / numeral b)\<rfloor> = - numeral a div numeral b"
  using floor_rat_neg_numeral_div [of a b] by simp

lemma ceiling_rat_numeral_div [simp]:
  "\<lceil>(numeral a :: rat) / numeral b\<rceil> = - (- numeral a div numeral b)"
  by (simp add: ceiling_def)

lemma floor_rat_one_div_numeral [simp]:
  "\<lfloor>(1 :: rat) / numeral b\<rfloor> = 1 div numeral b"
  using floor_divide_of_int_eq [of 1 "numeral b", where ?'a = rat] by simp

section \<open>Outcome lemmas\<close>

lemma returns_Some_Inr [simp]: "returns (Some (Inr v)) w \<longleftrightarrow> v = w"
  by (auto simp: returns_def)

lemma returns_None [simp]: "\<not> returns None v"
  by (simp add: returns_def)

lemma returns_Inl [simp]: "\<not> returns (Some (Inl f)) v"
  by (simp add: returns_def)

lemma returns_inject: "returns oc v \<Longrightarrow> returns oc w \<Longrightarrow> v = w"
  by (simp add: returns_def)

lemma bind_eq_None_conv': "Option.bind x f = None \<longleftrightarrow> x = None \<or> (\<exists>y. x = Some y \<and> f y = None)"
  by (cases x) simp_all

section \<open>List and multiset lemmas\<close>

lemma filter_mset_mset_append:
  "mset (xs @ filter P ys) = mset xs + filter_mset P (mset ys)"
  by simp

lemma filter_False_conv: "(\<forall>x \<in> set xs. \<not> P x) \<Longrightarrow> filter P xs = []"
  by (induction xs) simp_all

lemma filter_True_conv: "(\<forall>x \<in> set xs. P x) \<Longrightarrow> filter P xs = xs"
  by (induction xs) simp_all

lemma filter_conj_absorb: "(\<forall>x \<in> set xs. Q x) \<Longrightarrow> filter (\<lambda>x. P x \<and> Q x) xs = filter P xs"
  by (induction xs) simp_all

section \<open>Loops over the indices of a vector\<close>

text \<open>A loop that assigns \<open>f i\<close> to the element \<open>i\<close> for \<open>i = 0, \<dots>, n - 1\<close>.\<close>

lemma fold_update_upt:
  "n \<le> length xs \<Longrightarrow> fold (\<lambda>i d. d[i := f i]) [0..<n] xs = map f [0..<n] @ drop n xs"
proof (induction n)
  case (Suc n)
  then have "(map f [0..<n] @ drop n xs)[n := f n] = map f [0..<n] @ (drop n xs)[0 := f n]"
    by (simp add: list_update_append)
  also from Suc.prems have "(drop n xs)[0 := f n] = f n # drop (Suc n) xs"
    by (simp add: Cons_nth_drop_Suc [symmetric])
  finally show ?case
    using Suc by simp
qed simp

lemma fold_update_replicate:
  "fold (\<lambda>i d. d[i := f i]) [0..<n] (replicate n a) = map f [0..<n]"
  by (simp add: fold_update_upt)

text \<open>A loop that reads the elements \<open>0, \<dots>, n - 1\<close> in order.\<close>

lemma fold_nth_upt:
  "n \<le> length xs \<Longrightarrow> fold (\<lambda>i s. g s (xs ! i)) [0..<n] a = fold (\<lambda>x s. g s x) (take n xs) a"
proof (induction n)
  case (Suc n)
  then show ?case
    by (simp add: take_Suc_conv_app_nth)
qed simp

lemma sint_clong_bounds: "- (2 ^ 63) \<le> sint (c :: clong)" "sint (c :: clong) < 2 ^ 63"
  using sint_ge [of c] sint_lt [of c] by simp_all

lemma filter_mset_all: "(\<forall>x \<in># M. P x) \<Longrightarrow> filter_mset P M = M"
  by (induction M) auto

end
