(* ===== verification/Float64.thy ===== *)
theory Float64
  imports QT_Prelude
begin

text \<open>
  The C++ type \<open>double\<close> as the program uses it: IEEE-754 binary64 values with the
  comparisons \<open>>=\<close>, \<open><=\<close>, \<open>>\<close>, \<open><\<close> (\<open>src/Code.cpp\<close>, lines 22 and 25) and the
  arithmetic of the midpoint \<open>(a + b) / 2\<close> (lines 79 and 80), of the box of a query
  (line 118) and of \<open>main\<close> (products, quotients and conversions from integers,
  lines 99, 100, 124 and 132), evaluated in binary64 with rounding to nearest, ties
  to even.

  A value is a NaN, an infinity, or a finite rational. The two zeros are one value
  \<open>Fin 0\<close> and all NaNs are one value \<open>NaN\<close>: no operation of the program tells them
  apart. \<open>round_double\<close> maps an exact rational result to the binary64 value that the
  hardware returns, with gradual underflow and overflow to an infinity; a \<open>Fin q\<close>
  is a value of the type \<open>double\<close> when \<open>is_double\<close> holds, that is when rounding
  leaves \<open>q\<close> unchanged.
\<close>

section \<open>Values\<close>

datatype double = NaN | NInf | Fin rat | PInf

section \<open>Comparisons\<close>

fun d_le :: "double \<Rightarrow> double \<Rightarrow> bool" where
  "d_le NaN b = False"
| "d_le a NaN = False"
| "d_le NInf b = True"
| "d_le a PInf = True"
| "d_le (Fin a) (Fin b) = (a \<le> b)"
| "d_le PInf b = False"
| "d_le a NInf = False"

fun d_lt :: "double \<Rightarrow> double \<Rightarrow> bool" where
  "d_lt NaN b = False"
| "d_lt a NaN = False"
| "d_lt (Fin a) (Fin b) = (a < b)"
| "d_lt NInf NInf = False"
| "d_lt NInf b = True"
| "d_lt PInf b = False"
| "d_lt a PInf = True"
| "d_lt a NInf = False"

definition d_ge :: "double \<Rightarrow> double \<Rightarrow> bool" where
  "d_ge a b = d_le b a"

definition d_gt :: "double \<Rightarrow> double \<Rightarrow> bool" where
  "d_gt a b = d_lt b a"

section \<open>Rounding to binary64\<close>

text \<open>\<open>ilog2 x\<close> is \<open>\<lfloor>log\<^sub>2 x\<rfloor>\<close> for a positive rational \<open>x\<close>, computed on integers.\<close>

definition ilog2 :: "rat \<Rightarrow> int" where
  "ilog2 x = (if 1 \<le> x then bitlen \<lfloor>x\<rfloor> - 1 else - bitlen (\<lceil>1 / x\<rceil> - 1))"

text \<open>Rounding to the nearest integer, a tie to the even one.\<close>

definition round_half_even :: "rat \<Rightarrow> int" where
  "round_half_even x =
     (let f = \<lfloor>x\<rfloor>; d = x - of_int f in
      if d < 1 / 2 then f
      else if 1 / 2 < d then f + 1
      else if even f then f else f + 1)"

text \<open>The spacing of binary64 values around \<open>x \<noteq> 0\<close>: 53 significant bits, and the
  exponent not below that of the subnormal numbers.\<close>

definition quantum :: "rat \<Rightarrow> rat" where
  "quantum x = 2 powi (max (ilog2 \<bar>x\<bar>) (- 1022) - 52)"

definition round_double :: "rat \<Rightarrow> double" where
  "round_double x =
     (if x = 0 then Fin 0
      else let q = quantum x; r = of_int (round_half_even (x / q)) * q in
        if 2 ^ 1024 \<le> r then PInf
        else if r \<le> - (2 ^ 1024) then NInf
        else Fin r)"

definition is_double :: "double \<Rightarrow> bool" where
  "is_double d = (case d of Fin q \<Rightarrow> round_double q = Fin q | _ \<Rightarrow> True)"

section \<open>Arithmetic\<close>

fun d_add :: "double \<Rightarrow> double \<Rightarrow> double" where
  "d_add NaN b = NaN"
| "d_add a NaN = NaN"
| "d_add PInf NInf = NaN"
| "d_add NInf PInf = NaN"
| "d_add PInf b = PInf"
| "d_add a PInf = PInf"
| "d_add NInf b = NInf"
| "d_add a NInf = NInf"
| "d_add (Fin a) (Fin b) = round_double (a + b)"

fun d_neg :: "double \<Rightarrow> double" where
  "d_neg NaN = NaN"
| "d_neg NInf = PInf"
| "d_neg PInf = NInf"
| "d_neg (Fin a) = Fin (- a)"

definition d_sub :: "double \<Rightarrow> double \<Rightarrow> double" where
  "d_sub a b = d_add a (d_neg b)"

text \<open>Division by the constant \<open>2\<close> (the \<open>int\<close> literal converted to \<open>2.0\<close>).\<close>

fun d_half :: "double \<Rightarrow> double" where
  "d_half NaN = NaN"
| "d_half NInf = NInf"
| "d_half PInf = PInf"
| "d_half (Fin a) = round_double (a / 2)"

text \<open>The expression \<open>(a + b) / 2\<close> of \<open>subdivide\<close>.\<close>

definition d_mid :: "double \<Rightarrow> double \<Rightarrow> double" where
  "d_mid a b = d_half (d_add a b)"

text \<open>The product and the quotient of \<open>main\<close>. The divisors of the program are the
  constants \<open>RAND_MAX\<close>, \<open>1e6\<close> and \<open>num_queries\<close>, none of them zero; a zero divisor
  is taken as the positive zero.\<close>

fun d_mul :: "double \<Rightarrow> double \<Rightarrow> double" where
  "d_mul NaN b = NaN"
| "d_mul a NaN = NaN"
| "d_mul (Fin a) (Fin b) = round_double (a * b)"
| "d_mul (Fin a) b = (if a = 0 then NaN else if 0 < a then b else d_neg b)"
| "d_mul a (Fin b) = (if b = 0 then NaN else if 0 < b then a else d_neg a)"
| "d_mul PInf b = b"
| "d_mul NInf b = d_neg b"

fun d_div :: "double \<Rightarrow> double \<Rightarrow> double" where
  "d_div NaN b = NaN"
| "d_div a NaN = NaN"
| "d_div (Fin a) (Fin b) =
     (if b = 0 then (if a = 0 then NaN else if 0 < a then PInf else NInf)
      else round_double (a / b))"
| "d_div (Fin a) b = Fin 0"
| "d_div a (Fin b) = (if 0 \<le> b then a else d_neg a)"
| "d_div a b = NaN"

text \<open>The conversion of an integer to \<open>double\<close>: exact up to \<open>2\<^sup>5\<^sup>3\<close>, rounded above.\<close>

definition d_of_int :: "int \<Rightarrow> double" where
  "d_of_int n = round_double (of_int n)"

text \<open>The larger of two numbers; not an operation of the program, but the corner of
  the overlap of two boxes.\<close>

definition d_max :: "double \<Rightarrow> double \<Rightarrow> double" where
  "d_max a b = (if d_le a b then b else a)"

section \<open>Evaluation on literals\<close>

lemmas round_double_eval [dbl_eval] =
  round_double_def quantum_def ilog2_def round_half_even_def compute_bitlen Let_def
  d_mid_def d_sub_def d_ge_def d_gt_def is_double_def d_of_int_def

lemma round_double_0 [simp]: "round_double 0 = Fin 0"
  by (simp add: round_double_def)

section \<open>Comparison lemmas\<close>

lemma d_le_NaN [simp]: "\<not> d_le a NaN"
  by (cases a) simp_all

lemma d_lt_NaN [simp]: "\<not> d_lt a NaN"
  by (cases a) simp_all

lemma d_le_not_NaN: "d_le a b \<Longrightarrow> a \<noteq> NaN \<and> b \<noteq> NaN"
  by (cases a; cases b) simp_all

lemma d_lt_not_NaN: "d_lt a b \<Longrightarrow> a \<noteq> NaN \<and> b \<noteq> NaN"
  by (cases a; cases b) simp_all

lemma d_le_refl_iff [simp]: "d_le a a \<longleftrightarrow> a \<noteq> NaN"
  by (cases a) simp_all

lemma d_lt_irrefl [simp]: "\<not> d_lt a a"
  by (cases a) simp_all

lemma d_le_trans: "d_le a b \<Longrightarrow> d_le b c \<Longrightarrow> d_le a c"
  by (cases a; cases b; cases c) simp_all

lemma d_le_antisym: "d_le a b \<Longrightarrow> d_le b a \<Longrightarrow> a = b"
  by (cases a; cases b) simp_all

lemma d_le_total: "a \<noteq> NaN \<Longrightarrow> b \<noteq> NaN \<Longrightarrow> d_le a b \<or> d_le b a"
  by (cases a; cases b) auto

lemma d_lt_iff_not_le: "a \<noteq> NaN \<Longrightarrow> b \<noteq> NaN \<Longrightarrow> d_lt a b \<longleftrightarrow> \<not> d_le b a"
  by (cases a; cases b) auto

lemma d_le_imp_not_lt: "d_le a b \<Longrightarrow> \<not> d_lt b a"
  by (cases a; cases b) auto

lemma d_lt_imp_le: "d_lt a b \<Longrightarrow> d_le a b"
  by (cases a; cases b) auto

lemma d_lt_le_trans: "d_lt a b \<Longrightarrow> d_le b c \<Longrightarrow> d_lt a c"
  by (cases a; cases b; cases c) simp_all

lemma d_le_lt_trans: "d_le a b \<Longrightarrow> d_lt b c \<Longrightarrow> d_lt a c"
  by (cases a; cases b; cases c) simp_all

lemma d_ge_iff [simp]: "d_ge a b \<longleftrightarrow> d_le b a"
  by (simp add: d_ge_def)

lemma d_gt_iff [simp]: "d_gt a b \<longleftrightarrow> d_lt b a"
  by (simp add: d_gt_def)

lemma d_le_NInf [simp]: "d_le NInf b \<longleftrightarrow> b \<noteq> NaN"
  by (cases b) simp_all

lemma d_le_PInf [simp]: "d_le a PInf \<longleftrightarrow> a \<noteq> NaN"
  by (cases a) simp_all

lemma d_max_bounds:
  assumes "d_le a a'" "d_le b b'" "\<not> d_lt a' b" "\<not> d_lt b' a"
  shows "d_le a (d_max a b)" "d_le b (d_max a b)" "d_le (d_max a b) a'" "d_le (d_max a b) b'"
proof -
  have nn: "a \<noteq> NaN" "a' \<noteq> NaN" "b \<noteq> NaN" "b' \<noteq> NaN"
    using assms(1,2) by (auto dest: d_le_not_NaN)
  then have le: "d_le b a'" "d_le a b'"
    using assms(3,4) by (simp_all add: d_lt_iff_not_le)
  show "d_le a (d_max a b)" "d_le b (d_max a b)"
    using nn d_le_total [of a b] by (auto simp: d_max_def)
  show "d_le (d_max a b) a'" "d_le (d_max a b) b'"
    using assms(1,2) le by (auto simp: d_max_def)
qed

section \<open>Arithmetic lemmas\<close>

lemma round_double_not_NaN [simp]: "round_double x \<noteq> NaN"
  by (simp add: round_double_def Let_def)

lemma round_double_cases:
  obtains (PInf) "round_double x = PInf" | (NInf) "round_double x = NInf"
  | (Fin) r where "round_double x = Fin r"
  by (cases "round_double x") simp_all

lemma d_half_not_NaN [simp]: "d_half a = NaN \<longleftrightarrow> a = NaN"
  by (cases a) simp_all

lemma d_add_commute: "d_add a b = d_add b a"
  by (cases a; cases b) (simp_all add: add.commute)

lemma d_add_NaN_iff:
  "d_add a b = NaN \<longleftrightarrow> a = NaN \<or> b = NaN \<or> (a = NInf \<and> b = PInf) \<or> (a = PInf \<and> b = NInf)"
  by (cases a; cases b) simp_all

lemma d_mid_NaN_iff:
  "d_mid a b = NaN \<longleftrightarrow> a = NaN \<or> b = NaN \<or> (a = NInf \<and> b = PInf) \<or> (a = PInf \<and> b = NInf)"
  by (simp add: d_mid_def d_add_NaN_iff)

lemma d_mid_commute: "d_mid a b = d_mid b a"
  by (simp add: d_mid_def d_add_commute)

text \<open>An infinite midpoint of \<open>a\<close> and \<open>b\<close> never lies opposite an infinite endpoint, so
  the midpoint of an endpoint and the midpoint is again a number: the quadrants of a
  region that can be split can be split again.\<close>

lemma d_mid_left_not_NaN: "d_mid a b \<noteq> NaN \<Longrightarrow> d_mid a (d_mid a b) \<noteq> NaN"
proof (cases a)
  case (Fin x)
  assume "d_mid a b \<noteq> NaN"
  with Fin show ?thesis
    by (auto simp: d_mid_NaN_iff)
next
  case NInf
  assume "d_mid a b \<noteq> NaN"
  with NInf show ?thesis
    by (cases b) (simp_all add: d_mid_def)
next
  case PInf
  assume "d_mid a b \<noteq> NaN"
  with PInf show ?thesis
    by (cases b) (simp_all add: d_mid_def)
qed (simp add: d_mid_def)

lemma d_mid_right_not_NaN: "d_mid a b \<noteq> NaN \<Longrightarrow> d_mid (d_mid a b) b \<noteq> NaN"
  using d_mid_left_not_NaN [of b a] by (simp add: d_mid_commute)

section \<open>The model against known binary64 results\<close>

text \<open>Ties go to the even significand (\<open>2\<^sup>5\<^sup>3 + 1\<close> and \<open>2\<^sup>5\<^sup>3 + 3\<close>), \<open>0.1\<close> is
  not a binary64 value, and \<open>0.1 + 0.2\<close> is the familiar \<open>0.30000000000000004\<close>.\<close>

lemma round_double_ties_to_even:
  "round_double (2 ^ 53 + 1) = Fin (2 ^ 53)"
  "round_double (2 ^ 53 + 3) = Fin (2 ^ 53 + 4)"
  by (simp_all add: dbl_eval)

lemma round_double_tenth:
  "round_double (1 / 10) = Fin (3602879701896397 / 36028797018963968)"
  "\<not> is_double (Fin (1 / 10))"
  by (simp_all add: dbl_eval)

text \<open>The sum of the binary64 values nearest to \<open>0.1\<close> and \<open>0.2\<close> is
  the binary64 value \<open>0.3000000000000000444\<dots>\<close>, as IEEE arithmetic computes it, and
  not the value nearest to \<open>0.3\<close>: sums are rounded to 53 bits, ties to even.\<close>

lemma d_add_tenth_fifth:
  "d_add (Fin (3602879701896397 / 36028797018963968)) (Fin (3602879701896397 / 18014398509481984))
     = Fin (1351079888211149 / 4503599627370496) \<and>
   round_double (3 / 10) = Fin (5404319552844595 / 18014398509481984)"
  by (simp add: dbl_eval)

lemma d_mid_literals:
  "d_mid (Fin 0) (Fin 100) = Fin 50"
  "d_mid (Fin 0) (Fin 50) = Fin 25"
  "d_mid (Fin 50) (Fin 100) = Fin 75"
  by (simp_all add: dbl_eval)

end
