(* ===== verification/Rounding.thy ===== *)
theory Rounding
  imports Float64
begin

text \<open>
  The theory of \<open>round_double\<close>, the rounding that every operation of \<open>Float64\<close> ends
  with. \<open>rnd\<close> is the rounding to 53 significant bits without the overflow test and
  \<open>classify\<close> is the overflow test, so that \<open>round_double x = classify (rnd x)\<close>. The
  lemmas show that rounding is monotone, that it leaves alone the values
  \<open>m \<times> 2\<^sup>e\<close> with \<open>\<bar>m\<bar> \<le> 2\<^sup>5\<^sup>3\<close> and \<open>e \<ge> -1074\<close> (so it is idempotent), and that no
  binary64 value is nearer to \<open>x\<close> than the rounding of \<open>x\<close>. From these follow the
  facts that the geometry and the driver need: the result of every operation is a
  binary64 value, the rounding of a number between two binary64 values lies between
  them, and the midpoint \<open>(a + b) / 2\<close> of \<open>subdivide\<close> lies between \<open>a\<close> and \<open>b\<close> unless
  the sum overflows.
\<close>

section \<open>Definitions\<close>

text \<open>The exponent of the binade of \<open>x\<close>, not below that of the subnormal numbers.\<close>

definition expo :: "rat \<Rightarrow> int" where
  "expo x = max (ilog2 \<bar>x\<bar>) (- 1022)"

text \<open>Rounding to 53 significant bits with an unbounded exponent above.\<close>

definition rnd :: "rat \<Rightarrow> rat" where
  "rnd x = of_int (round_half_even (x / quantum x)) * quantum x"

text \<open>The binary64 value of a rounded result: overflow goes to an infinity.\<close>

definition classify :: "rat \<Rightarrow> double" where
  "classify r = (if 2 ^ 1024 \<le> r then PInf else if r \<le> - (2 ^ 1024) then NInf else Fin r)"

section \<open>Rounding to an integer\<close>

lemma round_half_even_cases:
  "round_half_even x = \<lfloor>x\<rfloor> \<or> round_half_even x = \<lfloor>x\<rfloor> + 1"
  by (simp add: round_half_even_def Let_def)

lemma round_half_even_of_int [simp]: "round_half_even (of_int n) = n"
  by (simp add: round_half_even_def)

lemma round_half_even_0 [simp]: "round_half_even 0 = 0"
  using round_half_even_of_int [of 0] by simp

lemma round_half_even_lower: "\<lfloor>x\<rfloor> \<le> round_half_even x"
  using round_half_even_cases [of x] by auto

lemma round_half_even_upper: "round_half_even x \<le> \<lfloor>x\<rfloor> + 1"
  using round_half_even_cases [of x] by auto

lemma round_half_even_mono:
  assumes "x \<le> y"
  shows "round_half_even x \<le> round_half_even y"
proof (cases "\<lfloor>x\<rfloor> = \<lfloor>y\<rfloor>")
  case True
  with assms show ?thesis
    by (auto simp: round_half_even_def Let_def)
next
  case False
  with assms have "\<lfloor>x\<rfloor> + 1 \<le> \<lfloor>y\<rfloor>"
    using floor_mono [of x y] by linarith
  with round_half_even_upper [of x] round_half_even_lower [of y] show ?thesis
    by linarith
qed

lemma round_half_even_le_int: "x \<le> of_int n \<Longrightarrow> round_half_even x \<le> n"
  using round_half_even_mono [of x "of_int n"] by simp

lemma round_half_even_ge_int: "of_int n \<le> x \<Longrightarrow> n \<le> round_half_even x"
  using round_half_even_mono [of "of_int n" x] by simp

lemma round_half_even_minus: "round_half_even (- x) = - round_half_even x"
proof (cases "\<exists>n. x = of_int n")
  case True
  then obtain n where "x = of_int n" ..
  then show ?thesis
    by (simp only: of_int_minus [symmetric] round_half_even_of_int)
next
  case False
  then have "x \<noteq> of_int \<lfloor>x\<rfloor>"
    by metis
  then have lt: "of_int \<lfloor>x\<rfloor> < x"
    using of_int_floor_le [of x] by linarith
  have "x < of_int \<lfloor>x\<rfloor> + 1"
    by linarith
  with lt have fl: "\<lfloor>- x\<rfloor> = - \<lfloor>x\<rfloor> - 1"
    by (intro floor_unique; simp)
  show ?thesis
    unfolding round_half_even_def Let_def fl using lt by (auto simp: field_simps)
qed

lemma round_half_even_bounds:
  "x - 1 / 2 \<le> of_int (round_half_even x)" "of_int (round_half_even x) \<le> x + 1 / 2"
proof -
  have f: "of_int \<lfloor>x\<rfloor> \<le> x" "x < of_int \<lfloor>x\<rfloor> + 1"
    by linarith+
  show "x - 1 / 2 \<le> of_int (round_half_even x)"
    using f by (simp add: round_half_even_def Let_def; linarith)
  show "of_int (round_half_even x) \<le> x + 1 / 2"
    using f by (simp add: round_half_even_def Let_def; linarith)
qed

section \<open>Powers of two\<close>

lemma two_powi_less_iff: "(2 :: rat) powi m < 2 powi n \<longleftrightarrow> m < n"
proof
  assume "(2 :: rat) powi m < 2 powi n"
  show "m < n"
  proof (rule ccontr)
    assume "\<not> m < n"
    then have "(2 :: rat) powi n \<le> 2 powi m"
      by (intro power_int_increasing) simp_all
    with \<open>2 powi m < 2 powi n\<close> show False
      by simp
  qed
qed (simp add: power_int_strict_increasing)

lemma two_powi_le_iff: "(2 :: rat) powi m \<le> 2 powi n \<longleftrightarrow> m \<le> n"
  using two_powi_less_iff [of n m] by (auto simp: not_less [symmetric])

lemma two_powi_of_int: "0 \<le> n \<Longrightarrow> (2 :: rat) powi n = of_int (2 ^ nat n)"
  by (simp add: power_int_nonneg_exp)

section \<open>The binary exponent\<close>

lemma bitlen_powi:
  assumes "0 < n"
  shows "(2 :: rat) powi (bitlen n - 1) \<le> of_int n" "of_int (n + 1) \<le> (2 :: rat) powi (bitlen n)"
    "1 \<le> bitlen n"
proof -
  from bitlen_bounds [OF assms] have b: "2 ^ nat (bitlen n - 1) \<le> n" "n + 1 \<le> 2 ^ nat (bitlen n)"
    by simp_all
  from assms show b1: "1 \<le> bitlen n"
    by (simp add: bitlen_alt_def)
  from b(1) have "(of_int (2 ^ nat (bitlen n - 1)) :: rat) \<le> of_int n"
    by (simp only: of_int_le_iff)
  with b1 show "(2 :: rat) powi (bitlen n - 1) \<le> of_int n"
    by (simp add: two_powi_of_int)
  from b(2) have "(of_int (n + 1) :: rat) \<le> of_int (2 ^ nat (bitlen n))"
    by (simp only: of_int_le_iff)
  with b1 show "of_int (n + 1) \<le> (2 :: rat) powi (bitlen n)"
    by (simp add: two_powi_of_int)
qed

lemma ilog2_ge_1:
  assumes "1 \<le> x"
  shows "2 powi (ilog2 x) \<le> x" "x < 2 powi (ilog2 x + 1)" "0 \<le> ilog2 x"
proof -
  from assms have "0 < \<lfloor>x\<rfloor>"
    by simp
  note b = bitlen_powi [OF this]
  from b(3) assms show "0 \<le> ilog2 x"
    by (simp add: ilog2_def)
  from b(1) have "2 powi (bitlen \<lfloor>x\<rfloor> - 1) \<le> x"
    using of_int_floor_le [of x] by linarith
  with assms show "2 powi (ilog2 x) \<le> x"
    by (simp add: ilog2_def)
  have "x < of_int (\<lfloor>x\<rfloor> + 1)"
    by linarith
  with b(2) have "x < 2 powi (bitlen \<lfloor>x\<rfloor>)"
    by linarith
  with assms show "x < 2 powi (ilog2 x + 1)"
    by (simp add: ilog2_def)
qed

lemma ilog2_less_1:
  assumes "0 < x" and "x < 1"
  shows "2 powi (ilog2 x) \<le> x" "x < 2 powi (ilog2 x + 1)" "ilog2 x < 0"
proof -
  let ?m = "\<lceil>1 / x\<rceil> - 1"
  from assms have "1 < 1 / x"
    by simp
  then have "0 < ?m"
    by linarith
  note b = bitlen_powi [OF this]
  have il: "ilog2 x = - bitlen ?m"
    using assms by (simp add: ilog2_def)
  with b(3) show "ilog2 x < 0"
    by simp
  have mx: "of_int ?m < 1 / x" "1 / x \<le> of_int (?m + 1)"
    by linarith+
  from mx(2) b(2) have "1 / x \<le> 2 powi (bitlen ?m)"
    by linarith
  then have "1 / (2 powi (bitlen ?m)) \<le> x"
    using assms(1) by (simp add: field_simps)
  then show "2 powi (ilog2 x) \<le> x"
    by (simp add: il power_int_minus_divide)
  from mx(1) b(1) have "2 powi (bitlen ?m - 1) < 1 / x"
    by linarith
  then have "x < 1 / (2 powi (bitlen ?m - 1))"
    using assms(1) by (simp add: field_simps)
  also have "1 / (2 powi (bitlen ?m - 1)) = (2 :: rat) powi (- bitlen ?m + 1)"
    by (simp add: power_int_minus_divide [symmetric])
  finally show "x < 2 powi (ilog2 x + 1)"
    by (simp add: il)
qed

lemma ilog2_bounds:
  assumes "0 < x"
  shows "2 powi (ilog2 x) \<le> x" "x < 2 powi (ilog2 x + 1)"
  using assms ilog2_ge_1 [of x] ilog2_less_1 [of x] by (cases "1 \<le> x"; simp)+

lemma ilog2_unique:
  assumes "(2 :: rat) powi e \<le> x" and "x < 2 powi (e + 1)"
  shows "ilog2 x = e"
proof -
  from assms(1) have pos: "0 < x"
    by (rule less_le_trans [rotated]) simp
  note b = ilog2_bounds [OF pos]
  have "(2 :: rat) powi e < 2 powi (ilog2 x + 1)"
    using assms(1) b(2) by linarith
  then have "e < ilog2 x + 1"
    by (simp add: two_powi_less_iff)
  moreover have "(2 :: rat) powi (ilog2 x) < 2 powi (e + 1)"
    using assms(2) b(1) by linarith
  then have "ilog2 x < e + 1"
    by (simp add: two_powi_less_iff)
  ultimately show ?thesis
    by linarith
qed

lemma ilog2_mono:
  assumes "0 < x" and "x \<le> y"
  shows "ilog2 x \<le> ilog2 y"
proof -
  from assms have "0 < y"
    by linarith
  from ilog2_bounds(1) [OF assms(1)] ilog2_bounds(2) [OF this] assms(2)
  have "(2 :: rat) powi (ilog2 x) < 2 powi (ilog2 y + 1)"
    by linarith
  then have "ilog2 x < ilog2 y + 1"
    by (simp add: two_powi_less_iff)
  then show ?thesis
    by linarith
qed

section \<open>Rounding to 53 bits\<close>

lemma quantum_expo: "quantum x = 2 powi (expo x - 52)"
  by (simp add: quantum_def expo_def)

lemma quantum_pos [simp]: "0 < quantum x"
  by (simp add: quantum_def)

lemma quantum_nonneg [simp]: "0 \<le> quantum x"
  by (simp add: quantum_def)

lemma quantum_minus [simp]: "quantum (- x) = quantum x"
  by (simp add: quantum_def)

lemma expo_minus [simp]: "expo (- x) = expo x"
  by (simp add: expo_def)

lemma expo_ge [simp]: "- 1022 \<le> expo x"
  by (simp add: expo_def)

lemma expo_mono: "0 < x \<Longrightarrow> x \<le> y \<Longrightarrow> expo x \<le> expo y"
  using ilog2_mono [of x y] by (auto simp: expo_def)

lemma round_double_classify: "round_double x = classify (rnd x)"
  by (simp add: round_double_def rnd_def classify_def Let_def)

lemma rnd_0 [simp]: "rnd 0 = 0"
  by (simp add: rnd_def)

lemma rnd_minus: "rnd (- x) = - rnd x"
  by (simp add: rnd_def round_half_even_minus)

lemma rnd_nonneg:
  assumes "0 \<le> x"
  shows "0 \<le> rnd x"
proof -
  from assms have "of_int 0 \<le> x / quantum x"
    by simp
  then have "0 \<le> round_half_even (x / quantum x)"
    by (rule round_half_even_ge_int)
  then show ?thesis
    by (simp add: rnd_def)
qed

lemma rnd_le_multiple:
  assumes "x \<le> of_int n * quantum x"
  shows "rnd x \<le> of_int n * quantum x"
proof -
  from assms have "x / quantum x \<le> of_int n"
    by (simp add: field_simps)
  then have "round_half_even (x / quantum x) \<le> n"
    by (rule round_half_even_le_int)
  then show ?thesis
    by (simp add: rnd_def)
qed

lemma rnd_ge_multiple:
  assumes "of_int n * quantum x \<le> x"
  shows "of_int n * quantum x \<le> rnd x"
proof -
  from assms have "of_int n \<le> x / quantum x"
    by (simp add: field_simps)
  then have "n \<le> round_half_even (x / quantum x)"
    by (rule round_half_even_ge_int)
  then show ?thesis
    by (simp add: rnd_def)
qed

lemma rnd_multiple [simp]: "quantum (of_int n * q) = q \<Longrightarrow> rnd (of_int n * q) = of_int n * q"
  by (simp add: rnd_def)

section \<open>Rounding is monotone\<close>

lemma two_powi_multiple:
  assumes "e' \<le> e"
  shows "(2 :: rat) powi e = of_int (2 ^ nat (e - e')) * 2 powi e'"
proof -
  have "(2 :: rat) powi e = 2 powi ((e - e') + e')"
    by simp
  also have "\<dots> = 2 powi (e - e') * 2 powi e'"
    by (rule power_int_add) simp
  also have "(2 :: rat) powi (e - e') = of_int (2 ^ nat (e - e'))"
    using assms by (intro two_powi_of_int) simp
  finally show ?thesis .
qed

lemma two_powi_quantum:
  "expo x - 52 \<le> e \<Longrightarrow> (2 :: rat) powi e = of_int (2 ^ nat (e - (expo x - 52))) * quantum x"
  unfolding quantum_expo by (rule two_powi_multiple)

lemma expo_pos_cases:
  assumes "0 < x"
  shows "ilog2 x \<le> expo x" and "- 1022 < expo x \<Longrightarrow> expo x = ilog2 x"
  using assms by (auto simp: expo_def)

lemma less_two_powi_expo:
  assumes "0 < x"
  shows "x < 2 powi (expo x + 1)"
proof -
  from assms have "x < 2 powi (ilog2 x + 1)"
    by (rule ilog2_bounds)
  also have "\<dots> \<le> 2 powi (expo x + 1)"
    using expo_pos_cases(1) [OF assms] by (simp add: two_powi_le_iff)
  finally show ?thesis .
qed

lemma rnd_mono_pos:
  assumes "0 < x" and "x \<le> y"
  shows "rnd x \<le> rnd y"
proof (cases "expo x = expo y")
  case True
  then have q: "quantum y = quantum x"
    by (simp add: quantum_expo)
  from assms(2) have "x / quantum x \<le> y / quantum x"
    by (simp add: divide_right_mono)
  then have "round_half_even (x / quantum x) \<le> round_half_even (y / quantum x)"
    by (rule round_half_even_mono)
  then show ?thesis
    by (simp add: rnd_def q mult_right_mono)
next
  case False
  with expo_mono [OF assms] have lt: "expo x < expo y"
    by simp
  from assms have ypos: "0 < y"
    by linarith
  let ?b = "(2 :: rat) powi (expo y)"
  have "x < 2 powi (expo x + 1)"
    using assms(1) by (rule less_two_powi_expo)
  also have "\<dots> \<le> ?b"
    using lt by (simp add: two_powi_le_iff)
  finally have xb: "x \<le> ?b"
    by simp
  have "expo y = ilog2 y"
    using lt expo_ge [of x] by (intro expo_pos_cases(2) [OF ypos]) linarith
  with ilog2_bounds(1) [OF ypos] have yb: "?b \<le> y"
    by simp
  have b_x: "?b = of_int (2 ^ nat (expo y - (expo x - 52))) * quantum x"
    using lt by (intro two_powi_quantum) simp
  have b_y: "?b = of_int (2 ^ nat (expo y - (expo y - 52))) * quantum y"
    by (intro two_powi_quantum) simp
  from yb have "?b \<le> rnd y"
    unfolding b_y by (intro rnd_ge_multiple)
  moreover from xb have "rnd x \<le> ?b"
    unfolding b_x by (intro rnd_le_multiple)
  ultimately show ?thesis
    by linarith
qed

lemma rnd_mono:
  assumes "x \<le> y"
  shows "rnd x \<le> rnd y"
proof -
  consider (pos) "0 < x" | (mixed) "x \<le> 0" "0 \<le> y" | (neg) "y < 0"
    using assms by linarith
  then show ?thesis
  proof cases
    case pos
    then show ?thesis
      using assms by (rule rnd_mono_pos)
  next
    case mixed
    from rnd_nonneg [of "- x"] rnd_nonneg [of y] mixed show ?thesis
      by (simp add: rnd_minus)
  next
    case neg
    with assms rnd_mono_pos [of "- y" "- x"] show ?thesis
      by (simp add: rnd_minus)
  qed
qed

lemma classify_mono: "r \<le> r' \<Longrightarrow> d_le (classify r) (classify r')"
  by (auto simp: classify_def)

section \<open>Values that rounding leaves alone\<close>

lemma rnd_eqI: "x = of_int n * quantum x \<Longrightarrow> rnd x = x"
  using rnd_multiple [of n "quantum x"] by simp

lemma abs_less_two_powi_expo: "\<bar>x\<bar> < 2 powi (expo x + 1)"
proof (cases "x = 0")
  case False
  then show ?thesis
    using less_two_powi_expo [of "\<bar>x\<bar>"] by (simp add: expo_def)
qed simp

lemma two_powi_expo_le:
  assumes "x \<noteq> 0" and "- 1022 < expo x"
  shows "2 powi (expo x) \<le> \<bar>x\<bar>"
proof -
  from assms(1) have pos: "0 < \<bar>x\<bar>"
    by simp
  from assms(2) have "expo x = ilog2 \<bar>x\<bar>"
    by (simp add: expo_def max_def split: if_splits)
  with ilog2_bounds(1) [OF pos] show ?thesis
    by simp
qed

text \<open>A multiple \<open>m \<sqdot> 2\<^sup>e\<close> with at most 53 bits in \<open>m\<close> and \<open>e\<close> not below the exponent of
  the smallest subnormal number is left alone.\<close>

lemma abs_grid_le:
  assumes "\<bar>m\<bar> \<le> 2 ^ 53"
  shows "\<bar>of_int m * (2 :: rat) powi e\<bar> \<le> 2 powi (e + 53)"
proof -
  have "of_int \<bar>m\<bar> \<le> (of_int (2 ^ 53) :: rat)"
    using assms by (simp only: of_int_le_iff)
  then have "of_int \<bar>m\<bar> * (2 :: rat) powi e \<le> 2 ^ 53 * 2 powi e"
    by (intro mult_right_mono) simp_all
  also have "\<dots> = 2 powi (e + 53)"
    by (simp add: power_int_add)
  finally show ?thesis
    by (simp add: abs_mult)
qed

lemma rnd_grid:
  assumes m: "\<bar>m\<bar> \<le> 2 ^ 53" and e: "- 1074 \<le> e"
  shows "rnd (of_int m * 2 powi e) = of_int m * 2 powi e"
proof (cases "m = 0")
  case False
  let ?r = "of_int m * (2 :: rat) powi e"
  let ?e' = "expo ?r - 52"
  from False have nz: "?r \<noteq> 0"
    by simp
  note le = abs_grid_le [OF m, of e]
  show ?thesis
  proof (cases "?e' \<le> e")
    case True
    from two_powi_multiple [OF True] have "?r = of_int (m * 2 ^ nat (e - ?e')) * quantum ?r"
      by (simp add: quantum_expo)
    then show ?thesis
      by (rule rnd_eqI)
  next
    case False
    with e have big: "- 1022 < expo ?r" "e + 52 < expo ?r"
      by linarith+
    note lower = two_powi_expo_le [OF nz big(1)]
    from lower le have "(2 :: rat) powi (expo ?r) \<le> 2 powi (e + 53)"
      by linarith
    with big(2) have ex: "expo ?r = e + 53"
      by (simp add: two_powi_le_iff)
    have q: "quantum ?r = 2 powi (e + 1)"
      unfolding quantum_expo ex by (rule arg_cong [of _ _ "\<lambda>n. 2 powi n"]) simp
    from lower le have "\<bar>?r\<bar> = 2 powi (e + 53)"
      by (simp add: ex)
    also have "\<dots> = of_int (2 ^ nat ((e + 53) - (e + 1))) * 2 powi (e + 1)"
      by (intro two_powi_multiple) simp
    finally have "\<bar>?r\<bar> = of_int (2 ^ 52) * quantum ?r"
      by (simp only: q) simp
    then have "?r = of_int (2 ^ 52) * quantum ?r \<or> ?r = of_int (- (2 ^ 52)) * quantum ?r"
      by (cases "0 \<le> ?r") (simp_all add: abs_if)
    then show ?thesis
      using rnd_eqI [of ?r "2 ^ 52"] rnd_eqI [of ?r "- (2 ^ 52)"] by blast
  qed
qed simp

text \<open>What rounding returns is such a multiple.\<close>

lemma rnd_significand: "\<bar>round_half_even (x / quantum x)\<bar> \<le> 2 ^ 53"
proof -
  have "\<bar>x\<bar> < 2 powi (expo x + 1)"
    by (rule abs_less_two_powi_expo)
  also have "\<dots> = of_int (2 ^ nat ((expo x + 1) - (expo x - 52))) * quantum x"
    unfolding quantum_expo by (intro two_powi_multiple) simp
  finally have "\<bar>x\<bar> < of_int (2 ^ 53) * quantum x"
    by simp
  then have "x \<le> of_int (2 ^ 53) * quantum x" "of_int (- (2 ^ 53)) * quantum x \<le> x"
    by (simp_all add: abs_less_iff)
  then have d: "x / quantum x \<le> of_int (2 ^ 53)" "of_int (- (2 ^ 53)) \<le> x / quantum x"
    by (simp_all add: field_simps)
  from d(1) have "round_half_even (x / quantum x) \<le> 2 ^ 53"
    by (rule round_half_even_le_int)
  moreover from d(2) have "- (2 ^ 53) \<le> round_half_even (x / quantum x)"
    by (rule round_half_even_ge_int)
  ultimately show ?thesis
    by linarith
qed

lemma rnd_idem [simp]: "rnd (rnd x) = rnd x"
proof -
  have "- 1074 \<le> expo x - 52"
    using expo_ge [of x] by linarith
  with rnd_significand [of x] show ?thesis
    unfolding rnd_def [of x] quantum_expo [of x] by (rule rnd_grid)
qed

section \<open>Binary64 values\<close>

lemma classify_Fin: "- (2 ^ 1024) < r \<Longrightarrow> r < 2 ^ 1024 \<Longrightarrow> classify r = Fin r"
  by (simp add: classify_def)

lemma classify_eq_Fin_iff: "classify r = Fin r' \<longleftrightarrow> r' = r \<and> - (2 ^ 1024) < r \<and> r < 2 ^ 1024"
  by (auto simp: classify_def)

lemma is_double_Fin_iff: "is_double (Fin r) \<longleftrightarrow> rnd r = r \<and> - (2 ^ 1024) < r \<and> r < 2 ^ 1024"
  by (auto simp: is_double_def round_double_classify classify_eq_Fin_iff)

lemma is_double_special [simp]: "is_double NaN" "is_double PInf" "is_double NInf" "is_double (Fin 0)"
  by (simp_all add: is_double_def)

lemma is_double_round [simp]: "is_double (round_double x)"
  by (auto simp: round_double_classify classify_def is_double_Fin_iff)

lemma is_double_grid:
  assumes "\<bar>m\<bar> \<le> 2 ^ 53" and "- 1074 \<le> e" and "\<bar>of_int m * (2 :: rat) powi e\<bar> < 2 ^ 1024"
  shows "is_double (Fin (of_int m * 2 powi e))"
  using assms by (simp add: is_double_Fin_iff rnd_grid abs_less_iff)

lemma is_double_int: "\<bar>n\<bar> \<le> 2 ^ 53 \<Longrightarrow> is_double (Fin (of_int n))"
proof -
  assume n: "\<bar>n\<bar> \<le> 2 ^ 53"
  then have "\<bar>of_int n :: rat\<bar> \<le> of_int (2 ^ 53)"
    by (simp only: of_int_abs [symmetric] of_int_le_iff)
  then have "\<bar>of_int n * (2 :: rat) powi 0\<bar> < 2 ^ 1024"
    by simp
  with n is_double_grid [of n 0] show ?thesis
    by simp
qed

lemma is_double_gridD:
  assumes "is_double (Fin r)"
  obtains m e where "r = of_int m * 2 powi e" and "\<bar>m\<bar> \<le> 2 ^ 53" and "- 1074 \<le> e"
proof
  from assms have "rnd r = r"
    by (simp add: is_double_Fin_iff)
  then show "r = of_int (round_half_even (r / quantum r)) * 2 powi (expo r - 52)"
    by (simp add: rnd_def quantum_expo)
  show "\<bar>round_half_even (r / quantum r)\<bar> \<le> 2 ^ 53"
    by (rule rnd_significand)
  show "- 1074 \<le> expo r - 52"
    using expo_ge [of r] by linarith
qed

text \<open>Doubling is exact (up to overflow, which \<open>rnd\<close> does not know).\<close>

lemma rnd_twice:
  assumes "is_double (Fin r)"
  shows "rnd (2 * r) = 2 * r"
proof -
  from assms obtain m e where r: "r = of_int m * 2 powi e" and m: "\<bar>m\<bar> \<le> 2 ^ 53" and e: "- 1074 \<le> e"
    by (rule is_double_gridD)
  have "2 * r = of_int m * 2 powi (e + 1)"
    by (simp add: r power_int_add)
  moreover have "rnd (of_int m * 2 powi (e + 1)) = of_int m * 2 powi (e + 1)"
    using m e by (intro rnd_grid) simp_all
  ultimately show ?thesis
    by simp
qed

lemma rnd_double: "is_double (Fin r) \<Longrightarrow> rnd r = r"
  by (simp add: is_double_Fin_iff)

lemma d_add_Fin: "d_add (Fin a) (Fin b) = classify (rnd (a + b))"
  by (simp add: round_double_classify)

lemma d_half_Fin: "d_half (Fin a) = classify (rnd (a / 2))"
  by (simp add: round_double_classify)

section \<open>The midpoint\<close>

lemma two_pow_1024: "(2 :: rat) ^ 1024 = 2 * 2 ^ 1023"
  by simp

text \<open>The midpoint \<open>(a + b) / 2\<close> of two binary64 values below \<open>2\<^sup>1\<^sup>0\<^sup>2\<^sup>3\<close> in magnitude is a
  binary64 value between them: the sum does not overflow, and rounding the sum and
  the half keeps the order.\<close>

lemma d_mid_between:
  assumes a: "is_double (Fin a)" and b: "is_double (Fin b)" and le: "a \<le> b"
    and lo: "- (2 ^ 1023) < a" and hi: "b < 2 ^ 1023"
  obtains m where "d_mid (Fin a) (Fin b) = Fin m" and "a \<le> m" and "m \<le> b" and "is_double (Fin m)"
proof -
  define s where "s = rnd (a + b)"
  define m where "m = rnd (s / 2)"
  have "rnd (2 * a) \<le> s" "s \<le> rnd (2 * b)"
    unfolding s_def using le by (intro rnd_mono; simp)+
  then have s: "2 * a \<le> s" "s \<le> 2 * b"
    by (simp_all add: rnd_twice a b)
  with lo hi have "classify s = Fin s"
    using two_pow_1024 by (intro classify_Fin) linarith+
  then have sum: "d_add (Fin a) (Fin b) = Fin s"
    by (simp add: round_double_classify s_def)
  have "rnd a \<le> m" "m \<le> rnd b"
    unfolding m_def using s by (intro rnd_mono; simp)+
  then have m: "a \<le> m" "m \<le> b"
    by (simp_all add: rnd_double a b)
  with lo hi have fin: "- (2 ^ 1024) < m" "m < 2 ^ 1024"
    using two_pow_1024 by linarith+
  then have "classify m = Fin m"
    by (rule classify_Fin)
  then have "d_mid (Fin a) (Fin b) = Fin m"
    unfolding d_mid_def sum by (simp add: round_double_classify m_def)
  moreover have "rnd m = m"
    unfolding m_def by (rule rnd_idem)
  with fin have "is_double (Fin m)"
    by (simp add: is_double_Fin_iff)
  ultimately show thesis
    using m that by blast
qed

section \<open>Rounding is to a nearest value\<close>

lemma round_half_even_nearest: "\<bar>of_int (round_half_even y) - y\<bar> \<le> \<bar>of_int n - y\<bar>"
proof -
  define f d where "f = \<lfloor>y\<rfloor>" and "d = y - of_int f"
  have d: "0 \<le> d" "d < 1"
    unfolding f_def d_def by linarith+
  have "round_half_even y = f \<and> d \<le> 1 / 2 \<or> round_half_even y = f + 1 \<and> 1 / 2 \<le> d"
    by (auto simp: round_half_even_def Let_def f_def d_def)
  then have r: "of_int (round_half_even y) = (of_int f :: rat) \<and> d \<le> 1 / 2 \<or>
      of_int (round_half_even y) = (of_int f :: rat) + 1 \<and> 1 / 2 \<le> d"
    by auto
  consider "n \<le> f" | "f + 1 \<le> n"
    by linarith
  then have "(of_int n :: rat) \<le> of_int f \<or> (of_int (f + 1) :: rat) \<le> of_int n"
    by cases (simp_all only: of_int_le_iff simp_thms)
  then have "(of_int n :: rat) \<le> of_int f \<or> (of_int f :: rat) + 1 \<le> of_int n"
    by simp
  with r d d_def show ?thesis
    by (elim disjE conjE; linarith)
qed

lemma abs_scale: "0 < q \<Longrightarrow> \<bar>a * q - x\<bar> = \<bar>a - x / q\<bar> * q" for q :: rat
proof -
  assume q: "0 < q"
  then have "a * q - x = (a - x / q) * q"
    by (simp add: field_simps)
  with q show ?thesis
    by (simp only: abs_mult)
qed

lemma rnd_nearest_multiple: "\<bar>rnd x - x\<bar> \<le> \<bar>of_int n * quantum x - x\<bar>"
  unfolding rnd_def abs_scale [OF quantum_pos]
  by (intro mult_right_mono round_half_even_nearest) simp

text \<open>Between two neighbours of the grid around a positive \<open>x\<close> there is no value that
  rounding leaves alone.\<close>

lemma rnd_fixed_multiple:
  assumes "rnd d = d" and "expo d = expo x"
  obtains m where "d = of_int m * quantum x"
proof
  from assms(2) have "quantum d = quantum x"
    by (simp add: quantum_expo)
  with assms(1) show "d = of_int (round_half_even (d / quantum d)) * quantum x"
    by (simp add: rnd_def)
qed

lemma floor_multiple_ge:
  fixes q :: rat
  assumes "0 < q" and "of_int k * q \<le> x"
  shows "of_int k * q \<le> of_int \<lfloor>x / q\<rfloor> * q"
proof -
  from assms have "of_int k \<le> x / q"
    by (simp add: pos_le_divide_eq)
  then have "k \<le> \<lfloor>x / q\<rfloor>"
    by (simp only: le_floor_iff)
  then have "(of_int k :: rat) \<le> of_int \<lfloor>x / q\<rfloor>"
    by (simp only: of_int_le_iff)
  with assms(1) show ?thesis
    by (intro mult_right_mono) simp_all
qed

lemma floor_multiple_less:
  fixes q :: rat
  assumes "0 < q" and "x < of_int k * q"
  shows "of_int (\<lfloor>x / q\<rfloor> + 1) * q \<le> of_int k * q"
proof -
  from assms have "x / q < of_int k"
    by (simp add: pos_divide_less_eq)
  then have "\<lfloor>x / q\<rfloor> < k"
    by (simp only: floor_less_iff)
  then have "\<lfloor>x / q\<rfloor> + 1 \<le> k"
    by linarith
  then have "(of_int (\<lfloor>x / q\<rfloor> + 1) :: rat) \<le> of_int k"
    by (simp only: of_int_le_iff)
  with assms(1) show ?thesis
    by (intro mult_right_mono) simp_all
qed

lemma below_binade:
  assumes x: "0 < x" and lt: "expo d < expo x"
  shows "d \<le> of_int \<lfloor>x / quantum x\<rfloor> * quantum x"
proof -
  let ?B = "(2 :: rat) powi (expo x)"
  have B: "?B = of_int (2 ^ nat (expo x - (expo x - 52))) * quantum x"
    by (intro two_powi_quantum) simp
  have "d \<le> \<bar>d\<bar>"
    by simp
  also have "\<dots> < 2 powi (expo d + 1)"
    by (rule abs_less_two_powi_expo)
  also from lt have "\<dots> \<le> ?B"
    by (simp add: two_powi_le_iff)
  finally have "d < ?B" .
  moreover from lt expo_ge [of d] have "- 1022 < expo x"
    by linarith
  with two_powi_expo_le [of x] x have "?B \<le> x"
    by simp
  then have "?B \<le> of_int \<lfloor>x / quantum x\<rfloor> * quantum x"
    unfolding B by (intro floor_multiple_ge) simp_all
  ultimately show ?thesis
    by linarith
qed

lemma above_binade:
  assumes x: "0 < x" and d: "0 < d" and lt: "expo x < expo d"
  shows "of_int (\<lfloor>x / quantum x\<rfloor> + 1) * quantum x \<le> d"
proof -
  let ?B = "(2 :: rat) powi (expo d)"
  have B: "?B = of_int (2 ^ nat (expo d - (expo x - 52))) * quantum x"
    using lt by (intro two_powi_quantum) simp
  from lt expo_ge [of x] have "- 1022 < expo d"
    by linarith
  with two_powi_expo_le [of d] d have Bd: "?B \<le> d"
    by simp
  have "x < 2 powi (expo x + 1)"
    using x by (rule less_two_powi_expo)
  also from lt have "\<dots> \<le> ?B"
    by (simp add: two_powi_le_iff)
  finally have "x < ?B" .
  then have "of_int (\<lfloor>x / quantum x\<rfloor> + 1) * quantum x \<le> ?B"
    unfolding B by (intro floor_multiple_less) simp_all
  with Bd show ?thesis
    by linarith
qed

lemma no_fixed_point_between:
  assumes x: "0 < x" and d: "rnd d = d"
    and lo: "of_int \<lfloor>x / quantum x\<rfloor> * quantum x < d"
    and hi: "d < of_int (\<lfloor>x / quantum x\<rfloor> + 1) * quantum x"
  shows False
proof -
  let ?q = "quantum x" and ?n = "\<lfloor>x / quantum x\<rfloor>"
  from x have "0 \<le> of_int ?n * ?q"
    by simp
  with lo have dpos: "0 < d"
    by linarith
  consider (same) "expo d = expo x" | (below) "expo d < expo x" | (above) "expo x < expo d"
    by linarith
  then show False
  proof cases
    case same
    with d obtain m where "d = of_int m * ?q"
      by (rule rnd_fixed_multiple)
    with lo hi have "?n < m" "m < ?n + 1"
      by (simp_all only: mult_less_cancel_right_pos [OF quantum_pos] of_int_less_iff)
    then show False
      by linarith
  next
    case below
    from below_binade [OF x this] lo show False
      by linarith
  next
    case above
    from above_binade [OF x dpos this] hi show False
      by linarith
  qed
qed

lemma rnd_nearest_pos:
  assumes x: "0 < x" and d: "rnd d = d"
  shows "\<bar>rnd x - x\<bar> \<le> \<bar>d - x\<bar>"
proof -
  let ?q = "quantum x" and ?n = "\<lfloor>x / quantum x\<rfloor>"
  have "of_int ?n \<le> x / ?q" "x / ?q < of_int (?n + 1)"
    by linarith+
  then have n: "of_int ?n * ?q \<le> x" "x < of_int (?n + 1) * ?q"
    unfolding pos_le_divide_eq [OF quantum_pos] pos_divide_less_eq [OF quantum_pos] .
  from no_fixed_point_between [OF x d]
  consider "d \<le> of_int ?n * ?q" | "of_int (?n + 1) * ?q \<le> d"
    by fastforce
  then show ?thesis
  proof cases
    case 1
    with n rnd_nearest_multiple [of x ?n] show ?thesis
      by linarith
  next
    case 2
    with n rnd_nearest_multiple [of x "?n + 1"] show ?thesis
      by linarith
  qed
qed

lemma rnd_nearest:
  assumes "rnd d = d"
  shows "\<bar>rnd x - x\<bar> \<le> \<bar>d - x\<bar>"
proof -
  consider "0 < x" | "x = 0" | "0 < - x"
    by linarith
  then show ?thesis
  proof cases
    case 1
    then show ?thesis
      using assms by (rule rnd_nearest_pos)
  next
    case 2
    then show ?thesis
      by simp
  next
    case 3
    moreover from assms have "rnd (- d) = - d"
      by (simp add: rnd_minus)
    ultimately have "\<bar>rnd (- x) - - x\<bar> \<le> \<bar>- d - - x\<bar>"
      by (rule rnd_nearest_pos)
    then show ?thesis
      by (simp add: rnd_minus)
  qed
qed

section \<open>The operations and the type\<close>

lemma is_double_neg [simp]: "is_double (d_neg a) = is_double a"
  by (cases a) (auto simp: is_double_Fin_iff rnd_minus)

lemma is_double_add [simp]: "is_double (d_add a b)"
  by (cases a; cases b) simp_all

lemma is_double_half [simp]: "is_double (d_half a)"
  by (cases a) simp_all

lemma is_double_mul [simp]: "is_double (d_mul a b)"
  by (cases a; cases b) simp_all

lemma is_double_div [simp]: "is_double (d_div a b)"
  by (cases a; cases b) simp_all

lemma is_double_of_int [simp]: "is_double (d_of_int n)"
  by (simp add: d_of_int_def)

lemma d_of_int_exact: "\<bar>n\<bar> \<le> 2 ^ 53 \<Longrightarrow> d_of_int n = Fin (of_int n)"
  using is_double_int [of n] by (simp add: d_of_int_def is_double_def)

lemma round_double_exact: "is_double (Fin r) \<Longrightarrow> round_double r = Fin r"
  by (simp add: is_double_def)

lemma d_add_0 [simp]: "is_double a \<Longrightarrow> d_add (Fin 0) a = a"
  by (cases a) (simp_all add: round_double_exact)

lemma round_double_between:
  assumes lo: "is_double (Fin lo)" and hi: "is_double (Fin hi)" and x: "lo \<le> x" "x \<le> hi"
  obtains r where "round_double x = Fin r" and "lo \<le> r" and "r \<le> hi" and "is_double (Fin r)"
proof
  from x have "rnd lo \<le> rnd x" "rnd x \<le> rnd hi"
    by (simp_all add: rnd_mono)
  then show r: "lo \<le> rnd x" "rnd x \<le> hi"
    by (simp_all add: rnd_double lo hi)
  with lo hi have "classify (rnd x) = Fin (rnd x)"
    by (intro classify_Fin) (simp_all add: is_double_Fin_iff)
  then show "round_double x = Fin (rnd x)"
    by (simp add: round_double_classify)
  then show "is_double (Fin (rnd x))"
    using is_double_round [of x] by simp
qed

section \<open>The properties of rounding\<close>

text \<open>Rounding to binary64 is monotone: the order of two exact results is never
  reversed by rounding them, also when one of them overflows to an infinity.\<close>

lemma round_double_mono: "x \<le> y \<Longrightarrow> d_le (round_double x) (round_double y)"
  by (simp add: round_double_classify rnd_mono classify_mono)

text \<open>Rounding is to a nearest number of the format. The finite binary64 numbers are
  the \<open>m \<times> 2\<^sup>e\<close> with \<open>\<bar>m\<bar> \<le> 2\<^sup>5\<^sup>3\<close> and \<open>e \<ge> -1074\<close> below \<open>2\<^sup>1\<^sup>0\<^sup>2\<^sup>4\<close> in magnitude; a finite
  result of \<open>round_double\<close> is one of them, and none of them is nearer to the exact
  value.\<close>

lemma round_double_format:
  assumes "round_double x = Fin r"
  obtains m e where "r = of_int m * 2 powi e" and "\<bar>m\<bar> \<le> 2 ^ 53" and "- 1074 \<le> e"
    and "\<bar>r\<bar> < 2 ^ 1024"
proof -
  from is_double_round [of x] assms have d: "is_double (Fin r)"
    by simp
  then obtain m e where "r = of_int m * 2 powi e" "\<bar>m\<bar> \<le> 2 ^ 53" "- 1074 \<le> e"
    by (rule is_double_gridD)
  moreover from d have "\<bar>r\<bar> < 2 ^ 1024"
    by (simp add: is_double_Fin_iff abs_less_iff)
  ultimately show thesis
    by (rule that)
qed

lemma round_double_nearest:
  assumes "round_double x = Fin r" and "\<bar>m\<bar> \<le> 2 ^ 53" and "- 1074 \<le> e"
  shows "\<bar>r - x\<bar> \<le> \<bar>of_int m * 2 powi e - x\<bar>"
proof -
  from assms(1) have "r = rnd x"
    by (simp add: round_double_classify classify_eq_Fin_iff)
  with rnd_nearest [OF rnd_grid [OF assms(2,3)], of x] show ?thesis
    by simp
qed

text \<open>The arithmetic stays in the type: whatever the operands, the result of an
  operation is a NaN, an infinity, or a finite number that rounding leaves unchanged.\<close>

lemma arith_is_double:
  "is_double (d_add a b) \<and> is_double (d_sub a b) \<and> is_double (d_half a) \<and>
   is_double (d_mid a b) \<and> is_double (d_mul a b) \<and> is_double (d_div a b) \<and>
   is_double (d_of_int n) \<and> is_double (round_double x)"
  by (simp add: d_sub_def d_mid_def)

text \<open>C28 (bounds): the midpoint of \<open>subdivide\<close> lies between its arguments. For
  binary64 values \<open>a \<le> b\<close> of magnitude below \<open>2\<^sup>1\<^sup>0\<^sup>2\<^sup>3\<close> the computed \<open>(a + b) / 2\<close> is a
  finite binary64 value \<open>m\<close> with \<open>a \<le> m \<le> b\<close>, although the sum and the half are both
  rounded.\<close>

theorem d_mid_in_range:
  assumes "is_double (Fin a)" and "is_double (Fin b)" and "a \<le> b"
    and "- (2 ^ 1023) < a" and "b < 2 ^ 1023"
  shows "\<exists>m. d_mid (Fin a) (Fin b) = Fin m \<and> a \<le> m \<and> m \<le> b \<and> is_double (Fin m)"
  using d_mid_between [OF assms] by metis

theorem d_mid_in_range_witness:
  "is_double (Fin 0) \<and> is_double (Fin 100) \<and> (0 :: rat) \<le> 100 \<and> - (2 ^ 1023) < (0 :: rat) \<and>
   (100 :: rat) < 2 ^ 1023 \<and> d_mid (Fin 0) (Fin 100) = Fin 50"
  using d_mid_in_range [of 0 100] by (simp add: dbl_eval)

text \<open>C29 (error): the midpoint overflows for large coordinates. For binary64 values
  \<open>2\<^sup>1\<^sup>0\<^sup>2\<^sup>3 \<le> a \<le> b\<close> the sum \<open>a + b\<close> rounds to infinity, so the computed midpoint is
  \<open>+\<infinity>\<close> and lies outside the interval from \<open>a\<close> to \<open>b\<close>.\<close>

theorem d_mid_overflow:
  assumes "2 ^ 1023 \<le> a" and "a \<le> b"
  shows "d_mid (Fin a) (Fin b) = PInf"
proof -
  have "rnd (of_int 1 * 2 powi 1024) = of_int 1 * 2 powi 1024"
    by (intro rnd_grid) simp_all
  then have "rnd (2 ^ 1024) = 2 ^ 1024"
    by simp
  moreover from assms have "2 ^ 1024 \<le> a + b"
    using two_pow_1024 by linarith
  ultimately have "2 ^ 1024 \<le> rnd (a + b)"
    using rnd_mono [of "2 ^ 1024" "a + b"] by simp
  then show ?thesis
    by (simp add: d_mid_def round_double_classify classify_def)
qed

theorem d_mid_overflow_witness:
  "(2 :: rat) ^ 1023 \<le> 2 ^ 1023 \<and> d_mid (Fin (2 ^ 1023)) (Fin (2 ^ 1023)) = PInf"
  using d_mid_overflow [of "2 ^ 1023" "2 ^ 1023"] by simp

end
