(* ===== verification/Geometry.thy ===== *)
theory Geometry
  imports Rounding
begin

text \<open>
  The classes \<open>Point\<close> and \<open>BoundingBox\<close> of \<open>src/Code.cpp\<close> (lines 9 to 27): a point
  is a pair of doubles, a bounding box the closed rectangle between two corners.
  \<open>contains\<close> and \<open>intersects\<close> are the two member functions, written with the
  comparisons of \<open>Float64\<close> in the order of the source. \<open>nw_box\<close> to \<open>se_box\<close> are the
  four rectangles that \<open>QuadTree::subdivide\<close> builds from a boundary (lines 79 to 84).

  The lemmas give the geometry the tree relies on: a point in two boxes makes them
  intersect (so pruning loses nothing), \<open>intersects\<close> is symmetric and agrees with
  the existence of a common point on boxes whose corners are ordered, and the four
  quadrants of a box cover it whenever its midpoints are numbers.
\<close>

section \<open>Points and boxes\<close>

record Point =
  pt_x :: double
  pt_y :: double

definition Point0 :: Point where
  "Point0 = \<lparr>pt_x = Fin 0, pt_y = Fin 0\<rparr>"

record BoundingBox =
  box_x1 :: double
  box_y1 :: double
  box_x2 :: double
  box_y2 :: double

definition contains :: "BoundingBox \<Rightarrow> Point \<Rightarrow> bool" where
  "contains b p =
     (d_ge (pt_x p) (box_x1 b) \<and> d_le (pt_x p) (box_x2 b) \<and>
      d_ge (pt_y p) (box_y1 b) \<and> d_le (pt_y p) (box_y2 b))"

definition intersects :: "BoundingBox \<Rightarrow> BoundingBox \<Rightarrow> bool" where
  "intersects b other =
     (\<not> (d_gt (box_x1 other) (box_x2 b) \<or> d_lt (box_x2 other) (box_x1 b) \<or>
         d_gt (box_y1 other) (box_y2 b) \<or> d_lt (box_y2 other) (box_y1 b)))"

section \<open>The quadrants of a box\<close>

definition x_mid :: "BoundingBox \<Rightarrow> double" where
  "x_mid b = d_mid (box_x1 b) (box_x2 b)"

definition y_mid :: "BoundingBox \<Rightarrow> double" where
  "y_mid b = d_mid (box_y1 b) (box_y2 b)"

definition nw_box :: "BoundingBox \<Rightarrow> BoundingBox" where
  "nw_box b = \<lparr>box_x1 = box_x1 b, box_y1 = box_y1 b, box_x2 = x_mid b, box_y2 = y_mid b\<rparr>"

definition ne_box :: "BoundingBox \<Rightarrow> BoundingBox" where
  "ne_box b = \<lparr>box_x1 = x_mid b, box_y1 = box_y1 b, box_x2 = box_x2 b, box_y2 = y_mid b\<rparr>"

definition sw_box :: "BoundingBox \<Rightarrow> BoundingBox" where
  "sw_box b = \<lparr>box_x1 = box_x1 b, box_y1 = y_mid b, box_x2 = x_mid b, box_y2 = box_y2 b\<rparr>"

definition se_box :: "BoundingBox \<Rightarrow> BoundingBox" where
  "se_box b = \<lparr>box_x1 = x_mid b, box_y1 = y_mid b, box_x2 = box_x2 b, box_y2 = box_y2 b\<rparr>"

section \<open>Predicates on boxes\<close>

text \<open>The corners are ordered: the invariant that the source assumes of every region
  and never checks.\<close>

definition ordered_box :: "BoundingBox \<Rightarrow> bool" where
  "ordered_box b = (d_le (box_x1 b) (box_x2 b) \<and> d_le (box_y1 b) (box_y2 b))"

text \<open>Both midpoints are numbers. They are not when a side runs from one infinity to
  the other, or has a NaN corner.\<close>

definition splittable :: "BoundingBox \<Rightarrow> bool" where
  "splittable b = (x_mid b \<noteq> NaN \<and> y_mid b \<noteq> NaN)"

section \<open>The example of the specification\<close>

text \<open>The root region \<open>[0, 100] \<times> [0, 100]\<close>, the points that the example inserts, a
  point outside the region, a point of the third quadrant only, and the two smaller
  query ranges.\<close>

definition ex_box :: BoundingBox where
  "ex_box = \<lparr>box_x1 = Fin 0, box_y1 = Fin 0, box_x2 = Fin 100, box_y2 = Fin 100\<rparr>"

definition ex_p10 :: Point where
  "ex_p10 = \<lparr>pt_x = Fin 10, pt_y = Fin 10\<rparr>"

definition ex_p20 :: Point where
  "ex_p20 = \<lparr>pt_x = Fin 20, pt_y = Fin 20\<rparr>"

definition ex_p90 :: Point where
  "ex_p90 = \<lparr>pt_x = Fin 90, pt_y = Fin 90\<rparr>"

definition ex_far :: Point where
  "ex_far = \<lparr>pt_x = Fin 200, pt_y = Fin 200\<rparr>"

definition ex_p19 :: Point where
  "ex_p19 = \<lparr>pt_x = Fin 10, pt_y = Fin 90\<rparr>"

definition ex_q60 :: BoundingBox where
  "ex_q60 = \<lparr>box_x1 = Fin 60, box_y1 = Fin 60, box_x2 = Fin 100, box_y2 = Fin 100\<rparr>"

definition ex_q200 :: BoundingBox where
  "ex_q200 = \<lparr>box_x1 = Fin 200, box_y1 = Fin 200, box_x2 = Fin 300, box_y2 = Fin 300\<rparr>"

lemmas example_points = ex_p10_def ex_p20_def ex_p90_def ex_far_def ex_p19_def

lemmas geometry_defs [qt_eval] =
  contains_def intersects_def x_mid_def y_mid_def nw_box_def ne_box_def sw_box_def se_box_def
  ordered_box_def splittable_def Point0_def

section \<open>Containment and intersection\<close>

lemma contains_iff:
  "contains b p \<longleftrightarrow>
     d_le (box_x1 b) (pt_x p) \<and> d_le (pt_x p) (box_x2 b) \<and>
     d_le (box_y1 b) (pt_y p) \<and> d_le (pt_y p) (box_y2 b)"
  by (simp add: contains_def)

lemma intersects_iff:
  "intersects b r \<longleftrightarrow>
     \<not> d_lt (box_x2 b) (box_x1 r) \<and> \<not> d_lt (box_x2 r) (box_x1 b) \<and>
     \<not> d_lt (box_y2 b) (box_y1 r) \<and> \<not> d_lt (box_y2 r) (box_y1 b)"
  by (simp add: intersects_def)

lemma contains_not_NaN:
  assumes "contains b p"
  shows "pt_x p \<noteq> NaN" "pt_y p \<noteq> NaN"
    and "box_x1 b \<noteq> NaN" "box_x2 b \<noteq> NaN" "box_y1 b \<noteq> NaN" "box_y2 b \<noteq> NaN"
  using assms by (auto simp: contains_iff dest: d_le_not_NaN)

lemma contains_ordered_box: "contains b p \<Longrightarrow> ordered_box b"
  by (auto simp: contains_iff ordered_box_def intro: d_le_trans)

lemma intersects_commute: "intersects a b \<longleftrightarrow> intersects b a"
  by (auto simp: intersects_iff)

text \<open>Pruning is sound: a box that holds a point of the range intersects the range.\<close>

lemma contains_imp_intersects:
  assumes "contains b p" and "contains r p"
  shows "intersects b r"
proof -
  have "d_le (box_x1 r) (box_x2 b)" "d_le (box_x1 b) (box_x2 r)"
    and "d_le (box_y1 r) (box_y2 b)" "d_le (box_y1 b) (box_y2 r)"
    using assms by (auto simp: contains_iff intro: d_le_trans)
  then show ?thesis
    by (simp add: intersects_iff d_le_imp_not_lt)
qed

lemma not_intersects_imp_not_contains:
  "\<not> intersects b r \<Longrightarrow> contains b p \<Longrightarrow> \<not> contains r p"
  using contains_imp_intersects by blast

lemma contains_imp_intersects_self: "contains b p \<Longrightarrow> intersects b b"
  by (rule contains_imp_intersects)

text \<open>On boxes with ordered corners \<open>intersects\<close> decides whether the two closed
  rectangles share a point; the shared point is the larger of the lower corners.\<close>

lemma intersects_imp_common_point:
  assumes "ordered_box a" and "ordered_box b" and "intersects a b"
  shows "\<exists>p. contains a p \<and> contains b p"
proof -
  let ?p = "\<lparr>pt_x = d_max (box_x1 a) (box_x1 b), pt_y = d_max (box_y1 a) (box_y1 b)\<rparr>"
  have "contains a ?p \<and> contains b ?p"
    using assms
      d_max_bounds [of "box_x1 a" "box_x2 a" "box_x1 b" "box_x2 b"]
      d_max_bounds [of "box_y1 a" "box_y2 a" "box_y1 b" "box_y2 b"]
    by (simp add: contains_iff intersects_iff ordered_box_def)
  then show ?thesis ..
qed

text \<open>C33 (functional): on boxes whose corners are ordered, \<open>intersects\<close> holds exactly
  when the two closed rectangles have a point in common; rectangles that only touch
  intersect.\<close>

theorem intersects_iff_common_point:
  assumes "ordered_box a" and "ordered_box b"
  shows "intersects a b \<longleftrightarrow> (\<exists>p. contains a p \<and> contains b p)"
  using assms intersects_imp_common_point contains_imp_intersects by blast

theorem intersects_iff_common_point_witness:
  "ordered_box ex_box \<and> ordered_box ex_q60 \<and> intersects ex_box ex_q60 \<and>
   (\<exists>p. contains ex_box p \<and> contains ex_q60 p) \<and>
   ordered_box ex_q200 \<and> \<not> intersects ex_box ex_q200 \<and>
   \<not> (\<exists>p. contains ex_box p \<and> contains ex_q200 p)"
  using intersects_iff_common_point [of ex_box ex_q60] intersects_iff_common_point [of ex_box ex_q200]
  by (simp add: ordered_box_def intersects_def ex_box_def ex_q60_def ex_q200_def)

section \<open>Quadrants\<close>

lemma quadrant_sel [simp]:
  "box_x1 (nw_box b) = box_x1 b" "box_y1 (nw_box b) = box_y1 b"
  "box_x2 (nw_box b) = x_mid b" "box_y2 (nw_box b) = y_mid b"
  "box_x1 (ne_box b) = x_mid b" "box_y1 (ne_box b) = box_y1 b"
  "box_x2 (ne_box b) = box_x2 b" "box_y2 (ne_box b) = y_mid b"
  "box_x1 (sw_box b) = box_x1 b" "box_y1 (sw_box b) = y_mid b"
  "box_x2 (sw_box b) = x_mid b" "box_y2 (sw_box b) = box_y2 b"
  "box_x1 (se_box b) = x_mid b" "box_y1 (se_box b) = y_mid b"
  "box_x2 (se_box b) = box_x2 b" "box_y2 (se_box b) = box_y2 b"
  by (simp_all add: nw_box_def ne_box_def sw_box_def se_box_def)

text \<open>The quadrants cover the box: a point of the box lies in one of them, provided
  the midpoints are numbers.\<close>

lemma quadrants_cover:
  assumes "contains b p" and "splittable b"
  shows "contains (nw_box b) p \<or> contains (ne_box b) p \<or>
         contains (sw_box b) p \<or> contains (se_box b) p"
proof -
  have "pt_x p \<noteq> NaN" "pt_y p \<noteq> NaN"
    using assms(1) by (rule contains_not_NaN)+
  then have "d_le (pt_x p) (x_mid b) \<or> d_le (x_mid b) (pt_x p)"
    and "d_le (pt_y p) (y_mid b) \<or> d_le (y_mid b) (pt_y p)"
    using assms(2) d_le_total [of "pt_x p" "x_mid b"] d_le_total [of "pt_y p" "y_mid b"]
    by (simp_all add: splittable_def)
  with assms(1) show ?thesis
    by (auto simp: contains_iff)
qed

text \<open>A quadrant of a box that can be split can be split again.\<close>

lemma splittable_quadrants:
  assumes "splittable b"
  shows "splittable (nw_box b)" "splittable (ne_box b)"
        "splittable (sw_box b)" "splittable (se_box b)"
  using assms d_mid_left_not_NaN d_mid_right_not_NaN
  by (auto simp: splittable_def x_mid_def y_mid_def)

text \<open>Without that proviso the quadrants can miss every point: a box from one
  infinity to the other has a NaN midpoint, and no comparison with a NaN holds.\<close>

lemma unsplittable_quadrants_empty:
  assumes "x_mid b = NaN \<or> y_mid b = NaN"
  shows "\<not> contains (nw_box b) p" "\<not> contains (ne_box b) p"
        "\<not> contains (sw_box b) p" "\<not> contains (se_box b) p"
  using assms by (auto simp: contains_iff)

section \<open>The example, evaluated\<close>

lemma ex_box_sel [simp]:
  "box_x1 ex_box = Fin 0" "box_y1 ex_box = Fin 0" "box_x2 ex_box = Fin 100" "box_y2 ex_box = Fin 100"
  by (simp_all add: ex_box_def)

lemma ex_mids [simp]: "x_mid ex_box = Fin 50" "y_mid ex_box = Fin 50"
  by (simp_all add: x_mid_def y_mid_def dbl_eval)

lemma ex_splittable: "splittable ex_box"
  by (simp add: splittable_def)

end
