(* ===== verification/QuadTree.thy ===== *)
theory QuadTree
  imports Geometry
begin

text \<open>
  The class \<open>QuadTree\<close> of \<open>src/Code.cpp\<close> (lines 30 to 86).

  A node is a value of the datatype \<open>QuadTree\<close>: its boundary, its capacity (an
  \<open>int\<close>), its buffer \<open>points\<close> and four child pointers, each null (\<open>None\<close>) or
  owning a subtree. The C++ code updates nodes in place; here every operation returns
  the node it leaves behind.

  \<^item> \<open>insert_qt\<close> is \<open>QuadTree::insert\<close>. Its result is an \<open>outcome\<close>: \<open>None\<close> when
    the recursion never returns, \<open>Some (Inl NullDeref)\<close> when it calls through a null
    child pointer, \<open>Some (Inr (b, t'))\<close> when it returns \<open>b\<close> and leaves the node
    \<open>t'\<close>. It is a \<open>partial_function\<close>: with a capacity of zero the recursion does
    not end.
  \<^item> \<open>queryRange\<close> is \<open>QuadTree::queryRange\<close>, with the vector it appends to as an
    argument; it is total, and its result is a fault or the extended vector.
  \<^item> \<open>subdivide\<close>, \<open>ensure_children\<close>, \<open>below_capacity\<close>, \<open>push_back\<close> and \<open>set_nw\<close>
    to \<open>set_se\<close> are the statements these two are made of.
  \<^item> \<open>first_fit\<close> is the result of lines 54 to 58 once the results of the four child
    calls are known.

  \<open>all_points\<close> lists the points of a subtree in the order a query visits them.
  \<open>every P\<close> says that \<open>P\<close> holds of every node of a tree; the invariants are
  instances of it: \<open>shaped\<close> (four children or none), \<open>uniform k\<close> (every capacity is
  \<open>k\<close>), \<open>inside\<close> (the points of a subtree lie in the boundary of its root),
  \<open>filled\<close> (a buffer is never over capacity, and is full once the node has
  children) and \<open>tiled\<close> (the children of a node have the four quadrants of its
  boundary). \<open>well_formed k\<close> is their conjunction with \<open>k \<noteq> 0\<close>.
\<close>

section \<open>Nodes\<close>

datatype QuadTree = QuadTree
  (boundary: BoundingBox) (capacity: cint) (points: "Point list")
  (nw: "QuadTree option") (ne: "QuadTree option") (sw: "QuadTree option") (se: "QuadTree option")

text \<open>The constructor (line 36): an empty buffer and four null children.\<close>

definition new_QuadTree :: "BoundingBox \<Rightarrow> cint \<Rightarrow> QuadTree" where
  "new_QuadTree b c = QuadTree b c [] None None None None"

text \<open>Assignments to the fields of a node.\<close>

definition push_back :: "QuadTree \<Rightarrow> Point \<Rightarrow> QuadTree" where
  "push_back t p = QuadTree (boundary t) (capacity t) (points t @ [p]) (nw t) (ne t) (sw t) (se t)"

definition set_nw :: "QuadTree \<Rightarrow> QuadTree \<Rightarrow> QuadTree" where
  "set_nw t c = QuadTree (boundary t) (capacity t) (points t) (Some c) (ne t) (sw t) (se t)"

definition set_ne :: "QuadTree \<Rightarrow> QuadTree \<Rightarrow> QuadTree" where
  "set_ne t c = QuadTree (boundary t) (capacity t) (points t) (nw t) (Some c) (sw t) (se t)"

definition set_sw :: "QuadTree \<Rightarrow> QuadTree \<Rightarrow> QuadTree" where
  "set_sw t c = QuadTree (boundary t) (capacity t) (points t) (nw t) (ne t) (Some c) (se t)"

definition set_se :: "QuadTree \<Rightarrow> QuadTree \<Rightarrow> QuadTree" where
  "set_se t c = QuadTree (boundary t) (capacity t) (points t) (nw t) (ne t) (sw t) (Some c)"

section \<open>Operations\<close>

text \<open>\<open>points.size() < capacity\<close> (line 47): the \<open>int\<close> is converted to \<open>size_t\<close>.\<close>

definition below_capacity :: "QuadTree \<Rightarrow> bool" where
  "below_capacity t = (length (points t) < size_t_of_int (capacity t))"

definition subdivide :: "QuadTree \<Rightarrow> QuadTree" where
  "subdivide t =
     QuadTree (boundary t) (capacity t) (points t)
       (Some (new_QuadTree (nw_box (boundary t)) (capacity t)))
       (Some (new_QuadTree (ne_box (boundary t)) (capacity t)))
       (Some (new_QuadTree (sw_box (boundary t)) (capacity t)))
       (Some (new_QuadTree (se_box (boundary t)) (capacity t)))"

text \<open>\<open>if (nw == nullptr) subdivide();\<close> (lines 51 to 53).\<close>

definition ensure_children :: "QuadTree \<Rightarrow> QuadTree" where
  "ensure_children t = (if nw t = None then subdivide t else t)"

partial_function (option) insert_qt :: "Point \<Rightarrow> QuadTree \<Rightarrow> (bool \<times> QuadTree) outcome" where
  "insert_qt p t =
    (if \<not> contains (boundary t) p then Some (Inr (False, t))
     else if below_capacity t then Some (Inr (True, push_back t p))
     else
       let t0 = ensure_children t in
       (case nw t0 of None \<Rightarrow> Some (Inl NullDeref) | Some c \<Rightarrow>
         Option.bind (insert_qt p c) (\<lambda>r. case r of Inl f \<Rightarrow> Some (Inl f) | Inr (ok, c') \<Rightarrow>
           let t1 = set_nw t0 c' in
           if ok then Some (Inr (True, t1)) else
       (case ne t1 of None \<Rightarrow> Some (Inl NullDeref) | Some c \<Rightarrow>
         Option.bind (insert_qt p c) (\<lambda>r. case r of Inl f \<Rightarrow> Some (Inl f) | Inr (ok, c') \<Rightarrow>
           let t2 = set_ne t1 c' in
           if ok then Some (Inr (True, t2)) else
       (case sw t2 of None \<Rightarrow> Some (Inl NullDeref) | Some c \<Rightarrow>
         Option.bind (insert_qt p c) (\<lambda>r. case r of Inl f \<Rightarrow> Some (Inl f) | Inr (ok, c') \<Rightarrow>
           let t3 = set_sw t2 c' in
           if ok then Some (Inr (True, t3)) else
       (case se t3 of None \<Rightarrow> Some (Inl NullDeref) | Some c \<Rightarrow>
         Option.bind (insert_qt p c) (\<lambda>r. case r of Inl f \<Rightarrow> Some (Inl f) | Inr (ok, c') \<Rightarrow>
           let t4 = set_se t3 c' in
           if ok then Some (Inr (True, t4)) else Some (Inr (False, t4)))))))))))"

fun queryRange :: "BoundingBox \<Rightarrow> QuadTree \<Rightarrow> Point list \<Rightarrow> Point list result" where
  "queryRange rg (QuadTree b c pts n e s w) results =
    (if \<not> intersects b rg then Inr results
     else
       let results = results @ filter (contains rg) pts in
       (case n of None \<Rightarrow> Inr results | Some tn \<Rightarrow>
       (case queryRange rg tn results of Inl f \<Rightarrow> Inl f | Inr results \<Rightarrow>
       (case e of None \<Rightarrow> Inl NullDeref | Some te \<Rightarrow>
       (case queryRange rg te results of Inl f \<Rightarrow> Inl f | Inr results \<Rightarrow>
       (case s of None \<Rightarrow> Inl NullDeref | Some ts \<Rightarrow>
       (case queryRange rg ts results of Inl f \<Rightarrow> Inl f | Inr results \<Rightarrow>
       (case w of None \<Rightarrow> Inl NullDeref | Some tw \<Rightarrow>
          queryRange rg tw results))))))))"

text \<open>Lines 54 to 58, given what the four calls return: the first child that
  accepts the point ends the search, and each child called is left as its call left
  it.\<close>

definition first_fit ::
  "QuadTree \<Rightarrow> bool \<times> QuadTree \<Rightarrow> bool \<times> QuadTree \<Rightarrow> bool \<times> QuadTree \<Rightarrow> bool \<times> QuadTree
     \<Rightarrow> bool \<times> QuadTree" where
  "first_fit t0 r1 r2 r3 r4 =
     (if fst r1 then (True, set_nw t0 (snd r1))
      else if fst r2 then (True, set_ne (set_nw t0 (snd r1)) (snd r2))
      else if fst r3 then (True, set_sw (set_ne (set_nw t0 (snd r1)) (snd r2)) (snd r3))
      else (fst r4, set_se (set_sw (set_ne (set_nw t0 (snd r1)) (snd r2)) (snd r3)) (snd r4)))"

section \<open>Abstraction\<close>

text \<open>The points of a subtree in the order a query visits them: the node's own
  buffer, then the four children.\<close>

fun all_points :: "QuadTree \<Rightarrow> Point list" where
  "all_points (QuadTree b c pts n e s w) =
     pts @ (case n of None \<Rightarrow> [] | Some t \<Rightarrow> all_points t)
         @ (case e of None \<Rightarrow> [] | Some t \<Rightarrow> all_points t)
         @ (case s of None \<Rightarrow> [] | Some t \<Rightarrow> all_points t)
         @ (case w of None \<Rightarrow> [] | Some t \<Rightarrow> all_points t)"

definition kid_points :: "QuadTree option \<Rightarrow> Point list" where
  "kid_points k = (case k of None \<Rightarrow> [] | Some t \<Rightarrow> all_points t)"

definition contents :: "QuadTree \<Rightarrow> Point multiset" where
  "contents t = mset (all_points t)"

definition kid_contents :: "QuadTree option \<Rightarrow> Point multiset" where
  "kid_contents k = (case k of None \<Rightarrow> {#} | Some t \<Rightarrow> contents t)"

fun height :: "QuadTree \<Rightarrow> nat" where
  "height (QuadTree b c pts n e s w) =
     Suc (max (max (case n of None \<Rightarrow> 0 | Some t \<Rightarrow> height t)
                   (case e of None \<Rightarrow> 0 | Some t \<Rightarrow> height t))
              (max (case s of None \<Rightarrow> 0 | Some t \<Rightarrow> height t)
                   (case w of None \<Rightarrow> 0 | Some t \<Rightarrow> height t)))"

section \<open>Invariants\<close>

fun every :: "(QuadTree \<Rightarrow> bool) \<Rightarrow> QuadTree \<Rightarrow> bool" where
  "every P (QuadTree b c pts n e s w) =
     (P (QuadTree b c pts n e s w) \<and>
      (case n of None \<Rightarrow> True | Some t \<Rightarrow> every P t) \<and>
      (case e of None \<Rightarrow> True | Some t \<Rightarrow> every P t) \<and>
      (case s of None \<Rightarrow> True | Some t \<Rightarrow> every P t) \<and>
      (case w of None \<Rightarrow> True | Some t \<Rightarrow> every P t))"

definition is_leaf :: "QuadTree \<Rightarrow> bool" where
  "is_leaf t = (nw t = None \<and> ne t = None \<and> sw t = None \<and> se t = None)"

definition is_internal :: "QuadTree \<Rightarrow> bool" where
  "is_internal t = (nw t \<noteq> None \<and> ne t \<noteq> None \<and> sw t \<noteq> None \<and> se t \<noteq> None)"

definition shaped_node :: "QuadTree \<Rightarrow> bool" where
  "shaped_node t = (is_leaf t \<or> is_internal t)"

definition inside_node :: "QuadTree \<Rightarrow> bool" where
  "inside_node t = (\<forall>p \<in> set (all_points t). contains (boundary t) p)"

definition filled_node :: "QuadTree \<Rightarrow> bool" where
  "filled_node t =
     (length (points t) \<le> size_t_of_int (capacity t) \<and>
      (nw t \<noteq> None \<longrightarrow> length (points t) = size_t_of_int (capacity t)))"

definition tiled_node :: "QuadTree \<Rightarrow> bool" where
  "tiled_node t =
     (map_option boundary (nw t) \<in> {None, Some (nw_box (boundary t))} \<and>
      map_option boundary (ne t) \<in> {None, Some (ne_box (boundary t))} \<and>
      map_option boundary (sw t) \<in> {None, Some (sw_box (boundary t))} \<and>
      map_option boundary (se t) \<in> {None, Some (se_box (boundary t))})"

definition shaped :: "QuadTree \<Rightarrow> bool" where
  "shaped = every shaped_node"

definition uniform :: "cint \<Rightarrow> QuadTree \<Rightarrow> bool" where
  "uniform k = every (\<lambda>t. capacity t = k)"

definition inside :: "QuadTree \<Rightarrow> bool" where
  "inside = every inside_node"

definition filled :: "QuadTree \<Rightarrow> bool" where
  "filled = every filled_node"

definition tiled :: "QuadTree \<Rightarrow> bool" where
  "tiled = every tiled_node"

definition well_formed :: "cint \<Rightarrow> QuadTree \<Rightarrow> bool" where
  "well_formed k t = (k \<noteq> 0 \<and> shaped t \<and> uniform k t \<and> inside t \<and> filled t \<and> tiled t)"

section \<open>The example of the specification\<close>

text \<open>The trees of the example: a root over \<open>ex_box\<close> with capacity 1, and what it is
  after inserting \<open>(10, 10)\<close>, \<open>(20, 20)\<close> and \<open>(90, 90)\<close> in this order.\<close>

definition ex_t0 :: QuadTree where
  "ex_t0 = new_QuadTree ex_box 1"

definition ex_t1 :: QuadTree where
  "ex_t1 = QuadTree ex_box 1 [ex_p10] None None None None"

definition ex_t2 :: QuadTree where
  "ex_t2 = QuadTree ex_box 1 [ex_p10]
     (Some (QuadTree (nw_box ex_box) 1 [ex_p20] None None None None))
     (Some (new_QuadTree (ne_box ex_box) 1))
     (Some (new_QuadTree (sw_box ex_box) 1))
     (Some (new_QuadTree (se_box ex_box) 1))"

definition ex_t3 :: QuadTree where
  "ex_t3 = QuadTree ex_box 1 [ex_p10]
     (Some (QuadTree (nw_box ex_box) 1 [ex_p20] None None None None))
     (Some (new_QuadTree (ne_box ex_box) 1))
     (Some (new_QuadTree (sw_box ex_box) 1))
     (Some (QuadTree (se_box ex_box) 1 [ex_p90] None None None None))"

text \<open>The tree of the example with \<open>(10, 90)\<close> added, and a full leaf over the whole
  plane, whose midpoint is not a number.\<close>

definition ex_t4 :: QuadTree where
  "ex_t4 = QuadTree ex_box 1 [ex_p10]
     (Some (QuadTree (nw_box ex_box) 1 [ex_p20] None None None None))
     (Some (new_QuadTree (ne_box ex_box) 1))
     (Some (QuadTree (sw_box ex_box) 1 [ex_p19] None None None None))
     (Some (QuadTree (se_box ex_box) 1 [ex_p90] None None None None))"

definition ex_plane :: QuadTree where
  "ex_plane = QuadTree \<lparr>box_x1 = NInf, box_y1 = NInf, box_x2 = PInf, box_y2 = PInf\<rparr> 1 [ex_p10]
     None None None None"

lemmas example_defs [qt_eval] =
  example_points ex_t0_def ex_t1_def ex_t2_def ex_t3_def ex_t4_def ex_plane_def

lemmas quadtree_defs [qt_eval] =
  new_QuadTree_def push_back_def set_nw_def set_ne_def set_sw_def set_se_def
  below_capacity_def subdivide_def ensure_children_def first_fit_def
  kid_points_def contents_def kid_contents_def is_leaf_def is_internal_def shaped_node_def inside_node_def
  filled_node_def tiled_node_def shaped_def uniform_def inside_def filled_def tiled_def
  well_formed_def



section \<open>Selectors of updated nodes\<close>

lemma node_sel [simp, qt_sel]:
  "boundary (push_back t p) = boundary t" "capacity (push_back t p) = capacity t"
  "points (push_back t p) = points t @ [p]"
  "nw (push_back t p) = nw t" "ne (push_back t p) = ne t"
  "sw (push_back t p) = sw t" "se (push_back t p) = se t"
  "boundary (set_nw t c) = boundary t" "capacity (set_nw t c) = capacity t"
  "points (set_nw t c) = points t"
  "nw (set_nw t c) = Some c" "ne (set_nw t c) = ne t" "sw (set_nw t c) = sw t" "se (set_nw t c) = se t"
  "boundary (set_ne t c) = boundary t" "capacity (set_ne t c) = capacity t"
  "points (set_ne t c) = points t"
  "nw (set_ne t c) = nw t" "ne (set_ne t c) = Some c" "sw (set_ne t c) = sw t" "se (set_ne t c) = se t"
  "boundary (set_sw t c) = boundary t" "capacity (set_sw t c) = capacity t"
  "points (set_sw t c) = points t"
  "nw (set_sw t c) = nw t" "ne (set_sw t c) = ne t" "sw (set_sw t c) = Some c" "se (set_sw t c) = se t"
  "boundary (set_se t c) = boundary t" "capacity (set_se t c) = capacity t"
  "points (set_se t c) = points t"
  "nw (set_se t c) = nw t" "ne (set_se t c) = ne t" "sw (set_se t c) = sw t" "se (set_se t c) = Some c"
  by (simp_all add: push_back_def set_nw_def set_ne_def set_sw_def set_se_def)

lemma new_sel [simp, qt_sel]:
  "boundary (new_QuadTree b c) = b" "capacity (new_QuadTree b c) = c" "points (new_QuadTree b c) = []"
  "nw (new_QuadTree b c) = None" "ne (new_QuadTree b c) = None"
  "sw (new_QuadTree b c) = None" "se (new_QuadTree b c) = None"
  by (simp_all add: new_QuadTree_def)

lemma subdivide_sel [simp, qt_sel]:
  "boundary (subdivide t) = boundary t" "capacity (subdivide t) = capacity t"
  "points (subdivide t) = points t"
  "nw (subdivide t) = Some (new_QuadTree (nw_box (boundary t)) (capacity t))"
  "ne (subdivide t) = Some (new_QuadTree (ne_box (boundary t)) (capacity t))"
  "sw (subdivide t) = Some (new_QuadTree (sw_box (boundary t)) (capacity t))"
  "se (subdivide t) = Some (new_QuadTree (se_box (boundary t)) (capacity t))"
  by (simp_all add: subdivide_def)

lemma ensure_children_sel [simp, qt_sel]:
  "boundary (ensure_children t) = boundary t" "capacity (ensure_children t) = capacity t"
  "points (ensure_children t) = points t"
  by (simp_all add: ensure_children_def)

lemma ensure_children_leaf: "nw t = None \<Longrightarrow> ensure_children t = subdivide t"
  by (simp add: ensure_children_def)

lemma ensure_children_internal: "nw t \<noteq> None \<Longrightarrow> ensure_children t = t"
  by (auto simp: ensure_children_def)

lemma nw_ensure_children [simp]: "nw (ensure_children t) \<noteq> None"
  by (simp add: ensure_children_def)

lemma below_capacity_sel [simp]:
  "below_capacity (new_QuadTree b c) \<longleftrightarrow> c \<noteq> 0"
  "below_capacity (set_nw t x) = below_capacity t" "below_capacity (set_ne t x) = below_capacity t"
  "below_capacity (set_sw t x) = below_capacity t" "below_capacity (set_se t x) = below_capacity t"
  "below_capacity (subdivide t) = below_capacity t"
  "below_capacity (ensure_children t) = below_capacity t"
  by (simp_all add: below_capacity_def)

lemma is_leaf_sel [simp]:
  "is_leaf (new_QuadTree b c)" "is_leaf (push_back t p) = is_leaf t"
  "\<not> is_leaf (set_nw t x)" "\<not> is_leaf (set_ne t x)" "\<not> is_leaf (set_sw t x)"
  "\<not> is_leaf (set_se t x)" "\<not> is_leaf (subdivide t)"
  by (simp_all add: is_leaf_def)

lemma is_internal_sel [simp]:
  "\<not> is_internal (new_QuadTree b c)" "is_internal (push_back t p) = is_internal t"
  "is_internal (subdivide t)"
  "is_internal (set_nw t x) \<longleftrightarrow> ne t \<noteq> None \<and> sw t \<noteq> None \<and> se t \<noteq> None"
  "is_internal (set_ne t x) \<longleftrightarrow> nw t \<noteq> None \<and> sw t \<noteq> None \<and> se t \<noteq> None"
  "is_internal (set_sw t x) \<longleftrightarrow> nw t \<noteq> None \<and> ne t \<noteq> None \<and> se t \<noteq> None"
  "is_internal (set_se t x) \<longleftrightarrow> nw t \<noteq> None \<and> ne t \<noteq> None \<and> sw t \<noteq> None"
  by (auto simp: is_internal_def)

lemma leaf_not_internal: "is_leaf t \<Longrightarrow> \<not> is_internal t"
  by (simp add: is_leaf_def is_internal_def)

section \<open>Points of a subtree\<close>

lemma kid_points_simps [simp]:
  "kid_points None = []" "kid_points (Some t) = all_points t"
  by (simp_all add: kid_points_def)

lemma kid_contents_simps [simp]:
  "kid_contents None = {#}" "kid_contents (Some t) = contents t"
  by (simp_all add: kid_contents_def)

lemma all_points_sel:
  "all_points t = points t @ kid_points (nw t) @ kid_points (ne t) @ kid_points (sw t) @ kid_points (se t)"
  by (cases t) (simp add: kid_points_def)

lemma contents_sel:
  "contents t = mset (points t) + kid_contents (nw t) + kid_contents (ne t) +
     kid_contents (sw t) + kid_contents (se t)"
  by (cases t) (simp add: contents_def kid_contents_def split: option.split)

lemma set_all_points [simp]: "set (all_points t) = set_mset (contents t)"
  by (simp add: contents_def)

lemma mset_kid_points [simp]: "mset (kid_points k) = kid_contents k"
  by (cases k) (simp_all add: contents_def)

lemma contents_updates [simp]:
  "contents (new_QuadTree b c) = {#}"
  "contents (push_back t p) = add_mset p (contents t)"
  "contents (set_nw t x) = mset (points t) + contents x + kid_contents (ne t) + kid_contents (sw t) + kid_contents (se t)"
  "contents (set_ne t x) = mset (points t) + kid_contents (nw t) + contents x + kid_contents (sw t) + kid_contents (se t)"
  "contents (set_sw t x) = mset (points t) + kid_contents (nw t) + kid_contents (ne t) + contents x + kid_contents (se t)"
  "contents (set_se t x) = mset (points t) + kid_contents (nw t) + kid_contents (ne t) + kid_contents (sw t) + contents x"
  by (simp_all add: contents_sel [of "new_QuadTree b c"] contents_sel [of "push_back t p"]
      contents_sel [of "set_nw t x"] contents_sel [of "set_ne t x"] contents_sel [of "set_sw t x"]
      contents_sel [of "set_se t x"] contents_sel [of t])

lemma contents_subdivide: "is_leaf t \<Longrightarrow> contents (subdivide t) = contents t"
  by (simp add: contents_sel [of "subdivide t"] contents_sel [of t] is_leaf_def)

lemma contents_ensure_children: "shaped_node t \<Longrightarrow> contents (ensure_children t) = contents t"
  by (auto simp: ensure_children_def shaped_node_def contents_subdivide is_internal_def)

lemma contents_kids:
  "nw t = Some c1 \<Longrightarrow> ne t = Some c2 \<Longrightarrow> sw t = Some c3 \<Longrightarrow> se t = Some c4 \<Longrightarrow>
   contents t = mset (points t) + contents c1 + contents c2 + contents c3 + contents c4"
  by (simp add: contents_sel [of t])

section \<open>Properties of every node\<close>

lemma every_sel:
  "every P t \<longleftrightarrow> P t \<and> pred_option (every P) (nw t) \<and> pred_option (every P) (ne t) \<and>
     pred_option (every P) (sw t) \<and> pred_option (every P) (se t)"
  by (cases t) (simp split: option.split)

lemma every_root: "every P t \<Longrightarrow> P t"
  by (simp add: every_sel [of P t])

lemma every_kid:
  assumes "every P t"
  shows "nw t = Some c \<Longrightarrow> every P c" "ne t = Some c \<Longrightarrow> every P c"
    "sw t = Some c \<Longrightarrow> every P c" "se t = Some c \<Longrightarrow> every P c"
  using assms by (simp_all add: every_sel [of P t])

lemma every_conj: "every (\<lambda>t. P t \<and> Q t) t \<longleftrightarrow> every P t \<and> every Q t"
  by (induction t) (auto split: option.splits)

lemma every_mono: "(\<And>t. P t \<Longrightarrow> Q t) \<Longrightarrow> every P t \<Longrightarrow> every Q t"
  by (induction t) (auto split: option.splits)

lemma every_new [simp]: "every P (new_QuadTree b c) \<longleftrightarrow> P (new_QuadTree b c)"
  by (simp add: every_sel [of P "new_QuadTree b c"])

lemma every_updates [simp]:
  "every P (push_back t p) \<longleftrightarrow> P (push_back t p) \<and> pred_option (every P) (nw t) \<and>
     pred_option (every P) (ne t) \<and> pred_option (every P) (sw t) \<and> pred_option (every P) (se t)"
  "every P (set_nw t x) \<longleftrightarrow> P (set_nw t x) \<and> every P x \<and>
     pred_option (every P) (ne t) \<and> pred_option (every P) (sw t) \<and> pred_option (every P) (se t)"
  "every P (set_ne t x) \<longleftrightarrow> P (set_ne t x) \<and> pred_option (every P) (nw t) \<and> every P x \<and>
     pred_option (every P) (sw t) \<and> pred_option (every P) (se t)"
  "every P (set_sw t x) \<longleftrightarrow> P (set_sw t x) \<and> pred_option (every P) (nw t) \<and>
     pred_option (every P) (ne t) \<and> every P x \<and> pred_option (every P) (se t)"
  "every P (set_se t x) \<longleftrightarrow> P (set_se t x) \<and> pred_option (every P) (nw t) \<and>
     pred_option (every P) (ne t) \<and> pred_option (every P) (sw t) \<and> every P x"
  by (simp_all add: every_sel [of P "push_back t p"]
      every_sel [of P "set_nw t x"] every_sel [of P "set_ne t x"] every_sel [of P "set_sw t x"]
      every_sel [of P "set_se t x"])

lemma every_subdivide [simp]:
  "every P (subdivide t) \<longleftrightarrow> P (subdivide t) \<and>
     P (new_QuadTree (nw_box (boundary t)) (capacity t)) \<and>
     P (new_QuadTree (ne_box (boundary t)) (capacity t)) \<and>
     P (new_QuadTree (sw_box (boundary t)) (capacity t)) \<and>
     P (new_QuadTree (se_box (boundary t)) (capacity t))"
  by (simp add: every_sel [of P "subdivide t"])

lemma every_kids:
  "nw t = Some c1 \<Longrightarrow> ne t = Some c2 \<Longrightarrow> sw t = Some c3 \<Longrightarrow> se t = Some c4 \<Longrightarrow>
   every P t \<longleftrightarrow> P t \<and> every P c1 \<and> every P c2 \<and> every P c3 \<and> every P c4"
  by (simp add: every_sel [of P t])

lemma every_leaf: "is_leaf t \<Longrightarrow> every P t \<longleftrightarrow> P t"
  by (simp add: every_sel [of P t] is_leaf_def)

section \<open>The invariants on fresh and well-formed nodes\<close>

lemma well_formed_new: "well_formed k (new_QuadTree b k) \<longleftrightarrow> k \<noteq> 0"
  by (simp add: well_formed_def shaped_def uniform_def inside_def filled_def tiled_def
      shaped_node_def inside_node_def filled_node_def tiled_node_def)

lemma well_formed_parts:
  assumes "well_formed k t"
  shows "k \<noteq> 0" "shaped t" "uniform k t" "inside t" "filled t" "tiled t" "capacity t = k"
  using assms by (auto simp: well_formed_def uniform_def dest: every_root)

lemma shaped_cases [consumes 1, case_names leaf internal]:
  assumes "shaped t"
  obtains (leaf) "is_leaf t"
  | (internal) c1 c2 c3 c4 where "nw t = Some c1" "ne t = Some c2" "sw t = Some c3" "se t = Some c4"
      "shaped c1" "shaped c2" "shaped c3" "shaped c4"
proof -
  from assms have "shaped_node t"
    by (auto simp: shaped_def dest: every_root)
  then show thesis
  proof (cases "is_leaf t")
    case True
    then show ?thesis by (rule leaf)
  next
    case False
    with \<open>shaped_node t\<close> obtain c1 c2 c3 c4 where
      "nw t = Some c1" "ne t = Some c2" "sw t = Some c3" "se t = Some c4"
      by (auto simp: shaped_node_def is_internal_def)
    with assms show ?thesis
      by (intro internal [of c1 c2 c3 c4]) (auto simp: shaped_def dest: every_kid)
  qed
qed

lemma uniform_kid:
  assumes "uniform k t"
  shows "nw t = Some c \<Longrightarrow> uniform k c" "ne t = Some c \<Longrightarrow> uniform k c"
    "sw t = Some c \<Longrightarrow> uniform k c" "se t = Some c \<Longrightarrow> uniform k c"
  using assms every_kid [of "\<lambda>t. capacity t = k" t c] by (simp_all add: uniform_def)

lemma inside_kid:
  assumes "inside t"
  shows "nw t = Some c \<Longrightarrow> inside c" "ne t = Some c \<Longrightarrow> inside c"
    "sw t = Some c \<Longrightarrow> inside c" "se t = Some c \<Longrightarrow> inside c"
  using assms every_kid [of inside_node t c] by (simp_all add: inside_def)

text \<open>Induction over a \<open>shaped\<close> tree: leaves, and nodes with four children.\<close>

lemma shaped_induct [consumes 1, case_names leaf internal]:
  assumes "shaped t"
    and leaf: "\<And>t. shaped t \<Longrightarrow> is_leaf t \<Longrightarrow> P t"
    and internal: "\<And>t c1 c2 c3 c4. shaped t \<Longrightarrow> nw t = Some c1 \<Longrightarrow> ne t = Some c2 \<Longrightarrow>
      sw t = Some c3 \<Longrightarrow> se t = Some c4 \<Longrightarrow> P c1 \<Longrightarrow> P c2 \<Longrightarrow> P c3 \<Longrightarrow> P c4 \<Longrightarrow> P t"
  shows "P t"
  using assms(1)
proof (induction t)
  case (QuadTree b c pts n e s w)
  from QuadTree.prems show ?case
  proof (cases rule: shaped_cases)
    case leaf
    with QuadTree.prems show ?thesis by (rule assms(2))
  next
    case (internal c1 c2 c3 c4)
    then have "P c1" "P c2" "P c3" "P c4"
      using QuadTree.IH by simp_all
    with QuadTree.prems internal(1-4) show ?thesis
      by (rule assms(3))
  qed
qed

text \<open>In a tree that is \<open>filled\<close>, a node with children has no room: the test of line 47
  alone tells leaves with room from all other nodes.\<close>

lemma filled_internal_full: "filled t \<Longrightarrow> nw t \<noteq> None \<Longrightarrow> \<not> below_capacity t"
  by (auto simp: filled_def filled_node_def below_capacity_def dest!: every_root)

lemma inside_contents: "inside t \<Longrightarrow> p \<in># contents t \<Longrightarrow> contains (boundary t) p"
  by (auto simp: inside_def inside_node_def dest!: every_root)

lemma height_pos [simp]: "0 < height t"
  by (cases t) simp

end
