(* ===== verification/QT_Insert.thy ===== *)
theory QT_Insert
  imports QuadTree
begin

text \<open>
  What \<open>QuadTree::insert\<close> does (\<open>insert_qt\<close> of theory \<open>QuadTree\<close>).

  \<^item> The three ways a call ends: it rejects the point, stores it, or hands it to the
    children (\<open>insert_qt_reject\<close>, \<open>insert_qt_store\<close>, \<open>insert_qt_descend\<close>).
  \<^item> \<open>post k p t r\<close>, what a call that returns \<open>r\<close> from the node \<open>t\<close> has done,
    and the induction rule \<open>insert_qt_induct\<close>: on a tree that is \<open>shaped\<close> and
    \<open>uniform k\<close> with \<open>k \<noteq> 0\<close> the call returns, and a property that holds of a
    rejection, of a store, and of \<open>first_fit\<close> on children of which it holds,
    holds of the result.
  \<^item> The theorems: the call returns without a fault, keeps every invariant, adds
    the point to the contents exactly when it returns \<open>true\<close>, returns \<open>true\<close>
    exactly for the points of the boundary when the boundary can be split, and
    does not return at all when the capacity is zero.
\<close>

section \<open>Postcondition\<close>

definition post :: "cint \<Rightarrow> Point \<Rightarrow> QuadTree \<Rightarrow> bool \<times> QuadTree \<Rightarrow> bool" where
  "post k p t r =
     (boundary (snd r) = boundary t \<and> capacity (snd r) = capacity t \<and>
      contents (snd r) = contents t + (if fst r then {#p#} else {#}) \<and>
      (fst r \<longrightarrow> contains (boundary t) p) \<and>
      (\<not> contains (boundary t) p \<longrightarrow> snd r = t) \<and>
      shaped (snd r) \<and> uniform k (snd r) \<and>
      (inside t \<longrightarrow> inside (snd r)) \<and>
      (filled t \<longrightarrow> filled (snd r)) \<and>
      (tiled t \<longrightarrow> tiled (snd r)) \<and>
      (tiled t \<and> splittable (boundary t) \<and> contains (boundary t) p \<longrightarrow> fst r))"

text \<open>A node that has no room and contains the point, with its children in place.\<close>

definition descends :: "cint \<Rightarrow> Point \<Rightarrow> QuadTree \<Rightarrow> QuadTree \<Rightarrow>
    QuadTree \<Rightarrow> QuadTree \<Rightarrow> QuadTree \<Rightarrow> QuadTree \<Rightarrow> bool" where
  "descends k p t t0 c1 c2 c3 c4 =
     (shaped t \<and> uniform k t \<and> contains (boundary t) p \<and> \<not> below_capacity t \<and>
      t0 = ensure_children t \<and>
      nw t0 = Some c1 \<and> ne t0 = Some c2 \<and> sw t0 = Some c3 \<and> se t0 = Some c4)"

text \<open>A leaf of capacity zero that contains the point and can be split.\<close>

definition doomed :: "Point \<Rightarrow> QuadTree \<Rightarrow> bool" where
  "doomed p t = (capacity t = 0 \<and> nw t = None \<and> contains (boundary t) p \<and> splittable (boundary t))"

text \<open>The height of an optional child, and how a call may change the height of a node:
  not at all when the node has room, by at most one level otherwise.\<close>

definition kid_height :: "QuadTree option \<Rightarrow> nat" where
  "kid_height k = (case k of None \<Rightarrow> 0 | Some t \<Rightarrow> height t)"

definition grown :: "QuadTree \<Rightarrow> bool \<times> QuadTree \<Rightarrow> bool" where
  "grown t r = (height t \<le> height (snd r) \<and> height (snd r) \<le> Suc (height t) \<and>
     (below_capacity t \<longrightarrow> height (snd r) = height t))"

lemma postD:
  assumes "post k p t r"
  shows "boundary (snd r) = boundary t" and "capacity (snd r) = capacity t"
    and "contents (snd r) = contents t + (if fst r then {#p#} else {#})"
    and "fst r \<Longrightarrow> contains (boundary t) p"
    and "\<not> contains (boundary t) p \<Longrightarrow> snd r = t"
    and "shaped (snd r)" and "uniform k (snd r)"
    and "inside t \<Longrightarrow> inside (snd r)" and "filled t \<Longrightarrow> filled (snd r)"
    and "tiled t \<Longrightarrow> tiled (snd r)"
    and "tiled t \<Longrightarrow> splittable (boundary t) \<Longrightarrow> contains (boundary t) p \<Longrightarrow> fst r"
  using assms by (simp_all add: post_def)

section \<open>The three ways a call ends\<close>

lemma insert_qt_reject: "\<not> contains (boundary t) p \<Longrightarrow> insert_qt p t = Some (Inr (False, t))"
  by (subst insert_qt.simps) simp

lemma insert_qt_store:
  "contains (boundary t) p \<Longrightarrow> below_capacity t \<Longrightarrow> insert_qt p t = Some (Inr (True, push_back t p))"
  by (subst insert_qt.simps) simp

lemma insert_qt_descend:
  assumes "contains (boundary t) p" and "\<not> below_capacity t"
    and "nw (ensure_children t) = Some c1" and "ne (ensure_children t) = Some c2"
    and "sw (ensure_children t) = Some c3" and "se (ensure_children t) = Some c4"
    and "insert_qt p c1 = Some (Inr r1)"
    and "\<not> fst r1 \<Longrightarrow> insert_qt p c2 = Some (Inr r2)"
    and "\<not> fst r1 \<Longrightarrow> \<not> fst r2 \<Longrightarrow> insert_qt p c3 = Some (Inr r3)"
    and "\<not> fst r1 \<Longrightarrow> \<not> fst r2 \<Longrightarrow> \<not> fst r3 \<Longrightarrow> insert_qt p c4 = Some (Inr r4)"
  shows "insert_qt p t = Some (Inr (first_fit (ensure_children t) r1 r2 r3 r4))"
  using assms
  by (subst insert_qt.simps) (auto simp: first_fit_def Let_def split: prod.splits)

lemma insert_qt_new:
  "c \<noteq> 0 \<Longrightarrow> insert_qt p (new_QuadTree b c) =
     Some (Inr (if contains b p then (True, push_back (new_QuadTree b c) p) else (False, new_QuadTree b c)))"
  by (subst insert_qt.simps) simp

text \<open>A null child pointer below a node that has a first child is dereferenced.\<close>

lemma insert_qt_null_child:
  assumes "contains (boundary t) p" and "\<not> below_capacity t"
    and "nw t = Some c1" and "ne t = None" and "insert_qt p c1 = Some (Inr (False, c1'))"
  shows "insert_qt p t = Some (Inl NullDeref)"
  using assms by (subst insert_qt.simps) (simp add: ensure_children_def Let_def)

section \<open>Children of a node that descends\<close>

lemma descends_kids:
  assumes "descends k p t t0 c1 c2 c3 c4"
  shows "shaped c1" "shaped c2" "shaped c3" "shaped c4"
    and "uniform k c1" "uniform k c2" "uniform k c3" "uniform k c4"
    and "capacity t0 = k" and "boundary t0 = boundary t" and "points t0 = points t"
    and "contents t0 = contents t" and "shaped t0" and "uniform k t0" and "capacity t = k"
proof -
  from assms have t: "shaped t" "uniform k t" and t0: "t0 = ensure_children t"
    and kids: "nw t0 = Some c1" "ne t0 = Some c2" "sw t0 = Some c3" "se t0 = Some c4"
    by (auto simp: descends_def)
  from t have k: "capacity t = k" and node: "shaped_node t"
    by (auto simp: uniform_def shaped_def dest: every_root)
  have "shaped t0 \<and> uniform k t0"
    using t k by (auto simp: t0 ensure_children_def shaped_def uniform_def shaped_node_def)
  then show "shaped t0" "uniform k t0"
    by simp_all
  with kids show "shaped c1" "shaped c2" "shaped c3" "shaped c4"
    and "uniform k c1" "uniform k c2" "uniform k c3" "uniform k c4"
    by (auto simp: shaped_def uniform_def dest: every_kid)
  show "capacity t0 = k" "boundary t0 = boundary t" "points t0 = points t" "capacity t = k"
    using k by (simp_all add: t0)
  show "contents t0 = contents t"
    using node by (simp add: t0 contents_ensure_children)
qed

lemma descends_inside:
  assumes "descends k p t t0 c1 c2 c3 c4" and "inside t"
  shows "inside c1" "inside c2" "inside c3" "inside c4"
proof -
  from assms(1) have node: "shaped_node t" and t0: "t0 = ensure_children t"
    and kids: "nw t0 = Some c1" "ne t0 = Some c2" "sw t0 = Some c3" "se t0 = Some c4"
    by (auto simp: descends_def shaped_def dest: every_root)
  have "inside t0"
    using assms(2) node
    by (auto simp: t0 ensure_children_def inside_def inside_node_def contents_subdivide
        shaped_node_def is_internal_def dest: every_root)
  with kids show "inside c1" "inside c2" "inside c3" "inside c4"
    by (auto simp: inside_def dest: every_kid)
qed

lemma descends_filled:
  assumes "descends k p t t0 c1 c2 c3 c4" and "filled t"
  shows "filled c1" "filled c2" "filled c3" "filled c4"
    and "length (points t) = size_t_of_int (capacity t)"
proof -
  from assms(1) have full: "\<not> below_capacity t" and t0: "t0 = ensure_children t"
    and kids: "nw t0 = Some c1" "ne t0 = Some c2" "sw t0 = Some c3" "se t0 = Some c4"
    by (auto simp: descends_def)
  from assms(2) have "filled_node t"
    by (auto simp: filled_def dest: every_root)
  with full show len: "length (points t) = size_t_of_int (capacity t)"
    by (simp add: filled_node_def below_capacity_def)
  have "filled t0"
    using assms(2) len by (auto simp: t0 ensure_children_def filled_def filled_node_def)
  with kids show "filled c1" "filled c2" "filled c3" "filled c4"
    by (auto simp: filled_def dest: every_kid)
qed

lemma descends_tiled:
  assumes "descends k p t t0 c1 c2 c3 c4" and "tiled t"
  shows "tiled c1" "tiled c2" "tiled c3" "tiled c4"
    and "boundary c1 = nw_box (boundary t)" "boundary c2 = ne_box (boundary t)"
    and "boundary c3 = sw_box (boundary t)" "boundary c4 = se_box (boundary t)"
proof -
  from assms(1) have t0: "t0 = ensure_children t"
    and kids: "nw t0 = Some c1" "ne t0 = Some c2" "sw t0 = Some c3" "se t0 = Some c4"
    by (auto simp: descends_def)
  have "tiled t0"
    using assms(2) by (auto simp: t0 ensure_children_def tiled_def tiled_node_def)
  with kids show "tiled c1" "tiled c2" "tiled c3" "tiled c4"
    by (auto simp: tiled_def dest: every_kid)
  from \<open>tiled t0\<close> have "tiled_node t0"
    by (auto simp: tiled_def dest: every_root)
  with kids show "boundary c1 = nw_box (boundary t)" "boundary c2 = ne_box (boundary t)"
    "boundary c3 = sw_box (boundary t)" "boundary c4 = se_box (boundary t)"
    by (simp_all add: tiled_node_def t0)
qed

section \<open>The result of trying the four children\<close>

lemma first_fit_frame [simp]:
  "boundary (snd (first_fit t0 r1 r2 r3 r4)) = boundary t0"
  "capacity (snd (first_fit t0 r1 r2 r3 r4)) = capacity t0"
  "points (snd (first_fit t0 r1 r2 r3 r4)) = points t0"
  by (simp_all add: first_fit_def)

lemma fst_first_fit [simp]:
  "fst (first_fit t0 r1 r2 r3 r4) \<longleftrightarrow> fst r1 \<or> fst r2 \<or> fst r3 \<or> fst r4"
  by (simp add: first_fit_def)

lemma first_fit_kids:
  assumes "nw t0 = Some c1" "ne t0 = Some c2" "sw t0 = Some c3" "se t0 = Some c4"
  shows "nw (snd (first_fit t0 r1 r2 r3 r4)) = Some (snd r1)"
    and "ne (snd (first_fit t0 r1 r2 r3 r4)) = Some (if fst r1 then c2 else snd r2)"
    and "sw (snd (first_fit t0 r1 r2 r3 r4)) = Some (if fst r1 \<or> fst r2 then c3 else snd r3)"
    and "se (snd (first_fit t0 r1 r2 r3 r4)) = Some (if fst r1 \<or> fst r2 \<or> fst r3 then c4 else snd r4)"
  using assms by (simp_all add: first_fit_def)

lemma contents_first_fit:
  assumes "nw t0 = Some c1" "ne t0 = Some c2" "sw t0 = Some c3" "se t0 = Some c4"
    and "contents (snd r1) = contents c1 + (if fst r1 then {#p#} else {#})"
    and "contents (snd r2) = contents c2 + (if fst r2 then {#p#} else {#})"
    and "contents (snd r3) = contents c3 + (if fst r3 then {#p#} else {#})"
    and "contents (snd r4) = contents c4 + (if fst r4 then {#p#} else {#})"
  shows "contents (snd (first_fit t0 r1 r2 r3 r4)) =
           contents t0 + (if fst (first_fit t0 r1 r2 r3 r4) then {#p#} else {#})"
  using assms(5-)
  by (cases "fst r1"; cases "fst r2"; cases "fst r3"; cases "fst r4")
    (simp_all add: contents_sel [of "snd (first_fit t0 r1 r2 r3 r4)"] first_fit_kids [OF assms(1-4)]
      contents_kids [OF assms(1-4)])

lemma every_first_fit:
  assumes "nw t0 = Some c1" "ne t0 = Some c2" "sw t0 = Some c3" "se t0 = Some c4"
    and "every P c1" "every P c2" "every P c3" "every P c4"
    and "every P (snd r1)" "every P (snd r2)" "every P (snd r3)" "every P (snd r4)"
    and "P (snd (first_fit t0 r1 r2 r3 r4))"
  shows "every P (snd (first_fit t0 r1 r2 r3 r4))"
  using assms(5-)
  by (simp add: every_sel [of P "snd (first_fit t0 r1 r2 r3 r4)"] first_fit_kids [OF assms(1-4)])

section \<open>The postcondition of each way\<close>

lemma post_reject:
  "shaped t \<Longrightarrow> uniform k t \<Longrightarrow> \<not> contains (boundary t) p \<Longrightarrow> post k p t (False, t)"
  by (simp add: post_def)

lemma shaped_push_back: "shaped t \<Longrightarrow> shaped (push_back t p)"
  by (simp add: shaped_def shaped_node_def every_sel [of shaped_node t])

lemma uniform_push_back: "uniform k t \<Longrightarrow> uniform k (push_back t p)"
  by (simp add: uniform_def every_sel [of _ t])

lemma inside_push_back: "contains (boundary t) p \<Longrightarrow> inside t \<Longrightarrow> inside (push_back t p)"
  by (simp add: inside_def inside_node_def every_sel [of inside_node t])

lemma filled_push_back: "below_capacity t \<Longrightarrow> filled t \<Longrightarrow> filled (push_back t p)"
  by (auto simp: filled_def filled_node_def below_capacity_def every_sel [of filled_node t])

lemma tiled_push_back: "tiled t \<Longrightarrow> tiled (push_back t p)"
  by (simp add: tiled_def tiled_node_def every_sel [of tiled_node t])

lemma post_store:
  "shaped t \<Longrightarrow> uniform k t \<Longrightarrow> contains (boundary t) p \<Longrightarrow> below_capacity t \<Longrightarrow>
   post k p t (True, push_back t p)"
  by (simp add: post_def shaped_push_back uniform_push_back inside_push_back filled_push_back
      tiled_push_back)

lemma post_descend_tree:
  assumes d: "descends k p t t0 c1 c2 c3 c4"
    and r: "post k p c1 r1" "post k p c2 r2" "post k p c3 r3" "post k p c4 r4"
  shows "contents (snd (first_fit t0 r1 r2 r3 r4)) =
      contents t + (if fst (first_fit t0 r1 r2 r3 r4) then {#p#} else {#})"
    and "shaped (snd (first_fit t0 r1 r2 r3 r4))"
    and "uniform k (snd (first_fit t0 r1 r2 r3 r4))"
proof -
  let ?r = "first_fit t0 r1 r2 r3 r4"
  from d have kids: "nw t0 = Some c1" "ne t0 = Some c2" "sw t0 = Some c3" "se t0 = Some c4"
    by (auto simp: descends_def)
  note k = descends_kids [OF d]
  show "contents (snd ?r) = contents t + (if fst ?r then {#p#} else {#})"
    using contents_first_fit [OF kids r [THEN postD(3)]] k(12) by simp
  show "shaped (snd ?r)"
    unfolding shaped_def using k(1-4) r [THEN postD(6)]
    by (intro every_first_fit [OF kids])
      (simp_all add: shaped_def shaped_node_def is_internal_def first_fit_kids [OF kids])
  show "uniform k (snd ?r)"
    unfolding uniform_def using k(5-9) r [THEN postD(7)]
    by (intro every_first_fit [OF kids]) (simp_all add: uniform_def)
qed

lemma post_descend_inside:
  assumes d: "descends k p t t0 c1 c2 c3 c4"
    and r: "post k p c1 r1" "post k p c2 r2" "post k p c3 r3" "post k p c4 r4"
    and t: "inside t"
  shows "inside (snd (first_fit t0 r1 r2 r3 r4))"
proof -
  let ?r = "first_fit t0 r1 r2 r3 r4"
  from d have kids: "nw t0 = Some c1" "ne t0 = Some c2" "sw t0 = Some c3" "se t0 = Some c4"
    and p: "contains (boundary t) p"
    by (auto simp: descends_def)
  note k = descends_kids [OF d] and i = descends_inside [OF d t]
  have "inside_node (snd ?r)"
    using t p
    by (auto simp: inside_node_def post_descend_tree(1) [OF d r] k(10) dest: inside_contents
        split: if_splits)
  then show ?thesis
    unfolding inside_def using i r [THEN postD(8)]
    by (intro every_first_fit [OF kids]) (simp_all add: inside_def)
qed

lemma post_descend_filled:
  assumes d: "descends k p t t0 c1 c2 c3 c4"
    and r: "post k p c1 r1" "post k p c2 r2" "post k p c3 r3" "post k p c4 r4"
    and t: "filled t"
  shows "filled (snd (first_fit t0 r1 r2 r3 r4))"
proof -
  let ?r = "first_fit t0 r1 r2 r3 r4"
  from d have kids: "nw t0 = Some c1" "ne t0 = Some c2" "sw t0 = Some c3" "se t0 = Some c4"
    by (auto simp: descends_def)
  note k = descends_kids [OF d] and f = descends_filled [OF d t]
  have "filled_node (snd ?r)"
    using f(5) k(9-11,15) by (simp add: filled_node_def)
  then show ?thesis
    unfolding filled_def using f(1-4) r [THEN postD(9)]
    by (intro every_first_fit [OF kids]) (simp_all add: filled_def)
qed

lemma post_descend_tiled:
  assumes d: "descends k p t t0 c1 c2 c3 c4"
    and r: "post k p c1 r1" "post k p c2 r2" "post k p c3 r3" "post k p c4 r4"
    and t: "tiled t"
  shows "tiled (snd (first_fit t0 r1 r2 r3 r4))"
proof -
  let ?r = "first_fit t0 r1 r2 r3 r4"
  from d have kids: "nw t0 = Some c1" "ne t0 = Some c2" "sw t0 = Some c3" "se t0 = Some c4"
    by (auto simp: descends_def)
  note k = descends_kids [OF d] and b = descends_tiled [OF d t]
  have "tiled_node (snd ?r)"
    using b(5-8) r [THEN postD(1)] k(10) by (simp add: tiled_node_def first_fit_kids [OF kids])
  then show ?thesis
    unfolding tiled_def using b(1-4) r [THEN postD(10)]
    by (intro every_first_fit [OF kids]) (simp_all add: tiled_def)
qed

lemma post_descend_success:
  assumes d: "descends k p t t0 c1 c2 c3 c4"
    and r: "post k p c1 r1" "post k p c2 r2" "post k p c3 r3" "post k p c4 r4"
    and t: "tiled t" "splittable (boundary t)"
  shows "fst (first_fit t0 r1 r2 r3 r4)"
proof -
  from d have p: "contains (boundary t) p"
    by (simp add: descends_def)
  note b = descends_tiled [OF d t(1)]
  have "contains (boundary c1) p \<or> contains (boundary c2) p \<or>
      contains (boundary c3) p \<or> contains (boundary c4) p"
    using quadrants_cover [OF p t(2)] by (simp add: b)
  moreover have "splittable (boundary c1)" "splittable (boundary c2)"
    "splittable (boundary c3)" "splittable (boundary c4)"
    using splittable_quadrants [OF t(2)] by (simp_all add: b)
  ultimately show ?thesis
    using r [THEN postD(11)] b(1-4) by auto
qed

lemma post_descend:
  assumes d: "descends k p t t0 c1 c2 c3 c4"
    and r: "post k p c1 r1" "post k p c2 r2" "post k p c3 r3" "post k p c4 r4"
  shows "post k p t (first_fit t0 r1 r2 r3 r4)"
proof -
  from d have "contains (boundary t) p" "boundary t0 = boundary t" "capacity t0 = capacity t"
    by (auto simp: descends_def)
  then show ?thesis
    unfolding post_def
    using post_descend_tree [OF d r] post_descend_inside [OF d r] post_descend_filled [OF d r]
      post_descend_tiled [OF d r] post_descend_success [OF d r]
    by simp
qed

section \<open>Induction over a call\<close>

text \<open>The pieces of the induction: a call is a rejection, a store or a descent; a
  fresh child of nonzero capacity rejects or stores; a descent is \<open>first_fit\<close> on what
  the children return; a full node that contains the point descends.\<close>

lemma insert_qt_cases:
  assumes reject: "\<And>t. shaped t \<Longrightarrow> uniform k t \<Longrightarrow> \<not> contains (boundary t) p \<Longrightarrow> P t (False, t)"
    and store: "\<And>t. shaped t \<Longrightarrow> uniform k t \<Longrightarrow> contains (boundary t) p \<Longrightarrow>
      below_capacity t \<Longrightarrow> P t (True, push_back t p)"
    and t: "shaped t" "uniform k t"
    and full: "contains (boundary t) p \<Longrightarrow> \<not> below_capacity t \<Longrightarrow>
      \<exists>r. insert_qt p t = Some (Inr r) \<and> P t r"
  shows "\<exists>r. insert_qt p t = Some (Inr r) \<and> P t r"
proof -
  consider (out) "\<not> contains (boundary t) p" | (room) "contains (boundary t) p" "below_capacity t"
    | (full) "contains (boundary t) p" "\<not> below_capacity t"
    by blast
  then show ?thesis
  proof cases
    case out
    then show ?thesis
      using reject [OF t] by (simp add: insert_qt_reject)
  next
    case room
    then show ?thesis
      using store [OF t] by (simp add: insert_qt_store)
  next
    case full
    then show ?thesis
      by (rule assms(5))
  qed
qed

lemma insert_qt_fresh_child:
  assumes reject: "\<And>t. shaped t \<Longrightarrow> uniform k t \<Longrightarrow> \<not> contains (boundary t) p \<Longrightarrow> P t (False, t)"
    and store: "\<And>t. shaped t \<Longrightarrow> uniform k t \<Longrightarrow> contains (boundary t) p \<Longrightarrow>
      below_capacity t \<Longrightarrow> P t (True, push_back t p)"
    and "k \<noteq> 0"
  shows "\<exists>r. insert_qt p (new_QuadTree bx k) = Some (Inr r) \<and> P (new_QuadTree bx k) r"
proof (rule insert_qt_cases [of k p P, OF reject store])
  show "shaped (new_QuadTree bx k)" "uniform k (new_QuadTree bx k)"
    by (simp_all add: shaped_def uniform_def shaped_node_def)
next
  assume "\<not> below_capacity (new_QuadTree bx k)"
  with \<open>k \<noteq> 0\<close> show "\<exists>r. insert_qt p (new_QuadTree bx k) = Some (Inr r) \<and> P (new_QuadTree bx k) r"
    by simp
qed

lemma insert_qt_step:
  assumes "descends k p t (ensure_children t) c1 c2 c3 c4"
    and "insert_qt p c1 = Some (Inr r1)" and "insert_qt p c2 = Some (Inr r2)"
    and "insert_qt p c3 = Some (Inr r3)" and "insert_qt p c4 = Some (Inr r4)"
  shows "insert_qt p t = Some (Inr (first_fit (ensure_children t) r1 r2 r3 r4))"
  using assms by (intro insert_qt_descend) (simp_all add: descends_def)

lemma descends_leaf:
  assumes "shaped t" and "uniform k t" and "is_leaf t"
    and "contains (boundary t) p" and "\<not> below_capacity t"
  shows "descends k p t (ensure_children t)
    (new_QuadTree (nw_box (boundary t)) k) (new_QuadTree (ne_box (boundary t)) k)
    (new_QuadTree (sw_box (boundary t)) k) (new_QuadTree (se_box (boundary t)) k)"
proof -
  from assms(2) have "capacity t = k"
    by (auto simp: uniform_def dest: every_root)
  with assms show ?thesis
    by (simp add: descends_def ensure_children_def is_leaf_def)
qed

lemma descends_internal:
  assumes "shaped t" and "uniform k t"
    and "nw t = Some c1" and "ne t = Some c2" and "sw t = Some c3" and "se t = Some c4"
    and "contains (boundary t) p" and "\<not> below_capacity t"
  shows "descends k p t (ensure_children t) c1 c2 c3 c4"
  using assms by (simp add: descends_def ensure_children_def)

text \<open>A full node that contains the point: the call returns what \<open>first_fit\<close> makes
  of the results of the children, which are fresh leaves when the node was a leaf.\<close>

lemma insert_qt_full_internal:
  assumes d: "descends k p t (ensure_children t) c1 c2 c3 c4"
    and kids: "\<exists>r. insert_qt p c1 = Some (Inr r) \<and> P c1 r" "\<exists>r. insert_qt p c2 = Some (Inr r) \<and> P c2 r"
      "\<exists>r. insert_qt p c3 = Some (Inr r) \<and> P c3 r" "\<exists>r. insert_qt p c4 = Some (Inr r) \<and> P c4 r"
    and descend: "\<And>t t0 c1 c2 c3 c4 r1 r2 r3 r4. descends k p t t0 c1 c2 c3 c4 \<Longrightarrow>
      P c1 r1 \<Longrightarrow> P c2 r2 \<Longrightarrow> P c3 r3 \<Longrightarrow> P c4 r4 \<Longrightarrow> P t (first_fit t0 r1 r2 r3 r4)"
  shows "\<exists>r. insert_qt p t = Some (Inr r) \<and> P t r"
proof -
  from kids obtain r1 r2 r3 r4 where r:
    "insert_qt p c1 = Some (Inr r1)" "insert_qt p c2 = Some (Inr r2)"
    "insert_qt p c3 = Some (Inr r3)" "insert_qt p c4 = Some (Inr r4)"
    "P c1 r1" "P c2 r2" "P c3 r3" "P c4 r4"
    by auto
  from insert_qt_step [OF d r(1-4)] descend [OF d r(5-8)] show ?thesis
    by simp
qed

text \<open>On a tree that is \<open>shaped\<close> and \<open>uniform k\<close> with \<open>k \<noteq> 0\<close> the call returns, and
  its result satisfies every property that a rejection and a store satisfy and that
  \<open>first_fit\<close> passes from the results of the children to the result of the node.\<close>

lemma insert_qt_induct [consumes 3, case_names reject store descend]:
  assumes "shaped t" and "uniform k t" and "k \<noteq> 0"
    and reject: "\<And>t. shaped t \<Longrightarrow> uniform k t \<Longrightarrow> \<not> contains (boundary t) p \<Longrightarrow> P t (False, t)"
    and store: "\<And>t. shaped t \<Longrightarrow> uniform k t \<Longrightarrow> contains (boundary t) p \<Longrightarrow>
      below_capacity t \<Longrightarrow> P t (True, push_back t p)"
    and descend: "\<And>t t0 c1 c2 c3 c4 r1 r2 r3 r4. descends k p t t0 c1 c2 c3 c4 \<Longrightarrow>
      P c1 r1 \<Longrightarrow> P c2 r2 \<Longrightarrow> P c3 r3 \<Longrightarrow> P c4 r4 \<Longrightarrow> P t (first_fit t0 r1 r2 r3 r4)"
  shows "\<exists>r. insert_qt p t = Some (Inr r) \<and> P t r"
  using assms(1,2)
proof (induction t rule: shaped_induct)
  case (leaf t)
  note fresh = insert_qt_fresh_child [of k p P, OF reject store \<open>k \<noteq> 0\<close>]
  show ?case
  proof (rule insert_qt_cases [of k p P, OF reject store leaf.hyps(1) leaf.prems])
    assume full: "contains (boundary t) p" "\<not> below_capacity t"
    note d = descends_leaf [OF leaf.hyps(1) leaf.prems leaf.hyps(2) full]
    show "\<exists>r. insert_qt p t = Some (Inr r) \<and> P t r"
      by (rule insert_qt_full_internal [where P = P, OF d]) (rule fresh descend | assumption)+
  qed
next
  case (internal t c1 c2 c3 c4)
  note kids = internal.hyps(2-5)
  show ?case
  proof (rule insert_qt_cases [of k p P, OF reject store internal.hyps(1) internal.prems])
    assume full: "contains (boundary t) p" "\<not> below_capacity t"
    from internal.prems kids have u: "uniform k c1" "uniform k c2" "uniform k c3" "uniform k c4"
      by (auto dest: uniform_kid)
    note d = descends_internal [OF internal.hyps(1) internal.prems kids full]
    show "\<exists>r. insert_qt p t = Some (Inr r) \<and> P t r"
      by (rule insert_qt_full_internal [where P = P, OF d])
        (rule internal.IH(1) [OF u(1)] internal.IH(2) [OF u(2)] internal.IH(3) [OF u(3)]
          internal.IH(4) [OF u(4)] descend | assumption)+
  qed
qed

text \<open>The call returns, and what it returns satisfies \<open>post\<close>.\<close>

lemma insert_qt_post:
  assumes "shaped t" and "uniform k t" and "k \<noteq> 0"
  shows "\<exists>r. insert_qt p t = Some (Inr r) \<and> post k p t r"
  using assms
  by (induction rule: insert_qt_induct) (simp_all add: post_reject post_store post_descend)

lemma insert_qt_returns_post:
  assumes "shaped t" and "uniform k t" and "k \<noteq> 0" and "returns (insert_qt p t) r"
  shows "post k p t r"
  using insert_qt_post [OF assms(1-3), of p] assms(4) by (auto simp: returns_def)

text \<open>What the callers of \<open>insert\<close> rely on, in one rule.\<close>

lemma insert_qt_total:
  assumes "well_formed k t"
  obtains b t' where "insert_qt p t = Some (Inr (b, t'))" and "well_formed k t'"
    and "boundary t' = boundary t" and "capacity t' = capacity t"
    and "contents t' = contents t + (if b then {#p#} else {#})"
    and "b \<Longrightarrow> contains (boundary t) p"
    and "splittable (boundary t) \<Longrightarrow> contains (boundary t) p \<Longrightarrow> b"
proof -
  note wf = well_formed_parts [OF assms]
  from insert_qt_post [OF wf(2,3,1), of p] obtain r where
    r: "insert_qt p t = Some (Inr r)" and post: "post k p t r"
    by blast
  note post = postD [OF post]
  show thesis
  proof (rule that [of "fst r" "snd r"])
    show "insert_qt p t = Some (Inr (fst r, snd r))"
      using r by simp
    show "well_formed k (snd r)"
      using post(6-10) wf by (simp add: well_formed_def)
  qed (use post wf in auto)
qed

section \<open>A call that would not end\<close>

text \<open>A leaf of capacity zero that contains the point, with a boundary that can be
  split: it has no room, it subdivides, and one of its children is such a leaf again.\<close>

lemma doomed_new: "doomed p (new_QuadTree b 0) \<longleftrightarrow> contains b p \<and> splittable b"
  by (simp add: doomed_def)

lemma insert_qt_doomed:
  assumes "insert_qt p t = Some r"
  shows "(\<not> contains (boundary t) p \<longrightarrow> r = Inr (False, t)) \<and> \<not> doomed p t"
proof (rule insert_qt.raw_induct [where P = "\<lambda>p t r.
    (\<not> contains (boundary t) p \<longrightarrow> r = Inr (False, t)) \<and> \<not> doomed p t", OF _ assms], goal_cases)
  case (1 g p t r)
  note IH = 1(1) and body = 1(2)
  show ?case
  proof (intro conjI impI notI)
    assume "\<not> contains (boundary t) p"
    with body show "r = Inr (False, t)"
      by simp
  next
    assume d: "doomed p t"
    then have c: "contains (boundary t) p" "\<not> below_capacity t" "ensure_children t = subdivide t"
      "capacity t = 0"
      by (simp_all add: doomed_def below_capacity_def ensure_children_def)
    let ?b = "boundary t"
    from d have cover: "contains (nw_box ?b) p \<or> contains (ne_box ?b) p \<or>
        contains (sw_box ?b) p \<or> contains (se_box ?b) p"
      by (simp add: doomed_def quadrants_cover)
    from d have sp: "splittable (nw_box ?b)" "splittable (ne_box ?b)"
      "splittable (sw_box ?b)" "splittable (se_box ?b)"
      by (simp_all add: doomed_def splittable_quadrants)
    have step: "g p (new_QuadTree bx 0) = None \<or>
        \<not> contains bx p \<and> g p (new_QuadTree bx 0) = Some (Inr (False, new_QuadTree bx 0))"
      if "splittable bx" for bx
      using that IH [of p "new_QuadTree bx 0"]
      by (cases "g p (new_QuadTree bx 0)") (auto simp: doomed_new)
    from body c cover step [OF sp(1)] step [OF sp(2)] step [OF sp(3)] step [OF sp(4)]
    show False
      by (auto simp: Let_def)
  qed
qed

section \<open>The height of the tree\<close>

lemma kid_height_simps [simp]: "kid_height None = 0" "kid_height (Some t) = height t"
  by (simp_all add: kid_height_def)

lemma height_sel:
  "height t = Suc (max (max (kid_height (nw t)) (kid_height (ne t)))
     (max (kid_height (sw t)) (kid_height (se t))))"
  by (cases t) (simp add: kid_height_def)

lemma height_leaf: "is_leaf t \<Longrightarrow> height t = 1"
  by (simp add: height_sel [of t] is_leaf_def)

lemma height_push_back [simp]: "height (push_back t p) = height t"
  by (simp add: height_sel [of "push_back t p"] height_sel [of t])

lemma height_new [simp]: "height (new_QuadTree b k) = 1"
  by (simp add: height_sel [of "new_QuadTree b k"])

lemma height_first_fit:
  assumes "nw t0 = Some c1" "ne t0 = Some c2" "sw t0 = Some c3" "se t0 = Some c4"
    and "height c1 \<le> height (snd r1)" "height c2 \<le> height (snd r2)"
    and "height c3 \<le> height (snd r3)" "height c4 \<le> height (snd r4)"
    and "height (snd r1) \<le> n" "height (snd r2) \<le> n" "height (snd r3) \<le> n" "height (snd r4) \<le> n"
  shows "height t0 \<le> height (snd (first_fit t0 r1 r2 r3 r4))"
    and "height (snd (first_fit t0 r1 r2 r3 r4)) \<le> Suc n"
  using assms(5-)
  by (auto simp: height_sel [of "snd (first_fit t0 r1 r2 r3 r4)"] height_sel [of t0]
      first_fit_kids [OF assms(1-4)] assms(1-4))

lemma grown_descend:
  assumes d: "descends k p t t0 c1 c2 c3 c4" and "k \<noteq> 0"
    and r: "grown c1 r1" "grown c2 r2" "grown c3 r3" "grown c4 r4"
  shows "grown t (first_fit t0 r1 r2 r3 r4)"
proof -
  from d have kids: "nw t0 = Some c1" "ne t0 = Some c2" "sw t0 = Some c3" "se t0 = Some c4"
    and t0: "t0 = ensure_children t" and full: "\<not> below_capacity t" and "shaped t"
    by (auto simp: descends_def)
  note lower = r [unfolded grown_def, THEN conjunct1]
  show ?thesis
  proof (cases "nw t")
    case None
    with \<open>shaped t\<close> have leaf: "is_leaf t"
      by (auto elim: shaped_cases)
    from None kids \<open>k \<noteq> 0\<close> descends_kids(15) [OF d]
    have "below_capacity c1" "below_capacity c2" "below_capacity c3" "below_capacity c4"
      and "height c1 = 1" "height c2 = 1" "height c3 = 1" "height c4 = 1"
      by (auto simp: t0 ensure_children_def)
    with r have "height (snd r1) \<le> 1" "height (snd r2) \<le> 1" "height (snd r3) \<le> 1" "height (snd r4) \<le> 1"
      by (simp_all add: grown_def)
    from height_first_fit [OF kids lower this] full leaf None show ?thesis
      by (simp add: grown_def height_leaf t0 ensure_children_def height_sel [of "subdivide t"])
  next
    case (Some c)
    then have t0': "t0 = t"
      by (simp add: t0 ensure_children_def)
    let ?n = "height t"
    from kids r have "height (snd r1) \<le> ?n" "height (snd r2) \<le> ?n" "height (snd r3) \<le> ?n" "height (snd r4) \<le> ?n"
      by (auto simp: grown_def t0' height_sel [of t])
    from height_first_fit [OF kids lower this] full show ?thesis
      by (simp add: grown_def t0')
  qed
qed

lemma insert_qt_grown:
  assumes "shaped t" and "uniform k t" and "k \<noteq> 0"
  shows "\<exists>r. insert_qt p t = Some (Inr r) \<and> grown t r"
  using assms
proof (induction rule: insert_qt_induct)
  case (descend t t0 c1 c2 c3 c4 r1 r2 r3 r4)
  then show ?case
    using \<open>k \<noteq> 0\<close> by (intro grown_descend)
qed (simp_all add: grown_def)

section \<open>The example of the specification, run\<close>

lemmas ex_run =
  insert_qt.simps contains_def example_points
  ex_t0_def ex_t1_def ex_t2_def ex_t3_def ex_t4_def quadtree_defs size_t_of_int_literals

lemma ex_well_formed:
  "well_formed 1 ex_t0" "well_formed 1 ex_t1" "well_formed 1 ex_t2" "well_formed 1 ex_t3"
  by (simp_all add: ex_run)

lemma ex_inserts:
  "returns (insert_qt ex_p10 ex_t0) (True, ex_t1)"
  "returns (insert_qt ex_p20 ex_t1) (True, ex_t2)"
  "returns (insert_qt ex_p90 ex_t2) (True, ex_t3)"
  "returns (insert_qt ex_far ex_t3) (False, ex_t3)"
  by (simp_all add: ex_run)

section \<open>Theorems\<close>

text \<open>C4 (termination): on a well-formed tree a call of \<open>insert\<close> returns, and it returns
  without dereferencing a null pointer.\<close>

theorem insert_qt_returns:
  assumes "well_formed k t"
  shows "\<exists>b t'. returns (insert_qt p t) (b, t')"
  using insert_qt_post [OF well_formed_parts(2,3,1) [OF assms], of p]
  by (auto simp: returns_def)

theorem insert_qt_returns_witness:
  "well_formed 1 ex_t1 \<and> (\<exists>b t'. returns (insert_qt ex_p20 ex_t1) (b, t'))"
  using insert_qt_returns [of 1 ex_t1 ex_p20] by (simp add: ex_run)

text \<open>C3 (invariant): a call of \<open>insert\<close> on a well-formed tree leaves a well-formed tree,
  whatever it returns.\<close>

theorem insert_qt_well_formed:
  assumes "well_formed k t" and "returns (insert_qt p t) (b, t')"
  shows "well_formed k t'"
  using insert_qt_returns_post [OF well_formed_parts(2,3,1) [OF assms(1)] assms(2)] assms(1)
  by (simp add: post_def well_formed_def)

theorem insert_qt_well_formed_witness:
  "well_formed 1 ex_t1 \<and> returns (insert_qt ex_p20 ex_t1) (True, ex_t2) \<and> well_formed 1 ex_t2"
  using insert_qt_well_formed [of 1 ex_t1 ex_p20 True ex_t2] by (simp add: ex_run)

text \<open>C1 (refinement): the points stored in the tree after a call are those stored before,
  and the new point once more exactly when the call returned \<open>true\<close>.\<close>

theorem insert_qt_contents:
  assumes "well_formed k t" and "returns (insert_qt p t) (b, t')"
  shows "contents t' = contents t + (if b then {#p#} else {#})"
  using insert_qt_returns_post [OF well_formed_parts(2,3,1) [OF assms(1)] assms(2)]
  by (simp add: post_def)

theorem insert_qt_contents_witness:
  "well_formed 1 ex_t1 \<and> returns (insert_qt ex_p20 ex_t1) (True, ex_t2) \<and>
   contents ex_t2 = contents ex_t1 + {#ex_p20#}"
  using insert_qt_contents [of 1 ex_t1 ex_p20 True ex_t2] by (simp add: ex_run)

text \<open>C5 (functional): when the boundary of the root can be split, \<open>insert\<close> returns \<open>true\<close>
  exactly for the points that the boundary contains.\<close>

theorem insert_qt_accepts_iff:
  assumes "well_formed k t" and "splittable (boundary t)" and "returns (insert_qt p t) (b, t')"
  shows "b \<longleftrightarrow> contains (boundary t) p"
  using insert_qt_returns_post [OF well_formed_parts(2,3,1) [OF assms(1)] assms(3)]
    assms(2) well_formed_parts(6) [OF assms(1)]
  by (auto simp: post_def)

theorem insert_qt_accepts_iff_witness:
  "well_formed 1 ex_t3 \<and> splittable (boundary ex_t3) \<and>
   returns (insert_qt ex_p19 ex_t3) (True, ex_t4) \<and> contains (boundary ex_t3) ex_p19"
  using insert_qt_accepts_iff [of 1 ex_t3 ex_p19 True ex_t4] by (simp add: ex_run splittable_def)

text \<open>C14 (error): a point outside the boundary is rejected and nothing changes, on any
  tree at all.\<close>

theorem insert_qt_outside:
  assumes "\<not> contains (boundary t) p"
  shows "insert_qt p t = Some (Inr (False, t))"
  using assms by (rule insert_qt_reject)

theorem insert_qt_outside_witness:
  "\<not> contains (boundary ex_t2) ex_far \<and> insert_qt ex_far ex_t2 = Some (Inr (False, ex_t2))"
  using insert_qt_outside [of ex_t2 ex_far] by (simp add: ex_run)

text \<open>C35 (functional): a call never changes the boundary or the capacity of the node.\<close>

theorem insert_qt_frame:
  assumes "well_formed k t" and "returns (insert_qt p t) (b, t')"
  shows "boundary t' = boundary t \<and> capacity t' = capacity t"
  using insert_qt_returns_post [OF well_formed_parts(2,3,1) [OF assms(1)] assms(2)]
  by (simp add: post_def)

theorem insert_qt_frame_witness:
  "well_formed 1 ex_t1 \<and> returns (insert_qt ex_p20 ex_t1) (True, ex_t2) \<and>
   boundary ex_t2 = boundary ex_t1 \<and> capacity ex_t2 = capacity ex_t1"
  using insert_qt_frame [OF ex_well_formed(2) ex_inserts(2)] ex_well_formed(2) ex_inserts(2)
  by simp

text \<open>C10 (liveness): with a capacity of zero, \<open>insert\<close> of a point of the boundary into a
  fresh tree never returns: every node it reaches is full, so it subdivides for ever.\<close>

theorem insert_qt_capacity_0_diverges:
  assumes "contains b p" and "splittable b"
  shows "insert_qt p (new_QuadTree b 0) = None"
  using insert_qt_doomed [of p "new_QuadTree b 0"] assms
  by (cases "insert_qt p (new_QuadTree b 0)") (auto simp: doomed_new)

theorem insert_qt_capacity_0_diverges_witness:
  "contains ex_box ex_p10 \<and> splittable ex_box \<and> insert_qt ex_p10 (new_QuadTree ex_box 0) = None"
proof -
  have c: "contains ex_box ex_p10"
    by (simp add: ex_p10_def contains_def)
  from insert_qt_capacity_0_diverges [OF c ex_splittable] c ex_splittable show ?thesis
    by simp
qed

text \<open>C36 (functional): the first insertion into a freshly constructed tree of nonzero
  capacity stores the point in the root.\<close>

theorem insert_qt_fresh:
  assumes "k \<noteq> 0" and "contains b p"
  shows "insert_qt p (new_QuadTree b k) = Some (Inr (True, push_back (new_QuadTree b k) p))"
  using assms by (simp add: insert_qt_new)

theorem insert_qt_fresh_witness:
  "(4 :: cint) \<noteq> 0 \<and> contains ex_box ex_p10 \<and>
   insert_qt ex_p10 (new_QuadTree ex_box 4) = Some (Inr (True, push_back (new_QuadTree ex_box 4) ex_p10))"
proof -
  have k: "(4 :: cint) \<noteq> 0"
    by simp
  have c: "contains ex_box ex_p10"
    by (simp add: ex_p10_def contains_def)
  from insert_qt_fresh [OF k c] k c show ?thesis
    by simp
qed

text \<open>C26 (bounds): a call of \<open>insert\<close> on a well-formed tree deepens the tree by at most
  one level, and never makes it shallower: a call subdivides leaves only, and the
  children it creates store or reject the point without subdividing.\<close>

theorem insert_qt_height:
  assumes "well_formed k t" and "returns (insert_qt p t) (ok, t')"
  shows "height t \<le> height t' \<and> height t' \<le> height t + 1"
  using insert_qt_grown [OF well_formed_parts(2,3,1) [OF assms(1)], of p] assms(2)
  by (auto simp: grown_def returns_def)

theorem insert_qt_height_witness:
  "well_formed 1 ex_t1 \<and> returns (insert_qt ex_p20 ex_t1) (True, ex_t2) \<and>
   height ex_t1 = 1 \<and> height ex_t2 = 2"
  using insert_qt_height [OF ex_well_formed(2) ex_inserts(2)] ex_well_formed(2) ex_inserts(2)
  by (simp add: ex_run)

text \<open>C15 (error): a boundary whose midpoint is not a number has four empty quadrants: a
  full leaf with such a boundary subdivides and then rejects a point it contains.\<close>

theorem insert_qt_unsplittable:
  assumes "contains (boundary t) p" and "\<not> below_capacity t" and "is_leaf t"
    and "\<not> splittable (boundary t)"
  shows "insert_qt p t = Some (Inr (False, subdivide t))"
proof -
  let ?b = "boundary t" and ?k = "capacity t"
  have out: "\<not> contains (nw_box ?b) p" "\<not> contains (ne_box ?b) p"
    "\<not> contains (sw_box ?b) p" "\<not> contains (se_box ?b) p"
    using assms(4) unsplittable_quadrants_empty [of ?b p] by (auto simp: splittable_def)
  have t0: "ensure_children t = subdivide t"
    using assms(3) by (simp add: ensure_children_def is_leaf_def)
  have miss: "insert_qt p (new_QuadTree bx ?k) = Some (Inr (False, new_QuadTree bx ?k))"
    if "\<not> contains bx p" for bx
    using that by (intro insert_qt_reject) simp
  have "insert_qt p t = Some (Inr (first_fit (subdivide t)
      (False, new_QuadTree (nw_box ?b) ?k) (False, new_QuadTree (ne_box ?b) ?k)
      (False, new_QuadTree (sw_box ?b) ?k) (False, new_QuadTree (se_box ?b) ?k)))"
    unfolding t0 [symmetric] using assms(1,2) out [THEN miss]
    by (intro insert_qt_descend) (simp_all add: t0)
  also have "first_fit (subdivide t)
      (False, new_QuadTree (nw_box ?b) ?k) (False, new_QuadTree (ne_box ?b) ?k)
      (False, new_QuadTree (sw_box ?b) ?k) (False, new_QuadTree (se_box ?b) ?k) = (False, subdivide t)"
    by (simp add: first_fit_def set_nw_def set_ne_def set_sw_def set_se_def subdivide_def)
  finally show ?thesis .
qed

theorem insert_qt_unsplittable_witness:
  "contains (boundary ex_plane) ex_p20 \<and> \<not> below_capacity ex_plane \<and> is_leaf ex_plane \<and>
   \<not> splittable (boundary ex_plane) \<and>
   insert_qt ex_p20 ex_plane = Some (Inr (False, subdivide ex_plane))"
proof -
  have h: "contains (boundary ex_plane) ex_p20" "\<not> below_capacity ex_plane" "is_leaf ex_plane"
    "\<not> splittable (boundary ex_plane)"
    by (simp_all add: ex_plane_def contains_def ex_p20_def below_capacity_def is_leaf_def
        splittable_def x_mid_def d_mid_def size_t_of_int_literals)
  from insert_qt_unsplittable [OF h] h show ?thesis
    by simp
qed

text \<open>C27 (bounds): the capacity is an \<open>int\<close>, and line 47 compares it with a \<open>size_t\<close>. A
  negative capacity is converted to a number of at least \<open>2\<^sup>6\<^sup>3\<close>: the node has room
  for ever, stores every point of its boundary in its own buffer and never
  subdivides.\<close>

theorem insert_qt_negative_capacity:
  assumes "sint (capacity t) < 0" and "contains (boundary t) p" and "length (points t) < 2 ^ 63"
  shows "insert_qt p t = Some (Inr (True, push_back t p))"
proof -
  from size_t_of_int_neg_ge [OF assms(1)] assms(3) have "below_capacity t"
    by (simp add: below_capacity_def)
  with assms(2) show ?thesis
    by (rule insert_qt_store)
qed

theorem insert_qt_negative_capacity_witness:
  "sint (capacity (QuadTree ex_box (- 1) [ex_p10, ex_p20] None None None None)) < 0 \<and>
   contains (boundary (QuadTree ex_box (- 1) [ex_p10, ex_p20] None None None None)) ex_p90 \<and>
   insert_qt ex_p90 (QuadTree ex_box (- 1) [ex_p10, ex_p20] None None None None) =
     Some (Inr (True, QuadTree ex_box (- 1) [ex_p10, ex_p20, ex_p90] None None None None))"
  using insert_qt_negative_capacity [of "QuadTree ex_box (- 1) [ex_p10, ex_p20] None None None None" ex_p90]
  by (simp add: contains_def ex_p90_def push_back_def)

text \<open>C32 (invariant): \<open>subdivide\<close>, called on a leaf of a well-formed tree whose buffer is
  full, leaves a well-formed node with four children and the same points.\<close>

theorem subdivide_full_leaf:
  assumes "well_formed k t" and "is_leaf t" and "\<not> below_capacity t"
  shows "well_formed k (subdivide t) \<and> contents (subdivide t) = contents t \<and>
    is_internal (subdivide t)"
  using assms
  by (auto simp: well_formed_def shaped_def uniform_def inside_def filled_def tiled_def
      every_leaf shaped_node_def inside_node_def filled_node_def tiled_node_def
      below_capacity_def contents_subdivide)

theorem subdivide_full_leaf_witness:
  "well_formed 1 ex_t1 \<and> is_leaf ex_t1 \<and> \<not> below_capacity ex_t1 \<and>
   well_formed 1 (subdivide ex_t1) \<and> contents (subdivide ex_t1) = contents ex_t1 \<and>
   nw (subdivide ex_t1) = Some (new_QuadTree (nw_box ex_box) 1)"
  using subdivide_full_leaf [of 1 ex_t1] by (simp add: ex_run)

end
