(* ===== verification/QT_Query.thy ===== *)
theory QT_Query
  imports QT_Insert
begin

text \<open>
  Correctness of \<open>QuadTree::queryRange\<close> (\<open>src/Code.cpp\<close>, lines 60 to 76).

  \<open>scan rg t\<close> is the reference traversal: the points of \<open>t\<close> inside \<open>rg\<close>, node by
  node, skipping the subtrees whose boundary misses \<open>rg\<close>. The lemmas relate three
  things: what the code appends (\<open>queryRange\<close>), the pruned traversal (\<open>scan\<close>), and
  the filter of all stored points that the contract of the query asks for.

  \<^item> \<open>queryRange\<close> only appends (\<open>queryRange_append\<close>), and what it appends is \<open>scan\<close>
    whenever it does not dereference a null child (\<open>queryRange_scan\<close>); on a
    \<open>shaped\<close> tree it never does.
  \<^item> \<open>scan\<close> never reports a point that is not stored or not in the range
    (\<open>scan_sound\<close>), and on a tree that is \<open>inside\<close> pruning loses nothing
    (\<open>scan_filter\<close>).
  \<^item> The example of the specification, evaluated.
\<close>

section \<open>The reference traversal\<close>

fun scan :: "BoundingBox \<Rightarrow> QuadTree \<Rightarrow> Point list" where
  "scan rg (QuadTree b c pts n e s w) =
     (if \<not> intersects b rg then []
      else filter (contains rg) pts @
        (case n of None \<Rightarrow> [] | Some tn \<Rightarrow>
           scan rg tn
         @ (case e of None \<Rightarrow> [] | Some t \<Rightarrow> scan rg t)
         @ (case s of None \<Rightarrow> [] | Some t \<Rightarrow> scan rg t)
         @ (case w of None \<Rightarrow> [] | Some t \<Rightarrow> scan rg t)))"

text \<open>Whether the traversal calls through a null pointer: it does when it enters a
  node that has a first child and lacks a later one.\<close>

fun faults :: "BoundingBox \<Rightarrow> QuadTree \<Rightarrow> bool" where
  "faults rg (QuadTree b c pts n e s w) =
     (intersects b rg \<and>
      (case n of None \<Rightarrow> False | Some tn \<Rightarrow> faults rg tn \<or>
      (case e of None \<Rightarrow> True | Some te \<Rightarrow> faults rg te \<or>
      (case s of None \<Rightarrow> True | Some ts \<Rightarrow> faults rg ts \<or>
      (case w of None \<Rightarrow> True | Some tw \<Rightarrow> faults rg tw)))))"

text \<open>The query as the driver calls it (lines 119 to 121): a fresh vector, filled by
  the call.\<close>

definition query :: "BoundingBox \<Rightarrow> QuadTree \<Rightarrow> Point list result" where
  "query rg t = queryRange rg t []"

section \<open>Lemmas\<close>

lemma scan_sel:
  "scan rg t =
     (if \<not> intersects (boundary t) rg then []
      else filter (contains rg) (points t) @
        (case nw t of None \<Rightarrow> [] | Some tn \<Rightarrow>
           scan rg tn
         @ (case ne t of None \<Rightarrow> [] | Some t \<Rightarrow> scan rg t)
         @ (case sw t of None \<Rightarrow> [] | Some t \<Rightarrow> scan rg t)
         @ (case se t of None \<Rightarrow> [] | Some t \<Rightarrow> scan rg t)))"
  by (cases t) (simp split: option.split)

lemma scan_miss [simp]: "\<not> intersects (boundary t) rg \<Longrightarrow> scan rg t = []"
  by (simp add: scan_sel [of rg t])

lemma scan_leaf: "is_leaf t \<Longrightarrow> intersects (boundary t) rg \<Longrightarrow> scan rg t = filter (contains rg) (points t)"
  by (simp add: scan_sel [of rg t] is_leaf_def)

lemma scan_kids:
  "nw t = Some c1 \<Longrightarrow> ne t = Some c2 \<Longrightarrow> sw t = Some c3 \<Longrightarrow> se t = Some c4 \<Longrightarrow>
   intersects (boundary t) rg \<Longrightarrow>
   scan rg t = filter (contains rg) (points t) @ scan rg c1 @ scan rg c2 @ scan rg c3 @ scan rg c4"
  by (simp add: scan_sel [of rg t])

lemma queryRange_miss: "\<not> intersects (boundary t) rg \<Longrightarrow> queryRange rg t acc = Inr acc"
  by (cases t) simp

lemma queryRange_leaf:
  "nw t = None \<Longrightarrow> intersects (boundary t) rg \<Longrightarrow>
   queryRange rg t acc = Inr (acc @ filter (contains rg) (points t))"
  by (cases t) simp

lemma queryRange_kids:
  assumes "nw t = Some c1" "ne t = Some c2" "sw t = Some c3" "se t = Some c4"
    and "intersects (boundary t) rg"
    and "queryRange rg c1 (acc @ filter (contains rg) (points t)) = Inr a1"
    and "queryRange rg c2 a1 = Inr a2"
    and "queryRange rg c3 a2 = Inr a3"
  shows "queryRange rg t acc = queryRange rg c4 a3"
  using assms by (cases t) simp

text \<open>All points of a pruned subtree are outside the range.\<close>

lemma inside_miss:
  assumes "inside t" and "\<not> intersects (boundary t) rg"
  shows "filter (contains rg) (all_points t) = []"
proof (rule filter_False_conv, rule ballI)
  fix p assume "p \<in> set (all_points t)"
  with assms(1) have "contains (boundary t) p"
    by (simp add: inside_contents)
  with assms(2) show "\<not> contains rg p"
    by (rule not_intersects_imp_not_contains)
qed

lemma all_points_leaf: "is_leaf t \<Longrightarrow> all_points t = points t"
  by (simp add: all_points_sel [of t] is_leaf_def)

lemma all_points_kids:
  "nw t = Some c1 \<Longrightarrow> ne t = Some c2 \<Longrightarrow> sw t = Some c3 \<Longrightarrow> se t = Some c4 \<Longrightarrow>
   all_points t = points t @ all_points c1 @ all_points c2 @ all_points c3 @ all_points c4"
  by (simp add: all_points_sel [of t])

text \<open>What a call does, on any tree: it faults, or it appends the traversal.\<close>

lemma queryRange_char:
  "queryRange rg t acc = (if faults rg t then Inl NullDeref else Inr (acc @ scan rg t))"
  by (induction t arbitrary: acc) (auto split: option.splits)

lemma shaped_not_faults: "shaped t \<Longrightarrow> \<not> faults rg t"
proof (induction t rule: shaped_induct)
  case (leaf t)
  then show ?case
    by (cases t) (simp add: is_leaf_def)
next
  case (internal t c1 c2 c3 c4)
  then show ?case
    by (cases t) simp
qed

lemma queryRange_scan: "shaped t \<Longrightarrow> queryRange rg t acc = Inr (acc @ scan rg t)"
  by (simp add: queryRange_char shaped_not_faults)

lemma scan_filter:
  assumes "shaped t" and "inside t"
  shows "scan rg t = filter (contains rg) (all_points t)"
  using assms
proof (induction t rule: shaped_induct)
  case (leaf t)
  then show ?case
    using inside_miss [of t rg]
    by (cases "intersects (boundary t) rg") (simp_all add: scan_leaf all_points_leaf)
next
  case (internal t c1 c2 c3 c4)
  note kids = internal(2-5)
  show ?case
  proof (cases "intersects (boundary t) rg")
    case True
    from internal.prems kids have "inside c1" "inside c2" "inside c3" "inside c4"
      by (auto dest: inside_kid)
    with internal(6-9) show ?thesis
      by (simp add: scan_kids [OF kids True] all_points_kids [OF kids])
  qed (simp add: inside_miss [OF internal.prems])
qed

text \<open>Whatever the tree, the traversal reports stored points of the range only, each
  at most as often as it is stored.\<close>

lemma scan_sound: "mset (scan rg t) \<subseteq># filter_mset (contains rg) (contents t)"
proof (induction t)
  case (QuadTree b c pts n e s w)
  have kid: "mset (case k of None \<Rightarrow> [] | Some t \<Rightarrow> scan rg t) \<subseteq># filter_mset (contains rg) (kid_contents k)"
    if "k \<in> {n, e, s, w}" for k
    using that QuadTree.IH by (cases k) auto
  have "mset (filter (contains rg) pts
         @ (case n of None \<Rightarrow> [] | Some t \<Rightarrow> scan rg t)
         @ (case e of None \<Rightarrow> [] | Some t \<Rightarrow> scan rg t)
         @ (case s of None \<Rightarrow> [] | Some t \<Rightarrow> scan rg t)
         @ (case w of None \<Rightarrow> [] | Some t \<Rightarrow> scan rg t))
       \<subseteq># filter_mset (contains rg) (contents (QuadTree b c pts n e s w))"
    using kid [of n] kid [of e] kid [of s] kid [of w]
    by (simp add: contents_sel [of "QuadTree b c pts n e s w"] subset_mset.add_mono)
  moreover have "mset (scan rg (QuadTree b c pts n e s w)) \<subseteq>#
       mset (filter (contains rg) pts
         @ (case n of None \<Rightarrow> [] | Some t \<Rightarrow> scan rg t)
         @ (case e of None \<Rightarrow> [] | Some t \<Rightarrow> scan rg t)
         @ (case s of None \<Rightarrow> [] | Some t \<Rightarrow> scan rg t)
         @ (case w of None \<Rightarrow> [] | Some t \<Rightarrow> scan rg t))"
    by (cases n) simp_all
  ultimately show ?case
    by (rule subset_mset.order_trans [rotated])
qed

lemma faults_null_child:
  assumes "intersects (boundary t) rg" and "nw t \<noteq> None"
    and "ne t = None \<or> sw t = None \<or> se t = None"
  shows "faults rg t"
  using assms by (cases t) (auto split: option.splits)

lemma ex_shaped_inside: "shaped ex_t3" "inside ex_t3"
  using ex_well_formed(4) by (simp_all add: well_formed_parts)

lemmas ex_query = ex_run intersects_def ex_q60_def ex_q200_def query_def

section \<open>Theorems\<close>

text \<open>C2 (functional): on a tree whose nodes have four children or none and whose
  points lie inside the boundaries of the nodes above them, \<open>queryRange\<close> returns
  without a fault and appends to the vector exactly the stored points that the range
  contains, in the order buffer, NW, NE, SW, SE.\<close>

theorem queryRange_correct:
  assumes "shaped t" and "inside t"
  shows "queryRange rg t acc = Inr (acc @ filter (contains rg) (all_points t))"
  using assms by (simp add: queryRange_scan scan_filter)

theorem queryRange_correct_witness:
  "shaped ex_t3 \<and> inside ex_t3 \<and>
   queryRange ex_box ex_t3 [ex_far] = Inr [ex_far, ex_p10, ex_p20, ex_p90]"
  using queryRange_correct [of ex_t3 ex_box "[ex_far]"] by (simp add: ex_query)

text \<open>C6 (refinement): a query of a well-formed tree returns, as a multiset, the
  stored points that the range contains: duplicates are reported as often as they
  are stored.\<close>

theorem query_contents:
  assumes "well_formed k t"
  shows "\<exists>rs. query rg t = Inr rs \<and> mset rs = filter_mset (contains rg) (contents t)"
proof -
  from assms have "shaped t" "inside t"
    by (simp_all add: well_formed_parts)
  then have "query rg t = Inr (filter (contains rg) (all_points t))"
    by (simp add: query_def queryRange_scan scan_filter)
  then show ?thesis
    by (simp add: contents_def [symmetric])
qed

theorem query_contents_witness:
  "well_formed 1 ex_t3 \<and>
   (\<exists>rs. query ex_q60 ex_t3 = Inr rs \<and> mset rs = {#ex_p90#}) \<and>
   filter_mset (contains ex_q60) (contents ex_t3) = {#ex_p90#}"
  using query_contents [of 1 ex_t3 ex_q60] by (simp add: ex_query)

text \<open>C13 (functional): on any tree, well-formed or not, and any vector, a call of
  \<open>queryRange\<close> either dereferences a null child pointer or returns the vector with
  the pruned pre-order traversal appended; what the vector held is kept as a
  prefix.\<close>

theorem queryRange_append:
  "queryRange rg t acc = (if faults rg t then Inl NullDeref else Inr (acc @ scan rg t)) \<and>
   queryRange rg t acc = (case queryRange rg t [] of Inl f \<Rightarrow> Inl f | Inr rs \<Rightarrow> Inr (acc @ rs))"
  by (simp add: queryRange_char)

text \<open>C34 (roundtrip): a query over the boundary of the root of a well-formed tree
  returns every stored point.\<close>

theorem query_root_all:
  assumes "well_formed k t"
  shows "query (boundary t) t = Inr (all_points t)"
proof -
  from assms have "shaped t" "inside t"
    by (simp_all add: well_formed_parts)
  moreover from \<open>inside t\<close> have "filter (contains (boundary t)) (all_points t) = all_points t"
    by (intro filter_True_conv) (simp add: inside_contents)
  ultimately show ?thesis
    by (simp add: query_def queryRange_scan scan_filter)
qed

theorem query_root_all_witness:
  "well_formed 1 ex_t3 \<and> query (boundary ex_t3) ex_t3 = Inr (all_points ex_t3)"
  using query_root_all [OF ex_well_formed(4)] ex_well_formed(4) by simp

text \<open>C37 (error): a query that enters a node with a first child and without one of
  the other three dereferences a null pointer. (No tree built by the constructor and
  \<open>insert\<close> has such a node.)\<close>

theorem queryRange_null_child:
  assumes "intersects (boundary t) rg" and "nw t \<noteq> None"
    and "ne t = None \<or> sw t = None \<or> se t = None"
  shows "queryRange rg t acc = Inl NullDeref"
  using assms by (simp add: queryRange_char faults_null_child)

theorem queryRange_null_child_witness:
  "intersects (boundary (set_nw ex_t1 ex_t0)) ex_box \<and> nw (set_nw ex_t1 ex_t0) \<noteq> None \<and>
   ne (set_nw ex_t1 ex_t0) = None \<and> queryRange ex_box (set_nw ex_t1 ex_t0) [] = Inl NullDeref"
proof -
  have h: "intersects (boundary (set_nw ex_t1 ex_t0)) ex_box" "nw (set_nw ex_t1 ex_t0) \<noteq> None"
    "ne (set_nw ex_t1 ex_t0) = None"
    by (simp_all add: ex_t1_def intersects_def)
  from queryRange_null_child [OF h(1,2), of "[]"] h show ?thesis
    by simp
qed

text \<open>The three queries of the example of the specification, on the tree that the
  three insertions of the example build.\<close>

lemma query_example:
  "query ex_box ex_t3 = Inr [ex_p10, ex_p20, ex_p90] \<and>
   query ex_q60 ex_t3 = Inr [ex_p90] \<and>
   query ex_q200 ex_t3 = Inr []"
  by (simp add: ex_query)

end
