(* ===== verification/Index_Spec.thy ===== *)
theory Index_Spec
  imports QT_Query
begin

text \<open>
  What the quadtree promises to its caller, and that it keeps the promise.

  The abstract index is a region and a multiset of points. Its operations are those
  of the interface of the class: \<open>Insert p\<close> adds \<open>p\<close> when the region contains it and
  says whether it did, \<open>Query rg\<close> reports the points inside \<open>rg\<close>. \<open>a_step\<close> is one
  operation on the abstract index, \<open>c_step\<close> the same operation on a tree (a call of
  \<open>insert_qt\<close> or of \<open>query\<close>), \<open>a_run\<close> and \<open>c_run\<close> a sequence of operations.
  \<open>abs_qt\<close> maps a tree to the index it represents and \<open>abs_reply\<close> forgets the order
  of a reported list.

  \<^item> \<open>c_step_refines\<close>, \<open>c_run_refines\<close>: on a \<open>usable\<close> tree (well-formed, with a
    boundary that has a midpoint) every operation returns, without a fault, the
    reply of the abstract index, and leaves a usable tree that represents the
    abstract successor state.
  \<^item> \<open>reachable b k\<close> are the trees that the constructor and calls of \<open>insert\<close>
    build; by rule induction they are well-formed when \<open>k \<noteq> 0\<close>.
\<close>

section \<open>The abstract index\<close>

record Index =
  region :: BoundingBox
  items :: "Point multiset"

datatype op = Insert Point | Query BoundingBox

datatype reply = Inserted bool | Found "Point list"

datatype a_reply = AInserted bool | AFound "Point multiset"

definition a_new :: "BoundingBox \<Rightarrow> Index" where
  "a_new b = \<lparr>region = b, items = {#}\<rparr>"

fun a_step :: "op \<Rightarrow> Index \<Rightarrow> a_reply \<times> Index" where
  "a_step (Insert p) s =
     (if contains (region s) p then (AInserted True, s\<lparr>items := add_mset p (items s)\<rparr>)
      else (AInserted False, s))"
| "a_step (Query rg) s = (AFound (filter_mset (contains rg) (items s)), s)"

fun a_run :: "op list \<Rightarrow> Index \<Rightarrow> a_reply list \<times> Index" where
  "a_run [] s = ([], s)"
| "a_run (x # xs) s = (let (r, s') = a_step x s; (rs, s'') = a_run xs s' in (r # rs, s''))"

section \<open>The operations on a tree\<close>

fun c_step :: "op \<Rightarrow> QuadTree \<Rightarrow> (reply \<times> QuadTree) outcome" where
  "c_step (Insert p) t =
     Option.bind (insert_qt p t)
       (\<lambda>r. case r of Inl f \<Rightarrow> Some (Inl f) | Inr (b, t') \<Rightarrow> Some (Inr (Inserted b, t')))"
| "c_step (Query rg) t =
     (case query rg t of Inl f \<Rightarrow> Some (Inl f) | Inr rs \<Rightarrow> Some (Inr (Found rs, t)))"

fun c_run :: "op list \<Rightarrow> QuadTree \<Rightarrow> (reply list \<times> QuadTree) outcome" where
  "c_run [] t = Some (Inr ([], t))"
| "c_run (x # xs) t =
     Option.bind (c_step x t)
       (\<lambda>r. case r of Inl f \<Rightarrow> Some (Inl f) | Inr (y, t') \<Rightarrow>
          Option.bind (c_run xs t')
            (\<lambda>r'. case r' of Inl f \<Rightarrow> Some (Inl f) | Inr (ys, t'') \<Rightarrow> Some (Inr (y # ys, t''))))"

section \<open>Abstraction\<close>

definition abs_qt :: "QuadTree \<Rightarrow> Index" where
  "abs_qt t = \<lparr>region = boundary t, items = contents t\<rparr>"

fun abs_reply :: "reply \<Rightarrow> a_reply" where
  "abs_reply (Inserted b) = AInserted b"
| "abs_reply (Found ps) = AFound (mset ps)"

definition usable :: "cint \<Rightarrow> QuadTree \<Rightarrow> bool" where
  "usable k t = (well_formed k t \<and> splittable (boundary t))"

section \<open>The trees that the interface builds\<close>

inductive reachable :: "BoundingBox \<Rightarrow> cint \<Rightarrow> QuadTree \<Rightarrow> bool" for b k where
  fresh: "reachable b k (new_QuadTree b k)"
| insert: "reachable b k t \<Longrightarrow> returns (insert_qt p t) (ok, t') \<Longrightarrow> reachable b k t'"

section \<open>Lemmas\<close>

lemma abs_qt_sel [simp]: "region (abs_qt t) = boundary t" "items (abs_qt t) = contents t"
  by (simp_all add: abs_qt_def)

lemma abs_qt_new [simp]: "abs_qt (new_QuadTree b k) = a_new b"
  by (simp add: abs_qt_def a_new_def)

lemma usable_new: "usable k (new_QuadTree b k) \<longleftrightarrow> k \<noteq> 0 \<and> splittable b"
  by (simp add: usable_def well_formed_new)

lemma usableD: "usable k t \<Longrightarrow> well_formed k t" "usable k t \<Longrightarrow> splittable (boundary t)"
  by (simp_all add: usable_def)

lemma c_step_insert:
  assumes "usable k t"
  shows "\<exists>t'. c_step (Insert p) t = Some (Inr (Inserted (contains (boundary t) p), t')) \<and>
    usable k t' \<and> abs_qt t' = snd (a_step (Insert p) (abs_qt t))"
proof -
  from usableD(1) [OF assms] obtain b t' where
    r: "insert_qt p t = Some (Inr (b, t'))" "well_formed k t'" "boundary t' = boundary t"
      "contents t' = contents t + (if b then {#p#} else {#})"
      "b \<Longrightarrow> contains (boundary t) p"
      "splittable (boundary t) \<Longrightarrow> contains (boundary t) p \<Longrightarrow> b"
    by (rule insert_qt_total [of k t p]) blast
  with usableD(2) [OF assms] have b: "b = contains (boundary t) p"
    by blast
  with r assms show ?thesis
    by (auto simp: usable_def abs_qt_def)
qed

lemma c_step_query:
  assumes "usable k t"
  shows "\<exists>rs. c_step (Query rg) t = Some (Inr (Found rs, t)) \<and>
    mset rs = filter_mset (contains rg) (contents t)"
proof -
  from usableD(1) [OF assms] have "shaped t" "inside t"
    by (simp_all add: well_formed_parts)
  then have "query rg t = Inr (filter (contains rg) (all_points t))"
    by (simp add: query_def queryRange_scan scan_filter)
  then show ?thesis
    by (simp add: contents_def [symmetric])
qed

lemma c_step_simulates:
  assumes "usable k t"
  shows "\<exists>r t'. c_step x t = Some (Inr (r, t')) \<and> usable k t' \<and>
    (abs_reply r, abs_qt t') = a_step x (abs_qt t)"
proof (cases x)
  case (Insert p)
  with c_step_insert [OF assms, of p] show ?thesis
    by auto
next
  case (Query rg)
  with c_step_query [OF assms, of rg] assms show ?thesis
    by auto
qed

lemma c_run_simulates:
  assumes "usable k t"
  shows "\<exists>rs t'. c_run xs t = Some (Inr (rs, t')) \<and> usable k t' \<and>
    (map abs_reply rs, abs_qt t') = a_run xs (abs_qt t)"
  using assms
proof (induction xs arbitrary: t)
  case Nil
  then show ?case by simp
next
  case (Cons x xs)
  from c_step_simulates [OF Cons.prems, of x] obtain r t' where
    step: "c_step x t = Some (Inr (r, t'))" "usable k t'" "(abs_reply r, abs_qt t') = a_step x (abs_qt t)"
    by blast
  from Cons.IH [OF step(2)] obtain rs t'' where
    run: "c_run xs t' = Some (Inr (rs, t''))" "usable k t''"
      "(map abs_reply rs, abs_qt t'') = a_run xs (abs_qt t')"
    by blast
  from step run show ?case
    by (simp add: step(3) [symmetric] run(3) [symmetric])
qed

lemma reachable_invariant:
  assumes "reachable b k t" and "k \<noteq> 0"
  shows "well_formed k t \<and> boundary t = b"
  using assms(1)
proof (induction rule: reachable.induct)
  case fresh
  then show ?case
    by (simp add: well_formed_new assms(2))
next
  case (insert t p ok t')
  then have wf: "well_formed k t" and b: "boundary t = b"
    by simp_all
  from wf obtain ok' t'' where "insert_qt p t = Some (Inr (ok', t''))" "well_formed k t''"
    "boundary t'' = boundary t"
    by (rule insert_qt_total [of k t p]) blast
  with insert.hyps(2) b show ?case
    by (simp add: returns_def)
qed

lemma ex_reachable: "reachable ex_box 1 ex_t0" "reachable ex_box 1 ex_t1" "reachable ex_box 1 ex_t2"
proof -
  show 0: "reachable ex_box 1 ex_t0"
    unfolding ex_t0_def by (rule reachable.fresh)
  from 0 ex_inserts(1) show 1: "reachable ex_box 1 ex_t1"
    by (rule reachable.insert)
  from 1 ex_inserts(2) show "reachable ex_box 1 ex_t2"
    by (rule reachable.insert)
qed

section \<open>Theorems\<close>

text \<open>C8 (refinement): from the constructor on, with a capacity that is not zero and
  a boundary that has a midpoint, every sequence of insertions and queries returns
  without a fault; the replies are those of the abstract index (a query reports the
  right points in some order), and the tree left represents the abstract state.\<close>

theorem c_run_refines:
  assumes "k \<noteq> 0" and "splittable b"
  shows "\<exists>rs t'. returns (c_run xs (new_QuadTree b k)) (rs, t') \<and> well_formed k t' \<and>
    map abs_reply rs = fst (a_run xs (a_new b)) \<and> abs_qt t' = snd (a_run xs (a_new b))"
proof -
  from assms have "usable k (new_QuadTree b k)"
    by (simp add: usable_new)
  from c_run_simulates [OF this, of xs] obtain rs t' where
    "c_run xs (new_QuadTree b k) = Some (Inr (rs, t'))" "usable k t'"
    "(map abs_reply rs, abs_qt t') = a_run xs (a_new b)"
    by auto
  then show ?thesis
    by (intro exI [of _ rs] exI [of _ t']) (simp add: usableD(1) prod_eq_iff)
qed

theorem c_run_refines_witness:
  "(1 :: cint) \<noteq> 0 \<and> splittable ex_box \<and>
   returns (c_run [Insert ex_p10, Insert ex_far, Insert ex_p20, Query ex_box] (new_QuadTree ex_box 1))
     ([Inserted True, Inserted False, Inserted True, Found [ex_p10, ex_p20]], ex_t2) \<and>
   a_run [Insert ex_p10, Insert ex_far, Insert ex_p20, Query ex_box] (a_new ex_box) =
     ([AInserted True, AInserted False, AInserted True, AFound {#ex_p10, ex_p20#}], abs_qt ex_t2)"
  using c_run_refines [of 1 ex_box "[Insert ex_p10, Insert ex_far, Insert ex_p20, Query ex_box]"]
  by (simp add: ex_query splittable_def a_new_def abs_qt_def)

text \<open>C21 (invariant): every tree that the constructor and calls of \<open>insert\<close> build,
  with a capacity that is not zero, is well-formed, and has the boundary and the
  capacity that the constructor was given.\<close>

theorem reachable_well_formed:
  assumes "reachable b k t" and "k \<noteq> 0"
  shows "well_formed k t \<and> boundary t = b \<and> capacity t = k"
  using reachable_invariant [OF assms] by (simp add: well_formed_parts)

theorem reachable_well_formed_witness:
  "reachable ex_box 1 ex_t2 \<and> (1 :: cint) \<noteq> 0 \<and>
   well_formed 1 ex_t2 \<and> boundary ex_t2 = ex_box \<and> capacity ex_t2 = 1"
  using reachable_well_formed [OF ex_reachable(3)] ex_reachable(3) by simp

text \<open>C22 (safety): on a tree that the constructor and calls of \<open>insert\<close> built, with a
  capacity that is not zero, no call of \<open>insert\<close> or \<open>queryRange\<close> dereferences a null
  pointer, and every call returns.\<close>

theorem reachable_safe:
  assumes "reachable b k t" and "k \<noteq> 0"
  shows "(\<exists>ok t'. returns (insert_qt p t) (ok, t') \<and> reachable b k t') \<and>
    (\<exists>rs. queryRange rg t acc = Inr rs)"
proof -
  from reachable_invariant [OF assms] have wf: "well_formed k t"
    by simp
  then obtain ok t' where r: "insert_qt p t = Some (Inr (ok, t'))"
    by (rule insert_qt_total [of k t p])
  then have "returns (insert_qt p t) (ok, t')"
    by (simp add: returns_def)
  with assms(1) have "returns (insert_qt p t) (ok, t') \<and> reachable b k t'"
    by (blast intro: reachable.insert)
  moreover from wf have "queryRange rg t acc = Inr (acc @ scan rg t)"
    by (simp add: queryRange_scan well_formed_parts)
  ultimately show ?thesis
    by blast
qed

theorem reachable_safe_witness:
  "reachable ex_box 1 ex_t1 \<and> (1 :: cint) \<noteq> 0 \<and>
   (\<exists>ok t'. returns (insert_qt ex_p20 ex_t1) (ok, t') \<and> reachable ex_box 1 t') \<and>
   (\<exists>rs. queryRange ex_box ex_t1 [] = Inr rs)"
  using reachable_safe [OF ex_reachable(2), of ex_p20 ex_box "[]"] ex_reachable(2) by simp

end
