(* ===== verification/Driver.thy ===== *)
theory Driver
  imports Index_Spec
begin

text \<open>
  The part of \<open>main\<close> (\<open>src/Code.cpp\<close>, lines 88 to 138) that uses the tree.

  \<^item> The parameters: \<open>min_coord\<close>, \<open>max_coord\<close>, \<open>query_size\<close>, the boundary of the root
    and the capacity.
  \<^item> \<open>insert_all\<close> is the loop of lines 109 to 111: it inserts the points in order and
    discards what \<open>insert\<close> returns. \<open>build\<close> is the construction of the tree followed
    by this loop.
  \<^item> \<open>query_range\<close> is the box of line 118 around a centre, computed in \<open>double\<close>
    arithmetic, and \<open>run_query\<close> the body of the query loop without the clock.

  The data and the centres of the queries come from \<open>rand()\<close> in the program; here
  they are arguments, and the lemmas hold for all of them.
\<close>

section \<open>Parameters\<close>

definition min_coord :: double where
  "min_coord = Fin 0"

definition max_coord :: double where
  "max_coord = Fin 1000"

definition query_size :: double where
  "query_size = Fin 10"

definition main_boundary :: BoundingBox where
  "main_boundary = \<lparr>box_x1 = min_coord, box_y1 = min_coord, box_x2 = max_coord, box_y2 = max_coord\<rparr>"

definition main_capacity :: cint where
  "main_capacity = 4"

section \<open>Building and querying\<close>

fun insert_all :: "Point list \<Rightarrow> QuadTree \<Rightarrow> QuadTree outcome" where
  "insert_all [] t = Some (Inr t)"
| "insert_all (p # ps) t =
     Option.bind (insert_qt p t)
       (\<lambda>r. case r of Inl f \<Rightarrow> Some (Inl f) | Inr (ok, t') \<Rightarrow> insert_all ps t')"

definition build :: "Point list \<Rightarrow> QuadTree outcome" where
  "build data = insert_all data (new_QuadTree main_boundary main_capacity)"

definition query_range :: "double \<Rightarrow> double \<Rightarrow> BoundingBox" where
  "query_range x y =
     \<lparr>box_x1 = d_sub x (d_half query_size), box_y1 = d_sub y (d_half query_size),
      box_x2 = d_add x (d_half query_size), box_y2 = d_add y (d_half query_size)\<rparr>"

definition run_query :: "double \<Rightarrow> double \<Rightarrow> QuadTree \<Rightarrow> Point list result" where
  "run_query x y t = query (query_range x y) t"

lemmas driver_defs [qt_eval] =
  min_coord_def max_coord_def query_size_def main_boundary_def main_capacity_def build_def
  query_range_def run_query_def

section \<open>Lemmas\<close>

lemma main_boundary_sel [simp]:
  "box_x1 main_boundary = Fin 0" "box_y1 main_boundary = Fin 0"
  "box_x2 main_boundary = Fin 1000" "box_y2 main_boundary = Fin 1000"
  by (simp_all add: main_boundary_def min_coord_def max_coord_def)

lemma main_mids [simp]: "x_mid main_boundary = Fin 500" "y_mid main_boundary = Fin 500"
  by (simp_all add: x_mid_def y_mid_def dbl_eval)

lemma main_splittable: "splittable main_boundary"
  by (simp add: splittable_def)

lemma main_usable: "usable main_capacity (new_QuadTree main_boundary main_capacity)"
  by (simp add: usable_new main_splittable main_capacity_def)

lemma half_query_size [simp]: "d_half query_size = Fin 5"
  by (simp add: query_size_def dbl_eval)

lemma query_range_sel [simp]:
  "box_x1 (query_range x y) = d_sub x (Fin 5)" "box_y1 (query_range x y) = d_sub y (Fin 5)"
  "box_x2 (query_range x y) = d_add x (Fin 5)" "box_y2 (query_range x y) = d_add y (Fin 5)"
  by (simp_all add: query_range_def)

text \<open>The loop of insertions on a usable tree: it ends, and it stores the points that
  the boundary contains and no others.\<close>

lemma insert_all_total:
  assumes "usable k t"
  obtains t' where "insert_all ps t = Some (Inr t')" and "usable k t'"
    and "boundary t' = boundary t"
    and "contents t' = contents t + filter_mset (contains (boundary t)) (mset ps)"
proof -
  have "\<exists>t'. insert_all ps t = Some (Inr t') \<and> usable k t' \<and> boundary t' = boundary t \<and>
      contents t' = contents t + filter_mset (contains (boundary t)) (mset ps)"
    using assms
  proof (induction ps arbitrary: t)
    case Nil
    then show ?case by simp
  next
    case (Cons p ps)
    from usableD(1) [OF Cons.prems] obtain b t1 where
      step: "insert_qt p t = Some (Inr (b, t1))" "well_formed k t1" "boundary t1 = boundary t"
        "contents t1 = contents t + (if b then {#p#} else {#})"
        "b \<Longrightarrow> contains (boundary t) p"
        "splittable (boundary t) \<Longrightarrow> contains (boundary t) p \<Longrightarrow> b"
      by (rule insert_qt_total [of k t p]) blast
    from step(5,6) usableD(2) [OF Cons.prems] have b: "b = contains (boundary t) p"
      by blast
    from step(2,3) Cons.prems have "usable k t1"
      by (simp add: usable_def)
    from Cons.IH [OF this] step(1,3,4) b show ?case
      by auto
  qed
  then show thesis
    using that by blast
qed

lemma query_usable:
  assumes "usable k t"
  shows "\<exists>rs. query rg t = Inr rs \<and> mset rs = filter_mset (contains rg) (contents t)"
  using c_step_query [OF assms, of rg] by (auto split: sum.splits)

section \<open>Theorems\<close>

text \<open>C25 (functional): the loop of insertions, run on a well-formed tree whose
  boundary has a midpoint, ends without a fault and leaves a well-formed tree that
  stores, besides what it stored, the points of the list that the boundary contains,
  as often as they occur. The points outside the boundary are dropped: the loop
  discards what \<open>insert\<close> returns.\<close>

theorem insert_all_contents:
  assumes "well_formed k t" and "splittable (boundary t)"
  shows "\<exists>t'. returns (insert_all ps t) t' \<and> well_formed k t' \<and>
    contents t' = contents t + filter_mset (contains (boundary t)) (mset ps)"
proof -
  from assms have "usable k t"
    by (simp add: usable_def)
  then obtain t' where "insert_all ps t = Some (Inr t')" "usable k t'"
    "contents t' = contents t + filter_mset (contains (boundary t)) (mset ps)"
    by (rule insert_all_total [of k t ps])
  then show ?thesis
    by (auto simp: usable_def)
qed

theorem insert_all_contents_witness:
  "well_formed 1 ex_t0 \<and> splittable (boundary ex_t0) \<and>
   returns (insert_all [ex_p10, ex_far, ex_p20] ex_t0) ex_t2 \<and> well_formed 1 ex_t2 \<and>
   contents ex_t2 = contents ex_t0 + filter_mset (contains (boundary ex_t0)) (mset [ex_p10, ex_far, ex_p20])"
  using insert_all_contents [of 1 ex_t0 "[ex_p10, ex_far, ex_p20]"]
  by (simp add: ex_run splittable_def)

end
