(* ===== verification/Tiling.thy ===== *)
theory Tiling
  imports Geometry
begin

text \<open>
  The regions that \<open>subdivide\<close> computes (\<open>src/Code.cpp\<close>, lines 79 to 84), in binary64
  arithmetic. A box is \<open>safe\<close> when its corners are binary64 numbers of magnitude
  below \<open>2\<^sup>1\<^sup>0\<^sup>2\<^sup>3\<close> in the right order: then the midpoints are computed without
  overflow and lie between the corners, so the four quadrants are safe boxes inside
  the box and a point lies in the box exactly when it lies in a quadrant. \<open>sub_box\<close>
  is the inclusion of boxes.
\<close>

section \<open>Predicates on coordinates, points and boxes\<close>

definition safe_coord :: "double \<Rightarrow> bool" where
  "safe_coord d = (case d of Fin r \<Rightarrow> is_double d \<and> - (2 ^ 1023) < r \<and> r < 2 ^ 1023 | _ \<Rightarrow> False)"

definition safe_box :: "BoundingBox \<Rightarrow> bool" where
  "safe_box b = (safe_coord (box_x1 b) \<and> safe_coord (box_y1 b) \<and> safe_coord (box_x2 b) \<and>
     safe_coord (box_y2 b) \<and> ordered_box b)"

definition sub_box :: "BoundingBox \<Rightarrow> BoundingBox \<Rightarrow> bool" where
  "sub_box a b = (d_le (box_x1 b) (box_x1 a) \<and> d_le (box_x2 a) (box_x2 b) \<and>
     d_le (box_y1 b) (box_y1 a) \<and> d_le (box_y2 a) (box_y2 b))"

section \<open>Safe coordinates\<close>

lemma safe_coordE:
  assumes "safe_coord d"
  obtains r where "d = Fin r" and "is_double (Fin r)" and "- (2 ^ 1023) < r" and "r < 2 ^ 1023"
  using assms by (cases d) (simp_all add: safe_coord_def)

lemma safe_coord_Fin: "safe_coord (Fin r) \<longleftrightarrow> is_double (Fin r) \<and> - (2 ^ 1023) < r \<and> r < 2 ^ 1023"
  by (simp add: safe_coord_def)

lemma safe_coord_is_double: "safe_coord d \<Longrightarrow> is_double d"
  by (auto elim: safe_coordE)

lemma safe_coord_not_NaN: "safe_coord d \<Longrightarrow> d \<noteq> NaN"
  by (auto elim: safe_coordE)

text \<open>The midpoint of two safe coordinates in the right order is a safe coordinate
  between them.\<close>

lemma safe_mid:
  assumes "safe_coord a" and "safe_coord b" and "d_le a b"
  shows "safe_coord (d_mid a b)" "d_le a (d_mid a b)" "d_le (d_mid a b) b"
proof -
  from assms(1) obtain x where x: "a = Fin x" "is_double (Fin x)" "- (2 ^ 1023) < x" "x < 2 ^ 1023"
    by (rule safe_coordE)
  from assms(2) obtain y where y: "b = Fin y" "is_double (Fin y)" "- (2 ^ 1023) < y" "y < 2 ^ 1023"
    by (rule safe_coordE)
  from assms(3) have "x \<le> y"
    by (simp add: x y)
  with x(2) y(2) obtain m where m: "d_mid (Fin x) (Fin y) = Fin m" "x \<le> m" "m \<le> y" "is_double (Fin m)"
    using x(3) y(4) by (rule d_mid_between)
  with x y show "safe_coord (d_mid a b)" "d_le a (d_mid a b)" "d_le (d_mid a b) b"
    by (simp_all add: safe_coord_Fin)
qed

section \<open>Inclusion of boxes\<close>

lemma sub_box_refl: "safe_box b \<Longrightarrow> sub_box b b"
  by (auto simp: sub_box_def safe_box_def dest: safe_coord_not_NaN)

lemma sub_box_trans: "sub_box a b \<Longrightarrow> sub_box b c \<Longrightarrow> sub_box a c"
  by (auto simp: sub_box_def intro: d_le_trans)

lemma sub_box_contains: "sub_box a b \<Longrightarrow> contains a p \<Longrightarrow> contains b p"
  by (auto simp: sub_box_def contains_iff intro: d_le_trans)

section \<open>The quadrants of a safe box\<close>

lemma safe_box_mids:
  assumes "safe_box b"
  shows "safe_coord (x_mid b)" "d_le (box_x1 b) (x_mid b)" "d_le (x_mid b) (box_x2 b)"
    and "safe_coord (y_mid b)" "d_le (box_y1 b) (y_mid b)" "d_le (y_mid b) (box_y2 b)"
  using assms unfolding safe_box_def ordered_box_def x_mid_def y_mid_def
  by (simp_all add: safe_mid)

lemma safe_box_splittable: "safe_box b \<Longrightarrow> splittable b"
  using safe_box_mids(1,4) [of b] by (auto simp: splittable_def safe_coord_def)

lemma safe_box_quadrants:
  assumes "safe_box b"
  shows "safe_box (nw_box b)" "safe_box (ne_box b)" "safe_box (sw_box b)" "safe_box (se_box b)"
  using assms safe_box_mids [OF assms] by (simp_all add: safe_box_def ordered_box_def)

lemma quadrants_sub_box:
  assumes "safe_box b"
  shows "sub_box (nw_box b) b" "sub_box (ne_box b) b" "sub_box (sw_box b) b" "sub_box (se_box b) b"
  using assms safe_box_mids [OF assms]
  by (auto simp: safe_box_def sub_box_def dest: safe_coord_not_NaN)

lemma ex_box_safe: "safe_box ex_box"
  by (simp add: safe_box_def safe_coord_def ordered_box_def ex_box_def dbl_eval)

text \<open>C18 (functional): the quadrants tile the region. For a box with binary64
  corners of magnitude below \<open>2\<^sup>1\<^sup>0\<^sup>2\<^sup>3\<close> in the right order, a point lies in the box
  exactly when it lies in one of the four quadrants that \<open>subdivide\<close> computes: no
  quadrant reaches outside the box, and together they leave no gap.\<close>

theorem quadrants_tile:
  assumes "safe_box b"
  shows "contains b p \<longleftrightarrow>
    contains (nw_box b) p \<or> contains (ne_box b) p \<or> contains (sw_box b) p \<or> contains (se_box b) p"
  using quadrants_cover [of b p] quadrants_sub_box [OF assms] safe_box_splittable [OF assms]
  by (auto dest: sub_box_contains)

theorem quadrants_tile_witness:
  "safe_box ex_box \<and> contains ex_box ex_p90 \<and> \<not> contains (nw_box ex_box) ex_p90 \<and>
   contains (se_box ex_box) ex_p90"
  using quadrants_tile [of ex_box ex_p90]
  by (simp add: safe_box_def safe_coord_def ordered_box_def contains_def se_box_def nw_box_def
      ex_p90_def dbl_eval)

end
