(* ===== verification/QT_Regions.thy ===== *)
theory QT_Regions
  imports Index_Spec Tiling
begin

text \<open>
  The regions of a whole tree. \<open>kids\<close> are the children of a node. \<open>nested b\<close> says
  that the boundary of every node is a safe box inside \<open>b\<close>. It follows from the
  invariant \<open>tiled\<close> of \<open>QuadTree\<close> and the lemmas of \<open>Tiling\<close> by \<open>every_inherited\<close>: a
  property of the root that children inherit holds of every node.
\<close>

section \<open>Definitions\<close>

definition kids :: "QuadTree \<Rightarrow> QuadTree set" where
  "kids t = set_option (nw t) \<union> set_option (ne t) \<union> set_option (sw t) \<union> set_option (se t)"

definition nested :: "BoundingBox \<Rightarrow> QuadTree \<Rightarrow> bool" where
  "nested b = every (\<lambda>n. safe_box (boundary n) \<and> sub_box (boundary n) b)"

section \<open>Properties that children inherit\<close>

lemma kids_sel [simp]:
  "kids (QuadTree b c pts n e s w) = set_option n \<union> set_option e \<union> set_option s \<union> set_option w"
  by (simp add: kids_def)

lemma kidsE:
  assumes "c \<in> kids t"
  obtains "nw t = Some c" | "ne t = Some c" | "sw t = Some c" | "se t = Some c"
  using assms by (auto simp: kids_def)

lemma every_inherited:
  assumes step: "\<And>t c. Q t \<Longrightarrow> c \<in> kids t \<Longrightarrow> Q c"
  shows "Q t \<Longrightarrow> every Q t"
proof (induction t)
  case (QuadTree b c pts n e s w)
  from step [OF QuadTree.prems] have "\<And>x. x \<in> set_option n \<union> set_option e \<union> set_option s \<union> set_option w \<Longrightarrow> Q x"
    by simp
  with QuadTree show ?case
    by (auto split: option.splits)
qed

lemma tiled_kid:
  assumes "tiled t" and "c \<in> kids t"
  shows "tiled c"
    and "boundary c \<in> {nw_box (boundary t), ne_box (boundary t), sw_box (boundary t), se_box (boundary t)}"
proof -
  from assms show "tiled c"
    unfolding tiled_def by (auto elim!: kidsE dest: every_kid)
  from assms(1) have "tiled_node t"
    unfolding tiled_def by (rule every_root)
  with assms(2) show "boundary c \<in> {nw_box (boundary t), ne_box (boundary t), sw_box (boundary t), se_box (boundary t)}"
    by (auto simp: tiled_node_def elim!: kidsE)
qed

section \<open>Nested regions\<close>

lemma tiled_nested:
  assumes "tiled t" and "safe_box (boundary t)"
  shows "nested (boundary t) t"
proof -
  let ?Q = "\<lambda>n. tiled n \<and> safe_box (boundary n) \<and> sub_box (boundary n) (boundary t)"
  have "?Q c" if "?Q n" and "c \<in> kids n" for n c
  proof -
    from that tiled_kid [of n c] have "tiled c"
      and "boundary c \<in> {nw_box (boundary n), ne_box (boundary n), sw_box (boundary n), se_box (boundary n)}"
      by simp_all
    with that(1) safe_box_quadrants [of "boundary n"] quadrants_sub_box [of "boundary n"]
    show ?thesis
      by (auto intro: sub_box_trans)
  qed
  moreover from assms have "?Q t"
    by (simp add: sub_box_refl)
  ultimately have "every ?Q t"
    by (rule every_inherited [of ?Q])
  then show ?thesis
    unfolding nested_def by (rule every_mono [rotated]) simp
qed

section \<open>The regions of the trees that \<open>insert\<close> builds\<close>

text \<open>C19 (invariant): the regions of a tree are nested. In every tree that the
  constructor and calls of \<open>insert\<close> build over a safe box \<open>b\<close> (binary64 corners of
  magnitude below \<open>2\<^sup>1\<^sup>0\<^sup>2\<^sup>3\<close>, in the right order), the boundary of every node is again
  a safe box and lies inside \<open>b\<close>: rounding of the midpoints never moves a quadrant
  out of its parent.\<close>

theorem reachable_nested:
  assumes "reachable b k t" and "k \<noteq> 0" and "safe_box b"
  shows "nested b t"
  using reachable_invariant [OF assms(1,2)] assms(3) tiled_nested [of t]
  by (auto simp: well_formed_parts)

theorem reachable_nested_witness:
  "reachable ex_box 1 ex_t2 \<and> (1 :: cint) \<noteq> 0 \<and> safe_box ex_box \<and> nested ex_box ex_t2"
  using reachable_nested [OF ex_reachable(3) _ ex_box_safe] ex_reachable(3) ex_box_safe by simp

end
