(* ===== verification/Experiment.thy ===== *)
theory Experiment
  imports Driver QT_Regions
begin

text \<open>
  The experiment of \<open>main\<close> (\<open>src/Code.cpp\<close>, lines 88 to 138) around the tree: the
  data set (lines 97 to 102), the centres of the queries (lines 116 and 117), the
  loop of the queries (lines 115 to 125), and the average of the timings (lines 124
  and 128 to 132).

  What the program takes from its environment is an argument of the model:
  \<open>rmax\<close> is the constant \<open>RAND_MAX\<close> of the C library, \<open>rand k\<close> is the result of call
  number \<open>k\<close> of \<open>rand()\<close>, and \<open>dur i\<close> is the number of microseconds that the clock
  measures for query \<open>i\<close>. The C standard promises \<open>0 \<le> rand() \<le> RAND_MAX\<close>; the
  theorems assume this and nothing else about the three.
\<close>

section \<open>Parameters\<close>

definition num_points :: cint where
  "num_points = 1000000"

definition num_queries :: cint where
  "num_queries = 1000"

section \<open>Random coordinates\<close>

text \<open>The expression \<open>min_coord + (max_coord - min_coord) * rand() / RAND_MAX\<close>, with the
  two integers converted to \<open>double\<close>; the product is divided, then the sum is formed.\<close>

definition coord :: "cint \<Rightarrow> cint \<Rightarrow> double" where
  "coord rmax r =
     d_add min_coord
       (d_div (d_mul (d_sub max_coord min_coord) (d_of_int (sint r))) (d_of_int (sint rmax)))"

definition gen_point :: "cint \<Rightarrow> cint \<Rightarrow> cint \<Rightarrow> Point" where
  "gen_point rmax rx ry = \<lparr>pt_x = coord rmax rx, pt_y = coord rmax ry\<rparr>"

text \<open>The data set: a vector of \<open>n\<close> default points, then element \<open>i\<close> is assigned the
  point of the calls \<open>2 i\<close> and \<open>2 i + 1\<close> of \<open>rand()\<close>.\<close>

definition gen_data :: "cint \<Rightarrow> (nat \<Rightarrow> cint) \<Rightarrow> nat \<Rightarrow> Point list" where
  "gen_data rmax rand n =
     fold (\<lambda>i data. data[i := gen_point rmax (rand (2 * i)) (rand (2 * i + 1))]) [0..<n]
       (replicate n Point0)"

section \<open>The loop of the queries\<close>

text \<open>Query \<open>i\<close> is centred at the point of the next two calls of \<open>rand()\<close>, after the \<open>k\<close>
  calls that generated the data; the model keeps the results that the program drops.\<close>

definition run_queries ::
  "cint \<Rightarrow> (nat \<Rightarrow> cint) \<Rightarrow> nat \<Rightarrow> nat \<Rightarrow> QuadTree \<Rightarrow> Point list result list" where
  "run_queries rmax rand k n t =
     map (\<lambda>i. run_query (coord rmax (rand (k + 2 * i))) (coord rmax (rand (k + 2 * i + 1))) t)
       [0..<n]"

section \<open>Timings\<close>

text \<open>\<open>query_times[i] = duration / 1e6\<close> on a vector of \<open>n\<close> zeros.\<close>

definition query_times :: "(nat \<Rightarrow> clong) \<Rightarrow> nat \<Rightarrow> double list" where
  "query_times dur n =
     fold (\<lambda>i ts. ts[i := d_div (d_of_int (sint (dur i))) (Fin 1000000)]) [0..<n]
       (replicate n (Fin 0))"

definition total_time :: "double list \<Rightarrow> nat \<Rightarrow> double" where
  "total_time ts n = fold (\<lambda>i total. d_add total (ts ! i)) [0..<n] (Fin 0)"

definition avg_time :: "double list \<Rightarrow> cint \<Rightarrow> double" where
  "avg_time ts n = d_div (total_time ts (nat (sint n))) (d_of_int (sint n))"

text \<open>A finite binary64 value between two bounds.\<close>

definition ranged :: "rat \<Rightarrow> rat \<Rightarrow> double \<Rightarrow> bool" where
  "ranged lo hi d = (case d of Fin r \<Rightarrow> lo \<le> r \<and> r \<le> hi \<and> is_double d | _ \<Rightarrow> False)"

section \<open>The whole run\<close>

text \<open>\<open>main\<close> from the data set to the number it prints: the average of the timings,
  unless building the tree or a query faults or does not return.\<close>

definition main_run :: "cint \<Rightarrow> (nat \<Rightarrow> cint) \<Rightarrow> (nat \<Rightarrow> clong) \<Rightarrow> double outcome" where
  "main_run rmax rand dur =
     (let np = nat (sint num_points); nq = nat (sint num_queries) in
      Option.bind (build (gen_data rmax rand np))
        (\<lambda>r. case r of
            Inl f \<Rightarrow> Some (Inl f)
          | Inr t \<Rightarrow>
              if list_ex isl (run_queries rmax rand (2 * np) nq t)
              then Some (Inl NullDeref)
              else Some (Inr (avg_time (query_times dur nq) num_queries))))"

section \<open>Lemmas on the coordinates\<close>

lemma sint_num [simp]: "sint num_points = 1000000" "sint num_queries = 1000"
  by (simp_all add: num_points_def num_queries_def)

lemma d_of_cint: "d_of_int (sint (r :: cint)) = Fin (of_int (sint r))"
  using sint_cint_bounds [of r] by (intro d_of_int_exact) simp

lemma coord_span [simp]: "d_sub max_coord min_coord = Fin 1000"
  by (simp add: max_coord_def min_coord_def dbl_eval)

lemma d_mul_cint:
  assumes "\<bar>n\<bar> \<le> 2 ^ 20"
  shows "d_mul (Fin (of_int n)) (Fin (of_int (sint (r :: cint)))) = Fin (of_int (n * sint r))"
proof -
  from assms sint_cint_bounds [of r] have "\<bar>n * sint r\<bar> \<le> 2 ^ 20 * 2 ^ 31"
    unfolding abs_mult by (intro mult_mono) simp_all
  then have "is_double (Fin (of_int (n * sint r)))"
    by (intro is_double_int) simp
  then show ?thesis
    by (simp add: round_double_exact)
qed

lemma scaled_ratio_bounds:
  fixes a b :: int
  assumes "0 \<le> a" and "a \<le> b" and "0 < b"
  shows "0 \<le> (of_int (1000 * a) / of_int b :: rat)" "(of_int (1000 * a) / of_int b :: rat) \<le> 1000"
proof -
  from assms have "(0 :: rat) \<le> of_int a" "(of_int a :: rat) \<le> of_int b" "(0 :: rat) < of_int b"
    by simp_all
  then show "0 \<le> (of_int (1000 * a) / of_int b :: rat)" "(of_int (1000 * a) / of_int b :: rat) \<le> 1000"
    by (simp_all add: pos_divide_le_eq)
qed

text \<open>A generated coordinate is a binary64 number between \<open>0\<close> and \<open>1000\<close>.\<close>

lemma coord_cases:
  assumes "0 \<le> sint r" and "sint r \<le> sint rmax" and "0 < sint rmax"
  obtains c where "coord rmax r = Fin c" and "0 \<le> c" and "c \<le> 1000" and "is_double (Fin c)"
proof -
  define q :: rat where "q = of_int (1000 * sint r) / of_int (sint rmax)"
  from assms have q: "0 \<le> q" "q \<le> 1000"
    unfolding q_def by (rule scaled_ratio_bounds)+
  have "is_double (Fin 0)" "is_double (Fin 1000)"
    using is_double_int [of 1000] by simp_all
  then obtain c where c: "round_double q = Fin c" "0 \<le> c" "c \<le> 1000" "is_double (Fin c)"
    using q by (rule round_double_between)
  have mul: "d_mul (Fin 1000) (Fin (of_int (sint r))) = Fin (of_int (1000 * sint r))"
    using d_mul_cint [of 1000 r] by simp
  from assms(3) have "(0 :: rat) < of_int (sint rmax)"
    by (simp only: of_int_0_less_iff)
  then have nz: "(of_int (sint rmax) :: rat) \<noteq> 0"
    by simp
  have "coord rmax r = d_add (Fin 0) (round_double q)"
    unfolding coord_def coord_span d_of_cint mul q_def
    by (simp only: min_coord_def d_div.simps nz if_False)
  with c show thesis
    by (intro that [of c]) (simp_all add: round_double_exact)
qed

section \<open>Lemmas on the data set\<close>

lemma gen_data_map:
  "gen_data rmax rand n = map (\<lambda>i. gen_point rmax (rand (2 * i)) (rand (2 * i + 1))) [0..<n]"
  unfolding gen_data_def by (rule fold_update_replicate)

lemma length_gen_data [simp]: "length (gen_data rmax rand n) = n"
  by (simp add: gen_data_map)

lemma gen_point_inside:
  assumes "0 < sint rmax" and "0 \<le> sint rx \<and> sint rx \<le> sint rmax"
    and "0 \<le> sint ry \<and> sint ry \<le> sint rmax"
  shows "contains main_boundary (gen_point rmax rx ry)"
proof -
  from assms obtain x where x: "coord rmax rx = Fin x" "0 \<le> x" "x \<le> 1000" "is_double (Fin x)"
    by (auto elim: coord_cases [of rx rmax])
  from assms obtain y where y: "coord rmax ry = Fin y" "0 \<le> y" "y \<le> 1000" "is_double (Fin y)"
    by (auto elim: coord_cases [of ry rmax])
  from x y show ?thesis
    by (simp add: gen_point_def contains_iff)
qed

lemma gen_data_inside:
  assumes "0 < sint rmax" and "\<forall>k. 0 \<le> sint (rand k) \<and> sint (rand k) \<le> sint rmax"
  shows "\<forall>p \<in> set (gen_data rmax rand n). contains main_boundary p"
  using assms by (auto simp: gen_data_map intro: gen_point_inside)

text \<open>The tree of the experiment: it is built without a fault and stores the data.\<close>

lemma build_gen_data:
  assumes "0 < sint rmax" and "\<forall>k. 0 \<le> sint (rand k) \<and> sint (rand k) \<le> sint rmax"
  obtains t where "build (gen_data rmax rand n) = Some (Inr t)" and "usable main_capacity t"
    and "boundary t = main_boundary" and "contents t = mset (gen_data rmax rand n)"
proof -
  let ?data = "gen_data rmax rand n"
  from main_usable obtain t where t: "insert_all ?data (new_QuadTree main_boundary main_capacity) = Some (Inr t)"
    "usable main_capacity t" "boundary t = boundary (new_QuadTree main_boundary main_capacity)"
    "contents t = contents (new_QuadTree main_boundary main_capacity) +
       filter_mset (contains (boundary (new_QuadTree main_boundary main_capacity))) (mset ?data)"
    by (rule insert_all_total [of main_capacity _ ?data])
  from gen_data_inside [OF assms, of n] have "filter_mset (contains main_boundary) (mset ?data) = mset ?data"
    by (intro filter_mset_all) simp
  with t show thesis
    by (intro that [of t]) (simp_all add: build_def)
qed

section \<open>Lemmas on the box of a query\<close>

lemma query_side:
  assumes "is_double (Fin c)" and "0 \<le> c" and "c \<le> 1000"
  obtains l u where "d_sub (Fin c) (Fin 5) = Fin l" and "d_add (Fin c) (Fin 5) = Fin u"
    and "l \<le> c" and "c \<le> u" and "safe_coord (Fin l)" and "safe_coord (Fin u)"
proof -
  have d: "is_double (Fin (- 5))" "is_double (Fin 1005)"
    using is_double_int [of "- 5"] is_double_int [of 1005] by simp_all
  from assms(2,3) have b: "- 5 \<le> c - 5" "c - 5 \<le> c" "c \<le> c + 5" "c + 5 \<le> 1005"
    by simp_all
  from d(1) assms(1) b(1,2) obtain l where l: "round_double (c - 5) = Fin l" "- 5 \<le> l" "l \<le> c" "is_double (Fin l)"
    by (rule round_double_between)
  from assms(1) d(2) b(3,4) obtain u where u: "round_double (c + 5) = Fin u" "c \<le> u" "u \<le> 1005" "is_double (Fin u)"
    by (rule round_double_between)
  from l u assms show thesis
    by (intro that [of l u]) (simp_all add: d_sub_def safe_coord_Fin)
qed

lemma query_range_cases:
  assumes "0 < sint rmax" and "0 \<le> sint rx \<and> sint rx \<le> sint rmax"
    and "0 \<le> sint ry \<and> sint ry \<le> sint rmax"
  shows "safe_box (query_range (coord rmax rx) (coord rmax ry))"
    and "contains (query_range (coord rmax rx) (coord rmax ry)) (gen_point rmax rx ry)"
proof -
  from assms obtain x where x: "coord rmax rx = Fin x" "0 \<le> x" "x \<le> 1000" "is_double (Fin x)"
    by (auto elim: coord_cases [of rx rmax])
  from assms obtain y where y: "coord rmax ry = Fin y" "0 \<le> y" "y \<le> 1000" "is_double (Fin y)"
    by (auto elim: coord_cases [of ry rmax])
  from x(4,2,3) obtain lx ux where sx: "d_sub (Fin x) (Fin 5) = Fin lx" "d_add (Fin x) (Fin 5) = Fin ux"
    "lx \<le> x" "x \<le> ux" "safe_coord (Fin lx)" "safe_coord (Fin ux)"
    by (rule query_side)
  from y(4,2,3) obtain ly uy where sy: "d_sub (Fin y) (Fin 5) = Fin ly" "d_add (Fin y) (Fin 5) = Fin uy"
    "ly \<le> y" "y \<le> uy" "safe_coord (Fin ly)" "safe_coord (Fin uy)"
    by (rule query_side)
  from sx sy show "safe_box (query_range (coord rmax rx) (coord rmax ry))"
    by (simp add: safe_box_def ordered_box_def x(1) y(1))
  from sx sy show "contains (query_range (coord rmax rx) (coord rmax ry)) (gen_point rmax rx ry)"
    by (simp add: contains_iff gen_point_def x(1) y(1))
qed

section \<open>Lemmas on the loop of the queries\<close>

lemma run_queries_nth:
  "i < n \<Longrightarrow> run_queries rmax rand k n t ! i =
     run_query (coord rmax (rand (k + 2 * i))) (coord rmax (rand (k + 2 * i + 1))) t"
  by (simp add: run_queries_def)

lemma run_queries_usable:
  assumes "usable c t"
  shows "\<not> list_ex isl (run_queries rmax rand k n t)"
proof -
  have "\<not> isl (run_query x y t)" for x y
    using query_usable [OF assms, of "query_range x y"] by (auto simp: run_query_def)
  then show ?thesis
    by (simp add: run_queries_def list_ex_iff)
qed

section \<open>Lemmas on the timings\<close>

lemma rangedE:
  assumes "ranged lo hi d"
  obtains r where "d = Fin r" and "lo \<le> r" and "r \<le> hi" and "is_double (Fin r)"
  using assms by (cases d) (simp_all add: ranged_def)

lemma ranged_round:
  assumes "is_double (Fin lo)" and "is_double (Fin hi)" and "lo \<le> x" and "x \<le> hi"
  shows "ranged lo hi (round_double x)"
  using assms by (rule round_double_between) (simp add: ranged_def)

lemma ranged_mono: "ranged lo hi d \<Longrightarrow> lo' \<le> lo \<Longrightarrow> hi \<le> hi' \<Longrightarrow> ranged lo' hi' d"
  by (auto simp: ranged_def split: double.splits)

text \<open>The multiples \<open>n \<sqdot> 2\<^sup>4\<^sup>4\<close> up to \<open>n = 2\<^sup>5\<^sup>3\<close> are binary64 values.\<close>

lemma is_double_multiple:
  assumes "\<bar>n\<bar> \<le> 2 ^ 53"
  shows "is_double (Fin (of_int n * 2 ^ 44))"
proof -
  have "of_int \<bar>n\<bar> \<le> (of_int (2 ^ 53) :: rat)"
    using assms by (simp only: of_int_le_iff)
  then have "of_int \<bar>n\<bar> * (2 :: rat) ^ 44 \<le> 2 ^ 53 * 2 ^ 44"
    by (intro mult_right_mono) simp_all
  then have "\<bar>of_int n * (2 :: rat) powi 44\<bar> < 2 ^ 1024"
    by (simp add: abs_mult)
  with assms is_double_grid [of n 44] show ?thesis
    by simp
qed

text \<open>One timing: the conversion of the 64-bit count and the division by \<open>1e6\<close>. With
  \<open>s = 1\<close> the bounds are for any count, with \<open>s = 0\<close> for a count that is not negative.\<close>

lemma query_time_ranged:
  assumes "s = 1 \<or> s = 0 \<and> 0 \<le> sint d"
  shows "ranged (- of_int s * 2 ^ 44) (2 ^ 44) (d_div (d_of_int (sint (d :: clong))) (Fin 1000000))"
proof -
  have "is_double (Fin (of_int 1 * 2 powi 63))" "is_double (Fin (of_int (- 1) * 2 powi 63))"
    by (intro is_double_grid; simp)+
  then have big: "is_double (Fin (2 ^ 63))" "is_double (Fin (- (2 ^ 63)))" "is_double (Fin 0)"
    by simp_all
  from sint_clong_bounds [of d] have "of_int (- (2 ^ 63)) \<le> (of_int (sint d) :: rat)"
    "(of_int (sint d) :: rat) \<le> of_int (2 ^ 63)"
    by (simp_all only: of_int_le_iff)
  moreover have "(0 :: rat) \<le> of_int (sint d)" if "0 \<le> sint d"
    using that by (simp only: of_int_0_le_iff)
  ultimately have "ranged (- of_int s * 2 ^ 63) (2 ^ 63) (d_of_int (sint d))"
    unfolding d_of_int_def using assms big by (intro ranged_round) auto
  then obtain q where q: "d_of_int (sint d) = Fin q" "- of_int s * 2 ^ 63 \<le> q" "q \<le> 2 ^ 63"
    by (rule rangedE)
  from assms q(2,3) have "- of_int s * 2 ^ 44 \<le> q / 1000000" "q / 1000000 \<le> 2 ^ 44"
    by auto
  moreover from assms have "is_double (Fin (- of_int s * 2 ^ 44))"
    using is_double_multiple [of "- s"] by auto
  ultimately show ?thesis
    using is_double_multiple [of 1] by (simp add: q(1) ranged_round)
qed

lemma query_times_map:
  "query_times dur n = map (\<lambda>i. d_div (d_of_int (sint (dur i))) (Fin 1000000)) [0..<n]"
  unfolding query_times_def by (rule fold_update_replicate)

lemma total_time_fold:
  "n \<le> length ts \<Longrightarrow> total_time ts n = fold (\<lambda>t total. d_add total t) (take n ts) (Fin 0)"
  unfolding total_time_def by (rule fold_nth_upt)

text \<open>The running sum of \<open>n\<close> timings between \<open>- s \<sqdot> 2\<^sup>4\<^sup>4\<close> and \<open>2\<^sup>4\<^sup>4\<close> stays between \<open>n\<close> times
  these bounds: the bounds are binary64 values, and rounding is monotone.\<close>

lemma sum_ranged:
  assumes "\<forall>t \<in> set ts. ranged (- of_int s * 2 ^ 44) (2 ^ 44) t"
    and "ranged (- of_int (s * int k) * 2 ^ 44) (of_int (int k) * 2 ^ 44) a"
    and "int k + int (length ts) \<le> 2 ^ 53" and "s = 1 \<or> s = 0"
  shows "ranged (- of_int (s * int (k + length ts)) * 2 ^ 44) (of_int (int (k + length ts)) * 2 ^ 44)
    (fold (\<lambda>t total. d_add total t) ts a)"
  using assms(1-3)
proof (induction ts arbitrary: k a)
  case (Cons t ts)
  from Cons.prems(1) obtain x where x: "t = Fin x" "- of_int s * 2 ^ 44 \<le> x" "x \<le> 2 ^ 44"
    by (auto elim: rangedE)
  from Cons.prems(2) obtain y where y: "a = Fin y" "- of_int (s * int k) * 2 ^ 44 \<le> y"
    "y \<le> of_int (int k) * 2 ^ 44"
    by (auto elim: rangedE)
  from x(2,3) y(2,3) have "- of_int (s * int (Suc k)) * 2 ^ 44 \<le> y + x"
    "y + x \<le> of_int (int (Suc k)) * 2 ^ 44"
    by (simp_all add: algebra_simps)
  moreover from Cons.prems(3) assms(4) have "is_double (Fin (of_int (- (s * int (Suc k))) * 2 ^ 44))"
    "is_double (Fin (of_int (int (Suc k)) * 2 ^ 44))"
    by (intro is_double_multiple; auto)+
  ultimately have "ranged (- of_int (s * int (Suc k)) * 2 ^ 44) (of_int (int (Suc k)) * 2 ^ 44) (d_add a t)"
    unfolding x(1) y(1) d_add.simps by (intro ranged_round) simp_all
  with Cons.prems(1,3) Cons.IH [of "Suc k" "d_add a t"] show ?case
    by simp
qed simp

lemma avg_time_ranged:
  assumes "s = 1 \<or> s = 0 \<and> (\<forall>i < 1000. 0 \<le> sint (dur i))"
  shows "ranged (- of_int s * 2 ^ 44) (2 ^ 44) (avg_time (query_times dur 1000) num_queries)"
proof -
  let ?ts = "query_times dur 1000"
  have "ranged (- of_int s * 2 ^ 44) (2 ^ 44) (d_div (d_of_int (sint (dur i))) (Fin 1000000))"
    if "i < 1000" for i
    using assms that by (intro query_time_ranged) auto
  then have "\<forall>t \<in> set ?ts. ranged (- of_int s * 2 ^ 44) (2 ^ 44) t"
    by (auto simp: query_times_map)
  moreover have "ranged (- of_int (s * int 0) * 2 ^ 44) (of_int (int 0) * 2 ^ 44) (Fin 0)"
    by (simp add: ranged_def)
  ultimately have "ranged (- of_int (s * int (0 + length ?ts)) * 2 ^ 44) (of_int (int (0 + length ?ts)) * 2 ^ 44)
      (fold (\<lambda>t total. d_add total t) ?ts (Fin 0))"
    using assms by (intro sum_ranged) (auto simp: query_times_map)
  then have "ranged (- of_int (s * 1000) * 2 ^ 44) (1000 * 2 ^ 44) (total_time ?ts 1000)"
    by (simp add: total_time_fold query_times_map)
  then obtain x where x: "total_time ?ts 1000 = Fin x" "- of_int (s * 1000) * 2 ^ 44 \<le> x" "x \<le> 1000 * 2 ^ 44"
    by (rule rangedE)
  from x(2,3) have "- of_int s * 2 ^ 44 \<le> x / 1000" "x / 1000 \<le> 2 ^ 44"
    by simp_all
  moreover from assms have "is_double (Fin (- of_int s * 2 ^ 44))"
    using is_double_multiple [of "- s"] by auto
  ultimately have "ranged (- of_int s * 2 ^ 44) (2 ^ 44) (round_double (x / 1000))"
    using is_double_multiple [of 1] by (intro ranged_round) simp_all
  then show ?thesis
    by (simp add: avg_time_def x(1) d_of_int_def dbl_eval)
qed

section \<open>Theorems\<close>

text \<open>A coordinate as binary64 hardware computes it, for \<open>RAND_MAX = 2147483647\<close> and
  \<open>rand() = 123456789\<close>: \<open>57.489047319390366\<close>.\<close>

lemma ex_coord: "coord 2147483647 123456789 = Fin (4045432063835801 / 70368744177664)"
  by (simp add: coord_def min_coord_def max_coord_def dbl_eval)

text \<open>C17 (bounds): the generated coordinates stay in the region. For a result \<open>r\<close> of
  \<open>rand()\<close> between \<open>0\<close> and \<open>RAND_MAX\<close>, the coordinate
  \<open>min_coord + (max_coord - min_coord) * r / RAND_MAX\<close>, computed in binary64 with three
  roundings, is a finite binary64 number between \<open>0\<close> and \<open>1000\<close>: rounding never
  carries it over the edge of the root region.\<close>

theorem coord_range:
  assumes "0 \<le> sint r" and "sint r \<le> sint rmax" and "0 < sint rmax"
  shows "\<exists>c. coord rmax r = Fin c \<and> 0 \<le> c \<and> c \<le> 1000 \<and> is_double (Fin c)"
  using assms by (auto elim: coord_cases)

theorem coord_range_witness:
  "0 \<le> sint (123456789 :: cint) \<and> sint (123456789 :: cint) \<le> sint (2147483647 :: cint) \<and>
   0 < sint (2147483647 :: cint) \<and>
   coord 2147483647 123456789 = Fin (4045432063835801 / 70368744177664)"
  using coord_range [of 123456789 2147483647] by (simp add: ex_coord)

text \<open>C16 (functional): the tree stores the whole data set. When the results of
  \<open>rand()\<close> lie between \<open>0\<close> and \<open>RAND_MAX\<close>, building the tree from the \<open>n\<close> generated
  points ends without a fault and leaves a well-formed tree whose contents are all
  \<open>n\<close> points: the program discards what \<open>insert\<close> returns, and no point is rejected.\<close>

theorem gen_data_stored:
  assumes "0 < sint rmax" and "\<forall>k. 0 \<le> sint (rand k) \<and> sint (rand k) \<le> sint rmax"
  shows "\<exists>t. returns (build (gen_data rmax rand n)) t \<and> well_formed main_capacity t \<and>
    contents t = mset (gen_data rmax rand n) \<and> size (contents t) = n"
proof -
  from assms obtain t where "build (gen_data rmax rand n) = Some (Inr t)" "usable main_capacity t"
    "boundary t = main_boundary" "contents t = mset (gen_data rmax rand n)"
    by (rule build_gen_data)
  then show ?thesis
    by (auto simp: returns_def usable_def)
qed

theorem gen_data_stored_witness:
  "0 < sint (10 :: cint) \<and> (\<forall>k. 0 \<le> sint (5 :: cint) \<and> sint (5 :: cint) \<le> sint (10 :: cint)) \<and>
   (\<exists>t. returns (build (gen_data 10 (\<lambda>k. 5) 3)) t \<and> well_formed main_capacity t \<and>
     contents t = mset (gen_data 10 (\<lambda>k. 5) 3) \<and> size (contents t) = 3)"
  using gen_data_stored [of 10 "\<lambda>k. 5" 3] by simp

text \<open>C30 (bounds): the box of a query. Around a generated centre \<open>(x, y)\<close> the box
  \<open>[x - 5, x + 5] \<times> [y - 5, y + 5]\<close> of line 118, computed in binary64, has finite
  corners in the right order and contains its centre; it may reach outside the
  root region.\<close>

theorem query_range_centre:
  assumes "0 < sint rmax" and "0 \<le> sint rx \<and> sint rx \<le> sint rmax"
    and "0 \<le> sint ry \<and> sint ry \<le> sint rmax"
  shows "safe_box (query_range (coord rmax rx) (coord rmax ry)) \<and>
    contains (query_range (coord rmax rx) (coord rmax ry))
      \<lparr>pt_x = coord rmax rx, pt_y = coord rmax ry\<rparr>"
  using query_range_cases [OF assms] by (simp add: gen_point_def)

theorem query_range_centre_witness:
  "0 < sint (2147483647 :: cint) \<and>
   (0 \<le> sint (123456789 :: cint) \<and> sint (123456789 :: cint) \<le> sint (2147483647 :: cint)) \<and>
   safe_box (query_range (coord 2147483647 123456789) (coord 2147483647 123456789)) \<and>
   box_x1 (query_range (coord 2147483647 123456789) (coord 2147483647 123456789)) =
     Fin (3693588342947481 / 70368744177664) \<and>
   box_x2 (query_range (coord 2147483647 123456789) (coord 2147483647 123456789)) =
     Fin (4397275784724121 / 70368744177664)"
  using query_range_centre [of 2147483647 123456789 123456789]
  by (simp add: ex_coord dbl_eval)

text \<open>C31 (bounds): the average that \<open>main\<close> prints. Whatever the clock returns, the
  average of the \<open>1000\<close> timings is a finite binary64 number of magnitude at most
  \<open>2\<^sup>4\<^sup>4\<close> seconds, never a NaN or an infinity; when no measured duration is
  negative, the average is not negative.\<close>

theorem avg_time_finite:
  "(\<exists>a. avg_time (query_times dur 1000) num_queries = Fin a \<and> \<bar>a\<bar> \<le> 2 ^ 44) \<and>
   ((\<forall>i < 1000. 0 \<le> sint (dur i)) \<longrightarrow>
      (\<exists>a. avg_time (query_times dur 1000) num_queries = Fin a \<and> 0 \<le> a))"
  using avg_time_ranged [of 1 dur] avg_time_ranged [of 0 dur]
  by (auto elim!: rangedE)

theorem avg_time_finite_witness:
  "0 \<le> sint (2000000 :: clong) \<and>
   (\<exists>a. avg_time (query_times (\<lambda>i. 2000000) 1000) num_queries = Fin a \<and> 0 \<le> a \<and> \<bar>a\<bar> \<le> 2 ^ 44)"
  using avg_time_finite [of "\<lambda>i. 2000000"] by auto

end
