(* ===== verification/QT_Heap.thy ===== *)
theory QT_Heap
  imports QuadTree
begin

text \<open>
  The destructor of \<open>QuadTree\<close> (\<open>src/Code.cpp\<close>, lines 37 to 42), on an explicit heap.
  The other theories treat a tree as a value; what the destructor does can only be
  said of the objects and the pointers between them. A \<open>heap\<close> maps the addresses of
  the allocated nodes to their fields, with the four child pointers as optional
  addresses. \<open>delete_qt\<close> is a \<open>delete\<close> expression: on a null pointer it does nothing,
  otherwise it runs the destructor of the object, which deletes the four children in
  order, and then frees the object. Deleting an address that is not allocated is
  the fault \<open>Dangling\<close> (a double free); a recursion that does not end is \<open>None\<close>.

  \<open>cells h t a\<close> relates the heap to the values of the other theories: it is the list
  of the addresses, in pre-order, at which the heap \<open>h\<close> holds the tree \<open>t\<close> from the
  address \<open>a\<close> on, if it does. The tree is held without sharing when the list is
  distinct.
\<close>

section \<open>Objects on the heap\<close>

type_synonym addr = nat

record node =
  n_boundary :: BoundingBox
  n_capacity :: cint
  n_points :: "Point list"
  n_nw :: "addr option"
  n_ne :: "addr option"
  n_sw :: "addr option"
  n_se :: "addr option"

type_synonym heap = "addr \<Rightarrow> node option"

datatype heap_fault = Dangling

definition free :: "addr \<Rightarrow> heap \<Rightarrow> heap" where
  "free a h = h(a := None)"

text \<open>An object without children; \<open>leaf_node b c []\<close> is what the constructor builds.\<close>

definition leaf_node :: "BoundingBox \<Rightarrow> cint \<Rightarrow> Point list \<Rightarrow> node" where
  "leaf_node b c pts =
     \<lparr>n_boundary = b, n_capacity = c, n_points = pts,
      n_nw = None, n_ne = None, n_sw = None, n_se = None\<rparr>"

section \<open>Allocation of the children\<close>

text \<open>\<open>subdivide\<close> on the object at \<open>a\<close>: four \<open>new QuadTree\<close> expressions, whose results are
  the addresses \<open>a1\<close> to \<open>a4\<close> that the allocator returns, and the four assignments to the
  child pointers.\<close>

definition h_subdivide :: "addr \<Rightarrow> addr \<Rightarrow> addr \<Rightarrow> addr \<Rightarrow> addr \<Rightarrow> heap \<Rightarrow> heap_fault + heap" where
  "h_subdivide a a1 a2 a3 a4 h =
     (case h a of None \<Rightarrow> Inl Dangling | Some nd \<Rightarrow>
        let b = n_boundary nd; c = n_capacity nd;
            h1 = h(a1 \<mapsto> leaf_node (nw_box b) c []);
            nd1 = nd\<lparr>n_nw := Some a1\<rparr>;
            h2 = h1(a2 \<mapsto> leaf_node (ne_box b) c []);
            nd2 = nd1\<lparr>n_ne := Some a2\<rparr>;
            h3 = h2(a3 \<mapsto> leaf_node (sw_box b) c []);
            nd3 = nd2\<lparr>n_sw := Some a3\<rparr>;
            h4 = h3(a4 \<mapsto> leaf_node (se_box b) c []);
            nd4 = nd3\<lparr>n_se := Some a4\<rparr>
        in Inr (h4(a \<mapsto> nd4)))"

section \<open>Copying an object\<close>

text \<open>The class declares a destructor and no copy constructor, so the compiler
  generates one that copies the members: the new object at \<open>a'\<close> has the same four
  child pointers as the object at \<open>a\<close>.\<close>

definition h_copy :: "addr \<Rightarrow> addr \<Rightarrow> heap \<Rightarrow> heap_fault + heap" where
  "h_copy a a' h = (case h a of None \<Rightarrow> Inl Dangling | Some nd \<Rightarrow> Inr (h(a' \<mapsto> nd)))"

section \<open>The destructor\<close>

partial_function (option) delete_qt :: "addr option \<Rightarrow> heap \<Rightarrow> (heap_fault + heap) option" where
  "delete_qt p h =
     (case p of None \<Rightarrow> Some (Inr h) | Some a \<Rightarrow>
      (case h a of None \<Rightarrow> Some (Inl Dangling) | Some nd \<Rightarrow>
       Option.bind (delete_qt (n_nw nd) h) (\<lambda>r. case r of Inl f \<Rightarrow> Some (Inl f) | Inr h1 \<Rightarrow>
       Option.bind (delete_qt (n_ne nd) h1) (\<lambda>r. case r of Inl f \<Rightarrow> Some (Inl f) | Inr h2 \<Rightarrow>
       Option.bind (delete_qt (n_sw nd) h2) (\<lambda>r. case r of Inl f \<Rightarrow> Some (Inl f) | Inr h3 \<Rightarrow>
       Option.bind (delete_qt (n_se nd) h3) (\<lambda>r. case r of Inl f \<Rightarrow> Some (Inl f) | Inr h4 \<Rightarrow>
         Some (Inr (free a h4))))))))"

text \<open>The body of \<open>~QuadTree()\<close> for an object with the fields \<open>nd\<close>, as it runs for the
  root, which \<open>main\<close> keeps on the stack.\<close>

definition destructor :: "node \<Rightarrow> heap \<Rightarrow> (heap_fault + heap) option" where
  "destructor nd h =
     Option.bind (delete_qt (n_nw nd) h) (\<lambda>r. case r of Inl f \<Rightarrow> Some (Inl f) | Inr h1 \<Rightarrow>
     Option.bind (delete_qt (n_ne nd) h1) (\<lambda>r. case r of Inl f \<Rightarrow> Some (Inl f) | Inr h2 \<Rightarrow>
     Option.bind (delete_qt (n_sw nd) h2) (\<lambda>r. case r of Inl f \<Rightarrow> Some (Inl f) | Inr h3 \<Rightarrow>
       delete_qt (n_se nd) h3)))"

text \<open>Deleting a list of pointers in order: the reference for the four \<open>delete\<close>
  expressions of the destructor.\<close>

fun delete_all :: "addr option list \<Rightarrow> heap \<Rightarrow> (heap_fault + heap) option" where
  "delete_all [] h = Some (Inr h)"
| "delete_all (p # ps) h =
     Option.bind (delete_qt p h) (\<lambda>r. case r of Inl f \<Rightarrow> Some (Inl f) | Inr h' \<Rightarrow> delete_all ps h')"

section \<open>Trees on the heap\<close>

fun cells :: "heap \<Rightarrow> QuadTree \<Rightarrow> addr \<Rightarrow> addr list option" where
  "cells h (QuadTree b c pts n e s w) a =
     (case h a of None \<Rightarrow> None | Some nd \<Rightarrow>
        if n_boundary nd = b \<and> n_capacity nd = c \<and> n_points nd = pts then
          map_option (\<lambda>xs. a # concat xs)
            (those
              [case n of None \<Rightarrow> (if n_nw nd = None then Some [] else None)
                 | Some t \<Rightarrow> (case n_nw nd of None \<Rightarrow> None | Some a' \<Rightarrow> cells h t a'),
               case e of None \<Rightarrow> (if n_ne nd = None then Some [] else None)
                 | Some t \<Rightarrow> (case n_ne nd of None \<Rightarrow> None | Some a' \<Rightarrow> cells h t a'),
               case s of None \<Rightarrow> (if n_sw nd = None then Some [] else None)
                 | Some t \<Rightarrow> (case n_sw nd of None \<Rightarrow> None | Some a' \<Rightarrow> cells h t a'),
               case w of None \<Rightarrow> (if n_se nd = None then Some [] else None)
                 | Some t \<Rightarrow> (case n_se nd of None \<Rightarrow> None | Some a' \<Rightarrow> cells h t a')])
        else None)"

text \<open>The cells of an optional subtree behind a pointer.\<close>

definition kid_cells :: "heap \<Rightarrow> QuadTree option \<Rightarrow> addr option \<Rightarrow> addr list option" where
  "kid_cells h k p =
     (case k of None \<Rightarrow> (if p = None then Some [] else None)
      | Some t \<Rightarrow> (case p of None \<Rightarrow> None | Some a \<Rightarrow> cells h t a))"

text \<open>The heap holds the tree \<open>t\<close> from \<open>a\<close> on, and no object twice.\<close>

definition holds :: "heap \<Rightarrow> QuadTree \<Rightarrow> addr \<Rightarrow> bool" where
  "holds h t a = (case cells h t a of None \<Rightarrow> False | Some as \<Rightarrow> distinct as)"

section \<open>Example heaps\<close>

text \<open>A leaf object, and a heap that holds the tree \<open>ex_t2\<close> of the specification's
  example at the addresses \<open>1\<close> to \<open>5\<close>, next to an object at address \<open>9\<close> that is not
  part of it.\<close>

definition ex_root :: node where
  "ex_root =
     \<lparr>n_boundary = ex_box, n_capacity = 1, n_points = [ex_p10],
      n_nw = Some 2, n_ne = Some 3, n_sw = Some 4, n_se = Some 5\<rparr>"

definition ex_heap :: heap where
  "ex_heap =
     [1 \<mapsto> ex_root, 2 \<mapsto> leaf_node (nw_box ex_box) 1 [ex_p20],
      3 \<mapsto> leaf_node (ne_box ex_box) 1 [], 4 \<mapsto> leaf_node (sw_box ex_box) 1 [],
      5 \<mapsto> leaf_node (se_box ex_box) 1 [], 9 \<mapsto> leaf_node ex_box 1 []]"

text \<open>The same heap with the NE pointer of the root aimed at the NW child: one object
  behind two pointers.\<close>

definition ex_shared :: heap where
  "ex_shared = ex_heap(1 \<mapsto> ex_root\<lparr>n_ne := Some 2\<rparr>)"

section \<open>Unfolding the destructor\<close>

lemma delete_qt_None [simp]: "delete_qt None h = Some (Inr h)"
  by (simp add: delete_qt.simps)

lemma delete_all_last:
  "Option.bind (delete_all [p] h) f = Option.bind (delete_qt p h) f"
  by (cases "delete_qt p h") (auto split: sum.splits)

lemma destructor_delete_all: "destructor nd h = delete_all [n_nw nd, n_ne nd, n_sw nd, n_se nd] h"
  by (auto simp: destructor_def split: Option.bind_splits sum.splits)

lemma delete_qt_Some:
  "delete_qt (Some a) h =
     (case h a of None \<Rightarrow> Some (Inl Dangling) | Some nd \<Rightarrow>
        Option.bind (destructor nd h)
          (\<lambda>r. case r of Inl f \<Rightarrow> Some (Inl f) | Inr h' \<Rightarrow> Some (Inr (free a h'))))"
  by (subst delete_qt.simps)
    (auto simp: destructor_def split: option.splits sum.splits Option.bind_splits)

section \<open>The cells of a tree\<close>

lemma cells_sel:
  "cells h t a =
     (case h a of None \<Rightarrow> None | Some nd \<Rightarrow>
        if n_boundary nd = boundary t \<and> n_capacity nd = capacity t \<and> n_points nd = points t then
          map_option (\<lambda>xs. a # concat xs)
            (those [kid_cells h (nw t) (n_nw nd), kid_cells h (ne t) (n_ne nd),
                    kid_cells h (sw t) (n_sw nd), kid_cells h (se t) (n_se nd)])
        else None)"
  by (cases t) (simp add: kid_cells_def split: option.split)

lemma cellsE:
  assumes "cells h t a = Some as"
  obtains nd as1 as2 as3 as4 where "h a = Some nd"
    and "kid_cells h (nw t) (n_nw nd) = Some as1" and "kid_cells h (ne t) (n_ne nd) = Some as2"
    and "kid_cells h (sw t) (n_sw nd) = Some as3" and "kid_cells h (se t) (n_se nd) = Some as4"
    and "as = a # as1 @ as2 @ as3 @ as4"
  using assms unfolding cells_sel [of h t a]
  by (auto split: option.splits if_splits)

lemma kid_cells_None [simp]: "kid_cells h None p = Some as \<longleftrightarrow> p = None \<and> as = []"
  by (auto simp: kid_cells_def)

lemma kid_cells_Some: "kid_cells h (Some t) p = Some as \<longleftrightarrow> (\<exists>a. p = Some a \<and> cells h t a = Some as)"
  by (auto simp: kid_cells_def split: option.splits)

lemma cells_root: "cells h t a = Some as \<Longrightarrow> a \<in> set as"
  by (auto elim: cellsE)

lemma cells_allocated: "cells h t a = Some as \<Longrightarrow> x \<in> set as \<Longrightarrow> h x \<noteq> None"
proof (induction t arbitrary: a as)
  case (QuadTree b c pts n e s w)
  let ?t = "QuadTree b c pts n e s w"
  have kid: "h x \<noteq> None" if "kid_cells h k p = Some as'" "x \<in> set as'" "k \<in> {n, e, s, w}" for k p as'
    using that QuadTree.IH by (cases k) (auto simp: kid_cells_Some)
  from QuadTree.prems(1) obtain nd as1 as2 as3 as4 where "h a = Some nd"
    and "kid_cells h (nw ?t) (n_nw nd) = Some as1" "kid_cells h (ne ?t) (n_ne nd) = Some as2"
      "kid_cells h (sw ?t) (n_sw nd) = Some as3" "kid_cells h (se ?t) (n_se nd) = Some as4"
    and "as = a # as1 @ as2 @ as3 @ as4"
    by (rule cellsE)
  with QuadTree.prems(2) show ?case
    by (auto dest: kid)
qed

section \<open>Deleting a tree\<close>

text \<open>After the cells \<open>S\<close> are freed the heap is \<open>g |` (- S)\<close>. Deleting pointers one after
  the other frees the union of their cells, provided the cells are disjoint: the
  subtrees deleted earlier do not overlap the ones deleted later.\<close>

lemma restrict_map_all [simp]: "g |` UNIV = g"
  by (simp add: restrict_map_def)

lemma delete_all_cells:
  assumes "list_all2 (\<lambda>p as. \<forall>g. (\<forall>x \<in> set as. g x = h x) \<longrightarrow>
      delete_qt p g = Some (Inr (g |` (- set as)))) ps ass"
    and "distinct (concat ass)" and "\<forall>x \<in> set (concat ass). g x = h x"
  shows "delete_all ps g = Some (Inr (g |` (- set (concat ass))))"
  using assms
proof (induction arbitrary: g rule: list_all2_induct)
  case (Cons p ps as ass)
  from Cons.prems(2) have g: "delete_qt p g = Some (Inr (g |` (- set as)))"
    using Cons.hyps(1) by simp
  from Cons.prems have "\<forall>x \<in> set (concat ass). (g |` (- set as)) x = h x"
    by (auto simp: restrict_map_def disjoint_iff)
  with Cons.prems(1) have "delete_all ps (g |` (- set as)) = Some (Inr ((g |` (- set as)) |` (- set (concat ass))))"
    by (intro Cons.IH) simp_all
  with g show ?case
    by simp
qed simp

lemma delete_cells:
  assumes "cells h t a = Some as" and "distinct as" and "\<forall>x \<in> set as. g x = h x"
  shows "delete_qt (Some a) g = Some (Inr (g |` (- set as)))"
  using assms
proof (induction t arbitrary: a as g)
  case (QuadTree b c pts n e s w)
  let ?t = "QuadTree b c pts n e s w"
  have kid: "delete_qt p g = Some (Inr (g |` (- set as')))"
    if "kid_cells h k p = Some as'" "distinct as'" "k \<in> {n, e, s, w}" "\<forall>x \<in> set as'. g x = h x"
    for k p as' g
  proof (cases k)
    case None
    with that show ?thesis
      by simp
  next
    case (Some t')
    with that obtain a' where "p = Some a'" "cells h t' a' = Some as'"
      by (auto simp: kid_cells_Some)
    with that(2-4) Some show ?thesis
      using QuadTree.IH by auto
  qed
  from QuadTree.prems(1) obtain nd as1 as2 as3 as4 where nd: "h a = Some nd"
    and k: "kid_cells h (nw ?t) (n_nw nd) = Some as1" "kid_cells h (ne ?t) (n_ne nd) = Some as2"
      "kid_cells h (sw ?t) (n_sw nd) = Some as3" "kid_cells h (se ?t) (n_se nd) = Some as4"
    and as: "as = a # as1 @ as2 @ as3 @ as4"
    by (rule cellsE)
  from k QuadTree.prems(2) have "list_all2 (\<lambda>p as. \<forall>g. (\<forall>x \<in> set as. g x = h x) \<longrightarrow>
      delete_qt p g = Some (Inr (g |` (- set as)))) [n_nw nd, n_ne nd, n_sw nd, n_se nd] [as1, as2, as3, as4]"
    unfolding as by (auto intro: kid)
  moreover from QuadTree.prems(2,3) have "distinct (concat [as1, as2, as3, as4])"
    "\<forall>x \<in> set (concat [as1, as2, as3, as4]). g x = h x"
    unfolding as by auto
  ultimately have "destructor nd g = Some (Inr (g |` (- set (concat [as1, as2, as3, as4]))))"
    unfolding destructor_delete_all by (rule delete_all_cells)
  moreover from QuadTree.prems(3) nd have "g a = Some nd"
    by (simp add: as)
  ultimately show ?case
    using QuadTree.prems(2) unfolding as delete_qt_Some
    by (auto simp: free_def restrict_map_def fun_eq_iff)
qed

text \<open>The destructor of an object outside the heap, such as the root that \<open>main\<close> keeps
  on the stack, frees the cells of its four subtrees.\<close>

lemma destructor_cells:
  assumes "kid_cells h n (n_nw nd) = Some as1" and "kid_cells h e (n_ne nd) = Some as2"
    and "kid_cells h s (n_sw nd) = Some as3" and "kid_cells h w (n_se nd) = Some as4"
    and "distinct (as1 @ as2 @ as3 @ as4)"
  shows "destructor nd h = Some (Inr (h |` (- set (as1 @ as2 @ as3 @ as4))))"
proof -
  have kid: "delete_qt p g = Some (Inr (g |` (- set as)))"
    if "kid_cells h k p = Some as" "distinct as" "\<forall>x \<in> set as. g x = h x" for k p as g
    using that by (cases k) (auto simp: kid_cells_Some intro: delete_cells)
  from assms have "list_all2 (\<lambda>p as. \<forall>g. (\<forall>x \<in> set as. g x = h x) \<longrightarrow>
      delete_qt p g = Some (Inr (g |` (- set as)))) [n_nw nd, n_ne nd, n_sw nd, n_se nd] [as1, as2, as3, as4]"
    by (auto intro: kid)
  moreover from assms(5) have "distinct (concat [as1, as2, as3, as4])"
    "\<forall>x \<in> set (concat [as1, as2, as3, as4]). h x = h x"
    by simp_all
  ultimately have "delete_all [n_nw nd, n_ne nd, n_sw nd, n_se nd] h =
      Some (Inr (h |` (- set (concat [as1, as2, as3, as4]))))"
    by (rule delete_all_cells)
  then show ?thesis
    unfolding destructor_delete_all by simp
qed

section \<open>Subdividing on the heap\<close>

text \<open>\<open>h_subdivide\<close> implements \<open>subdivide\<close>: when the heap holds a leaf at \<open>a\<close> and the
  allocator returns four different addresses that are not allocated, the heap holds
  the subdivided leaf at \<open>a\<close> and the new addresses.\<close>

lemma cells_leaf:
  assumes "is_leaf t"
  shows "cells h t a = Some as \<longleftrightarrow>
    as = [a] \<and> h a = Some (leaf_node (boundary t) (capacity t) (points t))"
proof (cases "h a")
  case None
  then show ?thesis
    by (simp add: cells_sel [of h t a])
next
  case (Some nd)
  obtain b c pts p1 p2 p3 p4 where "nd = \<lparr>n_boundary = b, n_capacity = c, n_points = pts,
      n_nw = p1, n_ne = p2, n_sw = p3, n_se = p4\<rparr>"
    by (cases nd) simp
  with assms Some show ?thesis
    by (auto simp: cells_sel [of h t a] is_leaf_def kid_cells_def leaf_node_def split: if_splits)
qed

lemma h_subdivide_cells:
  assumes "is_leaf t" and "cells h t a = Some [a]" and "distinct [a, a1, a2, a3, a4]"
    and "h a1 = None" and "h a2 = None" and "h a3 = None" and "h a4 = None"
  shows "\<exists>h'. h_subdivide a a1 a2 a3 a4 h = Inr h' \<and>
    cells h' (subdivide t) a = Some [a, a1, a2, a3, a4] \<and>
    (\<forall>x. x \<notin> {a, a1, a2, a3, a4} \<longrightarrow> h' x = h x)"
proof -
  from assms(1,2) have "h a = Some (leaf_node (boundary t) (capacity t) (points t))"
    by (simp add: cells_leaf)
  with assms(3-7) show ?thesis
    by (auto simp: h_subdivide_def Let_def cells_sel [of _ "subdivide t"] kid_cells_def
        new_QuadTree_def leaf_node_def)
qed

section \<open>Pointers that are not a tree\<close>

text \<open>An object that is reached twice is freed twice: the second \<open>delete\<close> finds the
  address no longer allocated.\<close>

lemma ex_shared_double_free: "delete_qt (Some 1) ex_shared = Some (Inl Dangling)"
  by (simp add: delete_qt.simps ex_shared_def ex_heap_def ex_root_def leaf_node_def free_def)

text \<open>An object that is its own child is never freed: its destructor deletes it again
  before it returns.\<close>

lemma delete_cycle_diverges:
  assumes "h a = Some nd" and "n_nw nd = Some a"
  shows "delete_qt (Some a) h = None"
proof -
  have "\<not> (p = Some a \<and> g = h)" if r: "delete_qt p g = Some r" for p g r
  proof (rule delete_qt.raw_induct [where P = "\<lambda>p g r. \<not> (p = Some a \<and> g = h)", OF _ r], goal_cases)
    case (1 del p g r)
    show ?case
    proof
      assume "p = Some a \<and> g = h"
      with 1(2) assms obtain r' where "del (Some a) h = Some r'"
        by (auto simp: Option.bind_eq_Some_conv)
      with 1(1) show False
        by blast
    qed
  qed
  then show ?thesis
    by (cases "delete_qt (Some a) h") auto
qed

text \<open>A copy of an object with children shares them with the original. Deleting the
  original frees the children; deleting the copy then deletes them again.\<close>

lemma copy_shares:
  assumes "cells h t a = Some as" and "distinct as" and "nw t \<noteq> None" and "h a' = None"
  obtains nd c where "h a = Some nd" and "n_nw nd = Some c" and "c \<in> set as" and "a' \<notin> set as"
proof -
  from assms(1) obtain nd as1 as2 as3 as4 where nd: "h a = Some nd"
    and k: "kid_cells h (nw t) (n_nw nd) = Some as1"
    and as: "as = a # as1 @ as2 @ as3 @ as4"
    by (rule cellsE)
  from assms(3) obtain t' where "nw t = Some t'"
    by auto
  with k obtain c where c: "n_nw nd = Some c" "cells h t' c = Some as1"
    by (auto simp: kid_cells_Some)
  then have "c \<in> set as1"
    by (auto dest: cells_root)
  moreover from assms(1,4) have "a' \<notin> set as"
    by (auto dest: cells_allocated)
  ultimately show thesis
    using nd c(1) as by (intro that [of nd c]) simp_all
qed

section \<open>The example\<close>

lemma ex_heap_cells: "cells ex_heap ex_t2 1 = Some [1, 2, 3, 4, 5]"
  by (simp add: ex_heap_def ex_root_def leaf_node_def ex_t2_def new_QuadTree_def)

text \<open>Deleting the tree leaves the object at address \<open>9\<close> and nothing else.\<close>

lemma ex_heap_rest: "dom (ex_heap |` (- {1, 2, 3, 4, 5})) = {9}"
  by (auto simp: ex_heap_def restrict_map_def dom_def split: if_splits)

section \<open>Theorems\<close>

text \<open>C23 (safety): deleting a tree frees its nodes, and nothing else. When the heap
  holds a tree from the address \<open>a\<close> on, with no object reached twice, \<open>delete\<close> of the
  pointer returns, it never deletes an address that is not allocated, and the heap
  it leaves is the heap before without the cells of the tree: every node is freed
  once and no other object is touched.\<close>

theorem delete_frees_tree:
  assumes "holds h t a"
  shows "\<exists>as. cells h t a = Some as \<and> delete_qt (Some a) h = Some (Inr (h |` (- set as)))"
  using assms delete_cells [of h t a _ h] by (auto simp: holds_def split: option.splits)

theorem delete_frees_tree_witness:
  "holds ex_heap ex_t2 1 \<and> cells ex_heap ex_t2 1 = Some [1, 2, 3, 4, 5] \<and>
   delete_qt (Some 1) ex_heap = Some (Inr (ex_heap |` (- {1, 2, 3, 4, 5})))"
  using delete_frees_tree [of ex_heap ex_t2 1] ex_heap_cells by (simp add: holds_def)

text \<open>C24 (error): a copy is freed twice. The copy that the generated copy constructor
  makes of an object with children holds the same child pointers. When the heap
  holds a tree with children at \<open>a\<close> and the copy is made at a free address \<open>a'\<close>,
  deleting the original succeeds, and deleting the copy afterwards deletes a child
  that is no longer allocated.\<close>

theorem copy_double_free:
  assumes "holds h t a" and "nw t \<noteq> None" and "h a' = None"
  shows "\<exists>h1 h2. h_copy a a' h = Inr h1 \<and> delete_qt (Some a) h1 = Some (Inr h2) \<and>
    delete_qt (Some a') h2 = Some (Inl Dangling)"
proof -
  from assms(1) obtain as where as: "cells h t a = Some as" "distinct as"
    by (auto simp: holds_def split: option.splits)
  from as assms(2,3) obtain nd c where nd: "h a = Some nd" "n_nw nd = Some c" "c \<in> set as"
    "a' \<notin> set as"
    by (rule copy_shares)
  define h1 h2 where "h1 = h(a' \<mapsto> nd)" and "h2 = h1 |` (- set as)"
  from nd(4) have "\<forall>x \<in> set as. h1 x = h x"
    by (auto simp: h1_def)
  with as have "delete_qt (Some a) h1 = Some (Inr h2)"
    unfolding h2_def by (rule delete_cells)
  moreover from nd(3,4) have "h2 a' = Some nd" "h2 c = None"
    by (auto simp: h1_def h2_def)
  with nd(2) have "delete_qt (Some a') h2 = Some (Inl Dangling)"
    by (subst delete_qt.simps) (simp add: delete_qt.simps [of "Some c" h2])
  ultimately show ?thesis
    using nd(1) by (auto simp: h_copy_def h1_def)
qed

theorem copy_double_free_witness:
  "holds ex_heap ex_t2 1 \<and> nw ex_t2 \<noteq> None \<and> ex_heap 20 = None \<and>
   (\<exists>h1 h2. h_copy 1 20 ex_heap = Inr h1 \<and> delete_qt (Some 1) h1 = Some (Inr h2) \<and>
      delete_qt (Some 20) h2 = Some (Inl Dangling))"
  using copy_double_free [of ex_heap ex_t2 1 20] ex_heap_cells
  by (simp add: holds_def ex_t2_def ex_heap_def)

end
