(* ===== verification/Insert_Spec.thy ===== *)
theory Insert_Spec
  imports Index_Spec
begin

text \<open>
  The algorithm of \<open>insert\<close> as the specification words it (section 4.3, steps 1 to
  3), beside the one of \<open>src/Code.cpp\<close> (lines 43 to 59, \<open>insert_qt\<close>). The two differ
  in the test of step 2: the specification stores the point when the node \<^emph>\<open>is a
  leaf and\<close> its buffer is below the capacity, a comparison of two numbers; line 47
  tests \<open>points.size() < capacity\<close> alone, after converting the capacity to
  \<open>size_t\<close>. \<open>insert_spec\<close> is the algorithm of the specification on the nodes of
  theory \<open>QuadTree\<close>. The theorem: on every tree that the constructor and \<open>insert\<close>
  build with a positive capacity, the code returns what the algorithm of the
  specification returns. The lemmas after it show that neither assumption can go:
  on a node with children and room, and with a negative capacity, the two differ.
\<close>

section \<open>The algorithm of the specification\<close>

text \<open>Step 2: the node is still a leaf and the size of the buffer is below the
  capacity.\<close>

definition has_room :: "QuadTree \<Rightarrow> bool" where
  "has_room t = (is_leaf t \<and> int (length (points t)) < sint (capacity t))"

text \<open>Step 3: if the children are absent, subdivide.\<close>

definition with_children :: "QuadTree \<Rightarrow> QuadTree" where
  "with_children t = (if is_leaf t then subdivide t else t)"

partial_function (option) insert_spec :: "Point \<Rightarrow> QuadTree \<Rightarrow> (bool \<times> QuadTree) outcome" where
  "insert_spec p t =
    (if \<not> contains (boundary t) p then Some (Inr (False, t))
     else if has_room t then Some (Inr (True, push_back t p))
     else
       let t0 = with_children t in
       (case nw t0 of None \<Rightarrow> Some (Inl NullDeref) | Some c \<Rightarrow>
         Option.bind (insert_spec p c) (\<lambda>r. case r of Inl f \<Rightarrow> Some (Inl f) | Inr (ok, c') \<Rightarrow>
           let t1 = set_nw t0 c' in
           if ok then Some (Inr (True, t1)) else
       (case ne t1 of None \<Rightarrow> Some (Inl NullDeref) | Some c \<Rightarrow>
         Option.bind (insert_spec p c) (\<lambda>r. case r of Inl f \<Rightarrow> Some (Inl f) | Inr (ok, c') \<Rightarrow>
           let t2 = set_ne t1 c' in
           if ok then Some (Inr (True, t2)) else
       (case sw t2 of None \<Rightarrow> Some (Inl NullDeref) | Some c \<Rightarrow>
         Option.bind (insert_spec p c) (\<lambda>r. case r of Inl f \<Rightarrow> Some (Inl f) | Inr (ok, c') \<Rightarrow>
           let t3 = set_sw t2 c' in
           if ok then Some (Inr (True, t3)) else
       (case se t3 of None \<Rightarrow> Some (Inl NullDeref) | Some c \<Rightarrow>
         Option.bind (insert_spec p c) (\<lambda>r. case r of Inl f \<Rightarrow> Some (Inl f) | Inr (ok, c') \<Rightarrow>
           let t4 = set_se t3 c' in
           if ok then Some (Inr (True, t4)) else Some (Inr (False, t4)))))))))))"

text \<open>A node with four children and an empty buffer, which \<open>insert\<close> never builds with
  a positive capacity.\<close>

definition ex_hollow :: QuadTree where
  "ex_hollow = subdivide ex_t0"

section \<open>The three ways the algorithm ends\<close>

lemma insert_spec_reject:
  "\<not> contains (boundary t) p \<Longrightarrow> insert_spec p t = Some (Inr (False, t))"
  by (subst insert_spec.simps) simp

lemma insert_spec_store:
  "contains (boundary t) p \<Longrightarrow> has_room t \<Longrightarrow> insert_spec p t = Some (Inr (True, push_back t p))"
  by (subst insert_spec.simps) simp

lemma insert_spec_descend:
  assumes "contains (boundary t) p" and "\<not> has_room t"
    and "nw (with_children t) = Some c1" and "ne (with_children t) = Some c2"
    and "sw (with_children t) = Some c3" and "se (with_children t) = Some c4"
    and "insert_spec p c1 = Some (Inr r1)" and "insert_spec p c2 = Some (Inr r2)"
    and "insert_spec p c3 = Some (Inr r3)" and "insert_spec p c4 = Some (Inr r4)"
  shows "insert_spec p t = Some (Inr (first_fit (with_children t) r1 r2 r3 r4))"
  using assms
  by (subst insert_spec.simps) (auto simp: first_fit_def Let_def split: prod.splits)

text \<open>What a descent leaves has children and the buffer it had.\<close>

lemma insert_spec_descent_result:
  assumes "contains (boundary t) p" and "\<not> has_room t" and "insert_spec p t = Some (Inr (ok, t'))"
  shows "nw t' \<noteq> None \<and> points t' = points t"
  using assms(3)
  by (subst (asm) insert_spec.simps)
    (auto simp: assms(1,2) Let_def with_children_def
      split: option.splits sum.splits prod.splits if_splits Option.bind_splits)

section \<open>The two tests on the trees that \<open>insert\<close> builds\<close>

lemma has_room_iff:
  assumes "shaped t" and "filled t" and "0 < sint (capacity t)"
  shows "has_room t \<longleftrightarrow> below_capacity t"
proof -
  from assms(3) have "size_t_of_int (capacity t) = nat (sint (capacity t))"
    by (simp add: size_t_of_int_nonneg)
  then have "below_capacity t \<longleftrightarrow> int (length (points t)) < sint (capacity t)"
    by (auto simp: below_capacity_def)
  moreover have "is_leaf t" if "below_capacity t"
    using assms(1)
  proof (cases rule: shaped_cases)
    case internal
    with filled_internal_full [OF assms(2)] that show ?thesis
      by simp
  qed
  ultimately show ?thesis
    by (auto simp: has_room_def)
qed

lemma with_children_shaped: "shaped t \<Longrightarrow> with_children t = ensure_children t"
  by (erule shaped_cases) (auto simp: with_children_def ensure_children_def is_leaf_def)

lemma insert_spec_eq:
  assumes "shaped t" and "uniform k t" and "filled t" and "0 < sint k"
  shows "insert_spec p t = insert_qt p t"
proof -
  from assms(4) have "k \<noteq> 0"
    by auto
  with assms(1,2)
  have "\<exists>r. insert_qt p t = Some (Inr r) \<and> (filled t \<longrightarrow> insert_spec p t = Some (Inr r))"
  proof (induction rule: insert_qt_induct)
    case (reject t)
    then show ?case
      by (simp add: insert_spec_reject)
  next
    case (store t)
    from store(2) have "capacity t = k"
      by (auto simp: uniform_def dest: every_root)
    with store have "filled t \<Longrightarrow> has_room t"
      using assms(4) by (simp add: has_room_iff)
    with store show ?case
      by (simp add: insert_spec_store)
  next
    case (descend t t0 c1 c2 c3 c4 r1 r2 r3 r4)
    note d = descend(1)
    show ?case
    proof
      assume f: "filled t"
      from d have t: "shaped t" "contains (boundary t) p" "\<not> below_capacity t"
        and t0: "t0 = with_children t"
        by (simp_all add: descends_def with_children_shaped)
      from t f assms(4) have full: "\<not> has_room t"
        by (simp add: has_room_iff descends_kids(15) [OF d])
      from d have kids: "nw (with_children t) = Some c1" "ne (with_children t) = Some c2"
        "sw (with_children t) = Some c3" "se (with_children t) = Some c4"
        by (auto simp: descends_def with_children_shaped)
      from descend(2-5) descends_filled(1-4) [OF d f]
      show "insert_spec p t = Some (Inr (first_fit t0 r1 r2 r3 r4))"
        unfolding t0 by (intro insert_spec_descend [OF t(2) full kids]) simp_all
    qed
  qed
  with assms(3) show ?thesis
    by auto
qed

section \<open>Where the two differ\<close>

text \<open>A node with children and room: line 47 stores the point in its buffer, the
  algorithm of the specification hands it to the children.\<close>

lemma insert_differs_internal:
  assumes "contains (boundary t) p" and "below_capacity t" and "nw t \<noteq> None"
  shows "insert_spec p t \<noteq> insert_qt p t"
proof
  assume "insert_spec p t = insert_qt p t"
  with assms(1,2) have "insert_spec p t = Some (Inr (True, push_back t p))"
    by (simp add: insert_qt_store)
  moreover from assms(3) have "\<not> has_room t"
    by (simp add: has_room_def is_leaf_def)
  ultimately show False
    using insert_spec_descent_result [OF assms(1), of True "push_back t p"] by simp
qed

text \<open>A negative capacity: line 47 compares with a \<open>size_t\<close> of at least \<open>2\<^sup>6\<^sup>3\<close> and
  stores the point, the algorithm of the specification finds no room.\<close>

lemma insert_differs_negative:
  assumes "contains b p" and "sint k < 0"
  shows "insert_spec p (new_QuadTree b k) \<noteq> insert_qt p (new_QuadTree b k)"
proof
  let ?t = "new_QuadTree b k"
  assume eq: "insert_spec p ?t = insert_qt p ?t"
  from assms(2) have "k \<noteq> 0"
    by auto
  with assms(1) eq have "insert_spec p ?t = Some (Inr (True, push_back ?t p))"
    by (simp add: insert_qt_new)
  moreover from assms(2) have "\<not> has_room ?t"
    by (simp add: has_room_def)
  ultimately show False
    using insert_spec_descent_result [of ?t p True "push_back ?t p"] assms(1) by simp
qed

lemma ex_hollow_differs: "insert_spec ex_p10 ex_hollow \<noteq> insert_qt ex_p10 ex_hollow"
  by (rule insert_differs_internal) (simp_all add: ex_hollow_def ex_run)

section \<open>Theorem\<close>

text \<open>C9 (equivalence): on every tree that the constructor and calls of \<open>insert\<close> build
  with a positive capacity, \<open>insert\<close> does what the algorithm of the specification
  does: the two return the same answer and leave the same tree. The test of line 47,
  which leaves out \<open>is a leaf\<close>, agrees with the test of step 2 on these trees.\<close>

theorem insert_qt_meets_spec:
  assumes "reachable b k t" and "0 < sint k"
  shows "insert_qt p t = insert_spec p t"
proof -
  from assms(2) have "k \<noteq> 0"
    by auto
  with assms(1) have "well_formed k t"
    by (simp add: reachable_invariant)
  then show ?thesis
    using insert_spec_eq [OF _ _ _ assms(2), of t p] by (simp add: well_formed_parts)
qed

theorem insert_qt_meets_spec_witness:
  "reachable ex_box 1 ex_t2 \<and> 0 < sint (1 :: cint) \<and>
   insert_spec ex_p90 ex_t2 = Some (Inr (True, ex_t3))"
  using insert_qt_meets_spec [OF ex_reachable(3), of ex_p90] ex_reachable(3) ex_inserts(3)
  by (simp add: returns_def)

end
