(* ===== verification/Spec2Isabelle.thy ===== *)
theory Spec2Isabelle
  imports Experiment QT_Heap Insert_Spec
begin

text \<open>
  \<^bold>\<open>A verified model of the point-region quadtree of \<open>src/Code.cpp\<close>.\<close>

  The program is one C++ file: the value classes \<open>Point\<close> and \<open>BoundingBox\<close>, the class
  \<open>QuadTree\<close> with the operations \<open>insert\<close>, \<open>queryRange\<close> and the private
  \<open>subdivide\<close>, and a \<open>main\<close> that fills a tree with random points, times random
  queries and prints the average of the timings. A tree node owns a buffer of at
  most \<open>capacity\<close> points and, once the buffer is full, four children over the
  quadrants of its boundary; the buffer is never emptied into the children.

  \<^bold>\<open>Theories and what they model\<close>, in the order of their imports.

  \<^descr>[\<open>QT_Prelude\<close>] The machine types (\<open>cint\<close>, \<open>size_t\<close>) and the conversion
    \<open>size_t_of_int\<close> that the comparison \<open>points.size() < capacity\<close> of line 47 applies;
    the type \<open>'a outcome\<close> of calls (\<open>None\<close>: no return; \<open>Some (Inl NullDeref)\<close>: a null
    child pointer is dereferenced; \<open>Some (Inr v)\<close>: returns \<open>v\<close>); the fact collections
    \<open>dbl_eval\<close>, \<open>qt_eval\<close>, \<open>qt_sel\<close>, \<open>qt_inv\<close>; lemmas on words, floors, multisets.

  \<^descr>[\<open>Float64\<close>] The type \<open>double\<close>: \<open>NaN\<close>, the two infinities and the finite
    rationals, with \<open>round_double\<close> rounding an exact result to the nearest binary64
    value, ties to even, overflow to infinity, gradual underflow. The comparisons
    \<open>d_le\<close>, \<open>d_lt\<close>, \<open>d_ge\<close>, \<open>d_gt\<close> are false on \<open>NaN\<close>; \<open>d_add\<close>, \<open>d_sub\<close>, \<open>d_half\<close>
    and \<open>d_mid\<close> are the arithmetic of lines 79, 80 and 118; \<open>d_mul\<close>, \<open>d_div\<close> and the
    conversion \<open>d_of_int\<close> are the arithmetic of \<open>main\<close> (lines 99, 100, 124, 132).
    Lemmas: the order laws that survive \<open>NaN\<close>, when a midpoint is \<open>NaN\<close>, and
    evaluations that agree with IEEE arithmetic on known values.

  \<^descr>[\<open>Rounding\<close>] The theory of \<open>round_double\<close>, which is no line of the program but
    the meaning of its operators \<open>+\<close>, \<open>-\<close>, \<open>*\<close> and \<open>/\<close>. With \<open>rnd\<close> (rounding to 53 bits) and
    \<open>classify\<close> (the overflow test) it shows that rounding is monotone, that it leaves
    the numbers \<open>m \<times> 2\<^sup>e\<close> with \<open>\<bar>m\<bar> \<le> 2\<^sup>5\<^sup>3\<close>, \<open>e \<ge> -1074\<close> alone and is idempotent, and that
    no binary64 value is nearer to a number than its rounding. Consequences used
    later: \<open>round_double_between\<close> (the rounding of a number between two binary64
    values lies between them) and \<open>d_mid_between\<close> (the midpoint of two binary64 values
    below \<open>2\<^sup>1\<^sup>0\<^sup>2\<^sup>3\<close> lies between them); above that the midpoint overflows.

  \<^descr>[\<open>Geometry\<close>] \<open>Point\<close> (lines 9 to 14) and \<open>BoundingBox\<close> (lines 17 to 27) as
    records, \<open>contains\<close> and \<open>intersects\<close> with the comparisons in the order of the
    source, and the four quadrants \<open>nw_box\<close>, \<open>ne_box\<close>, \<open>sw_box\<close>, \<open>se_box\<close> that
    \<open>subdivide\<close> computes (lines 79 to 84). Lemmas: two boxes that contain a common
    point intersect (pruning is sound); \<open>intersects\<close> decides overlap of boxes with
    ordered corners; the quadrants of a box with a midpoint cover it; a box whose
    midpoint is \<open>NaN\<close> has four empty quadrants. The theory also holds the region,
    the points and the query ranges of the example of the specification (\<open>ex_box\<close>,
    \<open>ex_p10\<close>, \<dots>), on which the theorems are instantiated.

  \<^descr>[\<open>Tiling\<close>] The quadrants in binary64 arithmetic. A box is \<open>safe_box\<close> when its
    corners are binary64 numbers below \<open>2\<^sup>1\<^sup>0\<^sup>2\<^sup>3\<close> in magnitude, in the right order. The
    quadrants of a safe box are safe boxes inside it (\<open>sub_box\<close>), and a point lies in
    the box exactly when it lies in a quadrant.

  \<^descr>[\<open>QuadTree\<close>] The class \<open>QuadTree\<close> (lines 30 to 86). A node is a value of the
    datatype \<open>QuadTree\<close> with the fields of the class; a child pointer is an option.
    The member functions update a node in place; the model returns the updated node.
    \<open>new_QuadTree\<close> is the constructor, \<open>insert_qt\<close> is \<open>insert\<close> (a
    \<open>partial_function\<close> in the option monad, since the recursion need not end),
    \<open>queryRange\<close> is \<open>queryRange\<close> with the vector it appends to, \<open>subdivide\<close> is
    \<open>subdivide\<close>. The abstraction of a tree is \<open>contents\<close>, the multiset of the points
    of all its buffers; \<open>all_points\<close> lists them in query order. The invariant
    \<open>well_formed k\<close> is the conjunction of \<open>k \<noteq> 0\<close> and of five properties of every
    node: \<open>shaped\<close> (four children or none), \<open>uniform k\<close> (capacity \<open>k\<close>), \<open>inside\<close>
    (the points of a subtree lie in the boundary of its root), \<open>filled\<close> (no buffer is
    over capacity, and the buffer of a node with children is full), \<open>tiled\<close> (the
    children have the quadrants of the boundary). The theory also holds the trees
    of the example, \<open>ex_t0\<close> to \<open>ex_t4\<close>.

  \<^descr>[\<open>QT_Heap\<close>] The objects behind the values: a heap of nodes with child pointers,
    for the two functions that allocate and free. \<open>delete_qt\<close> is a \<open>delete\<close> expression
    and \<open>destructor\<close> the body of \<open>~QuadTree()\<close> (lines 37 to 42); \<open>h_subdivide\<close> is
    \<open>subdivide\<close> with its four \<open>new\<close> expressions (lines 78 to 85). \<open>cells h t a\<close> lists
    the addresses at which the heap \<open>h\<close> holds the tree value \<open>t\<close> from \<open>a\<close> on. Lemmas:
    deleting a tree that is held without sharing frees exactly its cells, in any
    heap that agrees on them (\<open>delete_cells\<close>); \<open>h_subdivide\<close> implements \<open>subdivide\<close>; an
    object behind two pointers is freed twice, as happens to the children of a copy
    that the generated copy constructor \<open>h_copy\<close> makes; an object that is its own
    child is never freed.

  \<^descr>[\<open>QT_Insert\<close>] Correctness of \<open>insert\<close>. The induction rule \<open>insert_qt_induct\<close>
    follows the calls of \<open>insert\<close> on a well-formed tree; \<open>post\<close> is the postcondition
    of a call and \<open>insert_qt_post\<close> proves it for every call; \<open>insert_qt_total\<close> is
    the rule that the later theories use. The theorems: a call on a well-formed
    tree returns and never faults, keeps the tree well-formed, adds the point to
    the contents exactly when it returns \<open>true\<close>, returns \<open>true\<close> exactly for the
    points of the boundary (when the boundary has a midpoint), and leaves boundary
    and capacity alone. Outside these assumptions: with capacity 0 a call does not
    return; with a negative capacity a node never fills; a root whose midpoint is
    \<open>NaN\<close> rejects points it contains once it is full. \<open>grown\<close> relates the height
    of a node before and after a call: a call adds at most one level.

  \<^descr>[\<open>QT_Query\<close>] Correctness of \<open>queryRange\<close>. \<open>scan\<close> is the pruned pre-order
    traversal and \<open>faults\<close> says whether a traversal meets a missing child;
    \<open>queryRange_char\<close> describes a call on any tree by the two. On well-formed trees
    a query returns exactly the stored points that the range contains. \<open>query\<close> is
    a call on an empty vector, as \<open>main\<close> makes it.

  \<^descr>[\<open>Index_Spec\<close>] The contract. The abstract index is a region and a multiset of
    points with the operations \<open>Insert\<close> and \<open>Query\<close> (\<open>a_step\<close>, \<open>a_run\<close>); \<open>c_step\<close> and
    \<open>c_run\<close> are the same operations on a tree, and \<open>abs_qt\<close> maps a tree to the index
    it represents. The simulation lemmas show that every operation on a \<open>usable\<close>
    tree returns the reply of the abstract index and leaves a usable tree for the
    abstract successor state. \<open>reachable b k\<close> is the set of trees that the
    constructor and \<open>insert\<close> build, with its invariant by rule induction.

  \<^descr>[\<open>Insert_Spec\<close>] The algorithm of \<open>insert\<close> in the words of the specification
    (section 4.3): \<open>insert_spec\<close> stores a point when the node is a leaf and the
    size of its buffer is below the capacity, where line 47 compares the size with
    the capacity converted to \<open>size_t\<close> and does not ask for a leaf. On the trees
    that the constructor and \<open>insert\<close> build with a positive capacity the code does
    what \<open>insert_spec\<close> does; on a node with children and room, and with a negative
    capacity, it does not.

  \<^descr>[\<open>QT_Regions\<close>] An invariant of whole trees that follows from \<open>tiled\<close> and the
    lemmas of \<open>Tiling\<close>: \<open>nested b\<close> (the boundary of every node is a safe box inside
    \<open>b\<close>) holds of every tree built over a safe box.

  \<^descr>[\<open>Driver\<close>] The part of \<open>main\<close> that uses the tree: its parameters (lines 91 to
    94, 105, 106), the loop of insertions \<open>insert_all\<close> (lines 109 to 111), \<open>build\<close>,
    the box of a query \<open>query_range\<close> (line 118) and \<open>run_query\<close> (lines 118 to 121).

  \<^descr>[\<open>Experiment\<close>] The rest of \<open>main\<close>. \<open>coord\<close> is the expression of lines 99, 100,
    116 and 117 that scales a result of \<open>rand()\<close>; \<open>gen_data\<close> is the loop of lines 97
    to 102 that fills the data vector; \<open>run_queries\<close> is the loop of the queries (lines
    115 to 121); \<open>query_times\<close>, \<open>total_time\<close> and \<open>avg_time\<close> are the timings and their
    average (lines 124, 128 to 132); \<open>main_run\<close> composes them with \<open>build\<close>, from the
    data set to the number that is printed. The loops over the indices of a vector
    are folds over \<open>[0..<n]\<close> that update the vector; \<open>fold_update_replicate\<close> of the
    prelude turns them into maps. Lemmas: a generated coordinate is a binary64
    number in \<open>[0, 1000]\<close>, so every generated point is accepted by \<open>insert\<close>; the
    box of a query is safe and contains its centre; the average of the timings is
    finite, and not negative when no duration is.

  \<^descr>[\<open>Spec2Isabelle\<close>] This theory: the properties that span the components, from
    the constructor to the answer of a query, and the run of the whole program.

  \<^bold>\<open>Assumptions of the model.\<close> \<open>int\<close> has 32 bits and \<open>size_t\<close> 64 (LP64).
  \<open>double\<close> is IEEE-754 binary64 with round-to-nearest-even and every operation
  rounded to binary64 (\<open>FLT_EVAL_METHOD\<close> 0). The sign of a zero and the payload of
  a NaN are not represented: the program compares and adds, and never divides by
  a variable, prints a coordinate or inspects a bit pattern, so neither can be
  observed. The length of a vector is a natural number: \<open>push_back\<close> does not fail,
  and memory and the call stack are not bounded. The recursion of \<open>insert\<close> needs no
  fuel: it is a partial function whose value is \<open>None\<close> when the recursion does not
  end, and the theorems that say a call returns prove that it does. What \<open>main\<close>
  takes from the C library is an argument of the model: \<open>RAND_MAX\<close> (any positive
  \<open>int\<close>), the sequence of the results of \<open>rand()\<close> (assumed between \<open>0\<close> and
  \<open>RAND_MAX\<close>, as the C standard promises) and the counts of microseconds that the
  clock measures (any 64-bit integers). In \<open>Driver\<close> the data and the centres of the
  queries are arguments as well, and its theorems hold for all of them. A zero
  divisor is taken as the positive zero; the divisors of the program are the
  nonzero constants \<open>RAND_MAX\<close>, \<open>1e6\<close> and \<open>num_queries\<close>. In \<open>QT_Heap\<close> the addresses
  that \<open>new\<close> returns are arguments, assumed different and not allocated, and
  deallocation cannot fail.

  \<^bold>\<open>Bounds.\<close> No definition has fuel. The bound \<open>2\<^sup>1\<^sup>0\<^sup>2\<^sup>3\<close> on the corners of a safe box is
  the largest under which the sum of two corners cannot overflow; the bound \<open>2\<^sup>4\<^sup>4\<close> on
  a timing is the least power of two above \<open>2\<^sup>6\<^sup>3 / 10\<^sup>6\<close>, the largest count of microseconds
  in seconds.

  \<^bold>\<open>Not modelled.\<close> \<open>insert\<close> and \<open>queryRange\<close> on the heap: they are modelled on tree
  values, where a subtree is owned by the value that holds it, and \<open>QT_Heap\<close> relates
  the two views for allocation and deallocation only. Of \<open>main\<close> (lines 88 to 138):
  the destruction of its local objects at the end, the state of the random number
  generator, the readings of the clock (lines 120 and 122) and the formatting of
  the output (line 135); the model ends with the number that is printed.
\<close>

section \<open>From the constructor to the answer of a query\<close>

text \<open>C7 (roundtrip): with a capacity that is not zero and a boundary that has a
  midpoint, inserting a list of points into a new tree and then querying the region
  of the root returns, as a multiset, exactly the points of the list that \<open>insert\<close>
  accepted: those that the boundary contains, duplicates as often as they occur.\<close>

theorem insert_all_query_root:
  assumes "k \<noteq> 0" and "splittable b"
  shows "\<exists>t rs. returns (insert_all ps (new_QuadTree b k)) t \<and> query b t = Inr rs \<and>
    mset rs = filter_mset (contains b) (mset ps)"
proof -
  from assms have "usable k (new_QuadTree b k)"
    by (simp add: usable_new)
  then obtain t where t: "insert_all ps (new_QuadTree b k) = Some (Inr t)" "usable k t"
    "contents t = contents (new_QuadTree b k) + filter_mset (contains (boundary (new_QuadTree b k))) (mset ps)"
    by (rule insert_all_total [of k _ ps])
  from query_usable [OF t(2), of b] obtain rs where
    "query b t = Inr rs" "mset rs = filter_mset (contains b) (contents t)"
    by blast
  with t(1,3) show ?thesis
    by (auto simp: returns_def filter_filter_mset)
qed

theorem insert_all_query_root_witness:
  "(1 :: cint) \<noteq> 0 \<and> splittable ex_box \<and>
   returns (insert_all [ex_p10, ex_far, ex_p20, ex_p90] (new_QuadTree ex_box 1)) ex_t3 \<and>
   query ex_box ex_t3 = Inr [ex_p10, ex_p20, ex_p90] \<and>
   filter_mset (contains ex_box) (mset [ex_p10, ex_far, ex_p20, ex_p90]) = {#ex_p10, ex_p20, ex_p90#}"
  using insert_all_query_root [of 1 ex_box "[ex_p10, ex_far, ex_p20, ex_p90]"]
  by (simp add: ex_query splittable_def)

text \<open>C20 (functional): the program's own run. Whatever the data, \<open>main\<close> builds its
  tree (boundary \<open>[0, 1000] \<times> [0, 1000]\<close>, capacity 4) without a fault, the tree is
  well-formed, and each query around a centre \<open>(x, y)\<close> returns exactly the points of
  the data that lie in the boundary and in the box of the query.\<close>

theorem main_build_query:
  "\<exists>t rs. returns (build data) t \<and> well_formed main_capacity t \<and> run_query x y t = Inr rs \<and>
     mset rs = filter_mset (\<lambda>p. contains main_boundary p \<and> contains (query_range x y) p) (mset data)"
proof -
  from main_usable obtain t where t: "insert_all data (new_QuadTree main_boundary main_capacity) = Some (Inr t)"
    "usable main_capacity t"
    "contents t = contents (new_QuadTree main_boundary main_capacity) +
       filter_mset (contains (boundary (new_QuadTree main_boundary main_capacity))) (mset data)"
    by (rule insert_all_total [of main_capacity _ data])
  from query_usable [OF t(2), of "query_range x y"] obtain rs where
    "query (query_range x y) t = Inr rs" "mset rs = filter_mset (contains (query_range x y)) (contents t)"
    by blast
  with t show ?thesis
    by (auto simp: returns_def build_def run_query_def usable_def filter_filter_mset)
qed

section \<open>The experiment\<close>

text \<open>C11 (functional): the answers of the experiment. When the results of \<open>rand()\<close>
  lie between \<open>0\<close> and \<open>RAND_MAX\<close>, the tree built from the \<open>n\<close> generated points
  answers each of the \<open>m\<close> queries without a fault, and the answer to query \<open>i\<close> is
  exactly the multiset of generated points that the box of the query contains.\<close>

theorem run_queries_exact:
  assumes "0 < sint rmax" and "\<forall>k. 0 \<le> sint (rand k) \<and> sint (rand k) \<le> sint rmax"
  shows "\<exists>t. returns (build (gen_data rmax rand n)) t \<and>
    (\<forall>i < m. \<exists>rs. run_queries rmax rand (2 * n) m t ! i = Inr rs \<and>
       mset rs = filter_mset
         (contains (query_range (coord rmax (rand (2 * n + 2 * i))) (coord rmax (rand (2 * n + 2 * i + 1)))))
         (mset (gen_data rmax rand n)))"
proof -
  from assms obtain t where t: "build (gen_data rmax rand n) = Some (Inr t)" "usable main_capacity t"
    "boundary t = main_boundary" "contents t = mset (gen_data rmax rand n)"
    by (rule build_gen_data)
  from query_usable [OF t(2)] t(1,4) show ?thesis
    by (auto simp: returns_def run_queries_nth run_query_def)
qed

theorem run_queries_exact_witness:
  "0 < sint (10 :: cint) \<and> (\<forall>k. 0 \<le> sint (5 :: cint) \<and> sint (5 :: cint) \<le> sint (10 :: cint)) \<and>
   (\<exists>t. returns (build (gen_data 10 (\<lambda>k. 5) 3)) t \<and>
    (\<forall>i < 2. \<exists>rs. run_queries 10 (\<lambda>k. 5) (2 * 3) 2 t ! i = Inr rs \<and>
       mset rs = filter_mset (contains (query_range (coord 10 5) (coord 10 5)))
         (mset (gen_data 10 (\<lambda>k. 5) 3))))"
  using run_queries_exact [of 10 "\<lambda>k. 5" 3 2] by simp

text \<open>C12 (termination): the run of \<open>main\<close>. When the results of \<open>rand()\<close> lie between \<open>0\<close>
  and \<open>RAND_MAX\<close>, the program generates its million points, builds the tree, runs the
  thousand queries and computes the average of the timings without a fault and
  without running forever, and the number it prints is finite, whatever the clock
  returns.\<close>

theorem main_run_returns:
  assumes "0 < sint rmax" and "\<forall>k. 0 \<le> sint (rand k) \<and> sint (rand k) \<le> sint rmax"
  shows "\<exists>a. returns (main_run rmax rand dur) (Fin a) \<and> \<bar>a\<bar> \<le> 2 ^ 44"
proof -
  from assms obtain t where t: "build (gen_data rmax rand 1000000) = Some (Inr t)"
    "usable main_capacity t" "boundary t = main_boundary"
    "contents t = mset (gen_data rmax rand 1000000)"
    by (rule build_gen_data)
  from avg_time_ranged [of 1 dur] obtain a where
    "avg_time (query_times dur 1000) num_queries = Fin a" "\<bar>a\<bar> \<le> 2 ^ 44"
    by (auto elim!: rangedE)
  with t(1) run_queries_usable [OF t(2)] show ?thesis
    by (auto simp: main_run_def returns_def)
qed

theorem main_run_returns_witness:
  "0 < sint (10 :: cint) \<and> (\<forall>k. 0 \<le> sint (5 :: cint) \<and> sint (5 :: cint) \<le> sint (10 :: cint)) \<and>
   (\<exists>a. returns (main_run 10 (\<lambda>k. 5) (\<lambda>i. 2000000)) (Fin a) \<and> \<bar>a\<bar> \<le> 2 ^ 44)"
  using main_run_returns [of 10 "\<lambda>k. 5" "\<lambda>i. 2000000"] by simp

end
